(* ===== verification/Prelude.thy ===== *)
theory Prelude
  imports "HOL-Library.Word"
begin

unbundle bit_operations_syntax

text \<open>
  What every component shares: the machine integer types of the C sources, the ways a C
  function of this program can fail to return (as values of a sum type), sequencing of
  fallible computations, and the lemmas on bit fields that the decoders rest on.
\<close>

section \<open>Machine integers\<close>

type_synonym u8 = "8 word"
type_synonym u16 = "16 word"
type_synonym u32 = "32 word"
type_synonym u64 = "64 word"

text \<open>\<open>(uint32_t)(int32_t)(int16_t)x\<close> and \<open>(uint32_t)(int32_t)(int8_t)x\<close>: the
  conversions keep the low 16 (8) bits and sign-extend them.\<close>

definition sext16 :: "u32 \<Rightarrow> u32" where
  "sext16 x = scast (ucast x :: u16)"

definition sext8 :: "u32 \<Rightarrow> u32" where
  "sext8 x = scast (ucast x :: u8)"

text \<open>A C comparison used as an integer: 0 or 1.\<close>

definition c_bool :: "bool \<Rightarrow> u32" where
  "c_bool b = (if b then 1 else 0)"

lemma c_bool_eq [simp]: "c_bool b = 0 \<longleftrightarrow> \<not> b" "c_bool b = 1 \<longleftrightarrow> b" "c_bool b = c_bool b' \<longleftrightarrow> b = b'"
  by (auto simp: c_bool_def)

definition flag :: "u32 \<Rightarrow> bool" where
  "flag x \<longleftrightarrow> x = 0 \<or> x = 1"

lemma flag_c_bool [simp]: "flag 0" "flag (c_bool p)"
  by (simp_all add: flag_def c_bool_def)

section \<open>Outcomes\<close>

text \<open>
  The program never recovers from an error: the slow-path stubs and the two \<open>illegal\<close>
  handlers print a diagnostic and call \<open>exit(1)\<close>. A computation is therefore either
  \<open>Inr\<close> of its result or \<open>Inl\<close> of the reason for which the process stopped.
  \<open>Undefined\<close> stands for an array access outside its bounds, where the C standard
  gives the program no meaning.
\<close>

datatype access = Read8 | Read16 | Read32 | Write8 | Write16 | Write32

datatype trap =
    SlowPath access u32   \<comment> \<open>\<open>bad_access\<close>: kind of access and masked address\<close>
  | Illegal u32 u32       \<comment> \<open>instruction word and the pc printed beside it\<close>
  | AllocFailed           \<comment> \<open>\<open>mem_env_init\<close>: allocation failed\<close>
  | Undefined             \<comment> \<open>access outside an array: undefined behaviour\<close>

type_synonym 'a outcome = "trap + 'a"

primrec bindE :: "'a outcome \<Rightarrow> ('a \<Rightarrow> 'b outcome) \<Rightarrow> 'b outcome" where
  "bindE (Inl e) f = Inl e"
| "bindE (Inr v) f = f v"

text \<open>Reading an array element: outside the array the behaviour is undefined.\<close>

definition array_get :: "'a list \<Rightarrow> nat \<Rightarrow> 'a outcome" where
  "array_get xs i = (if i < length xs then Inr (xs ! i) else Inl Undefined)"

definition array_set :: "'a list \<Rightarrow> nat \<Rightarrow> 'a \<Rightarrow> 'a list outcome" where
  "array_set xs i x = (if i < length xs then Inr (xs[i := x]) else Inl Undefined)"

lemma bindE_cong [fundef_cong]:
  "x = y \<Longrightarrow> (\<And>v. y = Inr v \<Longrightarrow> f v = g v) \<Longrightarrow> bindE x f = bindE y g"
  by (cases y) auto

lemma bindE_assoc: "bindE (bindE x f) g = bindE x (\<lambda>v. bindE (f v) g)"
  by (cases x) auto

lemma bindE_Inr_iff: "bindE x f = Inr r \<longleftrightarrow> (\<exists>v. x = Inr v \<and> f v = Inr r)"
  by (cases x) auto

lemma bindE_Inl_iff:
  "bindE x f = Inl e \<longleftrightarrow> x = Inl e \<or> (\<exists>v. x = Inr v \<and> f v = Inl e)"
  by (cases x) auto

lemma bindE_InrE:
  assumes "bindE x f = Inr r"
  obtains v where "x = Inr v" and "f v = Inr r"
  using assms by (auto simp: bindE_Inr_iff)

lemma array_get_lt [simp]: "i < length xs \<Longrightarrow> array_get xs i = Inr (xs ! i)"
  by (simp add: array_get_def)

lemma array_set_lt [simp]: "i < length xs \<Longrightarrow> array_set xs i x = Inr (xs[i := x])"
  by (simp add: array_set_def)

section \<open>Bit fields of words\<close>

named_theorems fields \<open>bounds of instruction fields\<close>

lemma and_le_unat: "unat ((x::'a::len word) AND y) \<le> unat y"
  by (simp add: word_and_le1 flip: word_le_nat_alt)

lemma and_31_less [fields]: "unat ((x::u32) AND 31) < 32"
  using and_le_unat [of x 31] by simp

lemma and_7_less [fields]: "unat ((x::u32) AND 7) < 8"
  using and_le_unat [of x 7] by simp

lemma unat_less_16 [fields]: "unat ((x::u32) AND 15) < 16"
  using and_le_unat [of x 15] by simp

lemma unat_drop_bit_div: "unat (drop_bit n (x :: 'a::len word)) = unat x div 2 ^ n"
  unfolding unat_drop_bit_eq by (rule drop_bit_eq_div)

lemma unat_and_mask_mod: "unat ((x :: 'a::len word) AND mask n) = unat x mod 2 ^ n"
  by (metis take_bit_eq_mask take_bit_eq_mod unsigned_take_bit_eq)

lemma unat_u32_less: "unat (x :: u32) < 4294967296"
  by (rule order_less_le_trans [OF unsigned_less]) simp

lemma nth_in_singleton: "set xs \<subseteq> {x} \<Longrightarrow> i < length xs \<Longrightarrow> xs ! i = x"
  using nth_mem by fastforce

lemma ucast_add_nowrap:
  "unat (a :: u32) + unat k < 2 ^ 32 \<Longrightarrow> (ucast (a + k) :: u64) = ucast a + ucast k"
  by (simp add: word_unat_eq_iff unat_word_ariths unsigned_ucast_eq take_bit_eq_mod)

text \<open>A word below \<open>2 ^ k\<close> has no bits from \<open>k\<close> on.\<close>

lemma bit_high: "unat (w :: u32) < 2 ^ k \<Longrightarrow> k \<le> n \<Longrightarrow> \<not> bit w n"
proof -
  assume "unat w < 2 ^ k" "k \<le> n"
  then have "take_bit k w = w"
    by (simp add: word_unat_eq_iff unsigned_take_bit_eq take_bit_nat_eq_self)
  then show "\<not> bit w n"
    using \<open>k \<le> n\<close> by (metis bit_take_bit_iff not_le)
qed

lemma bit_low: "unat (w :: u32) < 2 ^ k \<Longrightarrow> bit w n \<Longrightarrow> n < k"
  using bit_high [of w k n] by (cases "n < k") auto

text \<open>In particular for a register number.\<close>

abbreviation reg :: "u32 \<Rightarrow> bool" where
  "reg r \<equiv> unat r < 32"

lemmas bit_reg = bit_high [where k = 5, simplified]
lemmas reg_bit = bit_low [where k = 5, simplified]

text \<open>The field masks of the sources.\<close>

lemma masks: "(0xFFFF :: u32) = mask 16" "(31 :: u32) = mask 5" "(0x3FF :: u32) = mask 10"
  "(0x7FF :: u32) = mask 11" "(0xFFFC :: u32) = mask 16 AND NOT (mask 2)" "(3 :: u32) = mask 2"
  "(7 :: u32) = mask 3"
  by (simp_all add: mask_eq_exp_minus_1)

section \<open>Tables with designated initialisers\<close>

text \<open>
  \<open>static T tab[64] = { [0 ... 63] = dflt, [k1] = x1, ... }\<close>: the overrides are applied
  in order; with distinct keys, looking a slot up is looking its key up in the list.
\<close>

definition slots :: "('k::len word \<times> 'a) list \<Rightarrow> ('a \<Rightarrow> 'b) \<Rightarrow> 'b list \<Rightarrow> 'b list" where
  "slots xs f t = fold (\<lambda>(key, op) t. t[unat key := f op]) xs t"

lemma length_slots [simp]: "length (slots xs f t) = length t"
  unfolding slots_def by (induction xs arbitrary: t) auto

lemma slots_nth:
  assumes "distinct (map fst xs)" and "unat k < length t"
  shows "slots xs f t ! unat k = (case map_of xs k of Some op \<Rightarrow> f op | None \<Rightarrow> t ! unat k)"
  using assms
proof (induction xs arbitrary: t)
  case Nil
  then show ?case by (simp add: slots_def)
next
  case (Cons x xs)
  obtain key op where x: "x = (key, op)" by (cases x)
  have "slots (x # xs) f t ! unat k = slots xs f (t[unat key := f op]) ! unat k"
    by (simp add: slots_def x)
  also have "\<dots> = (case map_of xs k of Some op \<Rightarrow> f op | None \<Rightarrow> t[unat key := f op] ! unat k)"
    using Cons by simp
  finally have *: "slots (x # xs) f t ! unat k = \<dots>" .
  show ?case
  proof (cases "key = k")
    case True
    with Cons.prems have "map_of xs k = None"
      by (simp add: x map_of_eq_None_iff)
    with * True Cons.prems show ?thesis by (simp add: x)
  next
    case False
    then have "unat key \<noteq> unat k"
      by (simp add: word_unat_eq_iff)
    with * False show ?thesis by (simp add: x split: option.split)
  qed
qed

end
