(* ===== verification/Guest_Memory.thy ===== *)
theory Guest_Memory
  imports Prelude
begin

text \<open>
  \<open>src/common/mem_fastpath.h\<close> and \<open>src/common/mem_env.c\<close>: the software TLB through
  which every backend reaches guest memory. The globals of the two files are the record
  \<open>mem_env\<close>; host memory is a map from 64-bit host addresses to bytes (the native
  build; \<open>uintptr_t\<close> arithmetic wraps at 64 bits). The host is little-endian, as the
  \<open>LOAD_BE\<close> macros assume, so a host load followed by the byte swap is what is
  modelled, and that it reads big-endian is a lemma.
\<close>

section \<open>State\<close>

record mem_env =
  address_mask :: u32          \<comment> \<open>\<open>g_address_mask\<close>\<close>
  active_read :: "u64 list"    \<comment> \<open>\<open>g_active_read\<close>: adjusted host bases, one per page\<close>
  active_write :: "u64 list"   \<comment> \<open>\<open>g_active_write\<close>\<close>
  value_trap_active :: u32
  value_trap_value :: u32
  value_trap_size :: u32
  g_ram :: u64                 \<comment> \<open>host address of the backing store\<close>
  host :: "u64 \<Rightarrow> u8"         \<comment> \<open>host memory\<close>

section \<open>Big-endian access macros\<close>

text \<open>\<open>__builtin_bswap16\<close> and \<open>__builtin_bswap32\<close>: the bytes in reverse order.\<close>

definition bswap16 :: "u16 \<Rightarrow> u16" where
  "bswap16 x = push_bit 8 x OR drop_bit 8 x"

definition bswap32 :: "u32 \<Rightarrow> u32" where
  "bswap32 x = push_bit 24 (take_bit 8 x) OR push_bit 16 (take_bit 8 (drop_bit 8 x))
     OR push_bit 8 (take_bit 8 (drop_bit 16 x)) OR take_bit 8 (drop_bit 24 x)"

text \<open>The host's own 16- and 32-bit loads and stores (little-endian).\<close>

definition host_load16 :: "(u64 \<Rightarrow> u8) \<Rightarrow> u64 \<Rightarrow> u16" where
  "host_load16 h p = ucast (h p) OR push_bit 8 (ucast (h (p + 1)))"

definition host_load32 :: "(u64 \<Rightarrow> u8) \<Rightarrow> u64 \<Rightarrow> u32" where
  "host_load32 h p = ucast (h p) OR push_bit 8 (ucast (h (p + 1)))
     OR push_bit 16 (ucast (h (p + 2))) OR push_bit 24 (ucast (h (p + 3)))"

definition host_store16 :: "(u64 \<Rightarrow> u8) \<Rightarrow> u64 \<Rightarrow> u16 \<Rightarrow> (u64 \<Rightarrow> u8)" where
  "host_store16 h p v = h(p := ucast v, p + 1 := ucast (drop_bit 8 v))"

definition host_store32 :: "(u64 \<Rightarrow> u8) \<Rightarrow> u64 \<Rightarrow> u32 \<Rightarrow> (u64 \<Rightarrow> u8)" where
  "host_store32 h p v = h(p := ucast v, p + 1 := ucast (drop_bit 8 v),
     p + 2 := ucast (drop_bit 16 v), p + 3 := ucast (drop_bit 24 v))"

definition LOAD_BE8 :: "(u64 \<Rightarrow> u8) \<Rightarrow> u64 \<Rightarrow> u8" where
  "LOAD_BE8 h p = h p"

definition LOAD_BE16 :: "(u64 \<Rightarrow> u8) \<Rightarrow> u64 \<Rightarrow> u16" where
  "LOAD_BE16 h p = bswap16 (host_load16 h p)"

definition LOAD_BE32 :: "(u64 \<Rightarrow> u8) \<Rightarrow> u64 \<Rightarrow> u32" where
  "LOAD_BE32 h p = bswap32 (host_load32 h p)"

definition STORE_BE8 :: "(u64 \<Rightarrow> u8) \<Rightarrow> u64 \<Rightarrow> u8 \<Rightarrow> (u64 \<Rightarrow> u8)" where
  "STORE_BE8 h p v = h(p := v)"

definition STORE_BE16 :: "(u64 \<Rightarrow> u8) \<Rightarrow> u64 \<Rightarrow> u16 \<Rightarrow> (u64 \<Rightarrow> u8)" where
  "STORE_BE16 h p v = host_store16 h p (bswap16 v)"

definition STORE_BE32 :: "(u64 \<Rightarrow> u8) \<Rightarrow> u64 \<Rightarrow> u32 \<Rightarrow> (u64 \<Rightarrow> u8)" where
  "STORE_BE32 h p v = host_store32 h p (bswap32 v)"

section \<open>Page table geometry\<close>

definition PAGE_SHIFT :: nat where "PAGE_SHIFT = 12"
definition MEM_PAGE_SIZE :: u32 where "MEM_PAGE_SIZE = push_bit PAGE_SHIFT 1"
definition PAGE_MASK :: u32 where "PAGE_MASK = MEM_PAGE_SIZE - 1"

lemmas page_geometry = PAGE_SHIFT_def MEM_PAGE_SIZE_def PAGE_MASK_def

section \<open>Slow paths and the value trap\<close>

text \<open>\<open>bad_access\<close> prints and exits; the six slow-path functions all end in it.\<close>

definition bad_access :: "access \<Rightarrow> u32 \<Rightarrow> 'a outcome" where
  "bad_access what addr = Inl (SlowPath what addr)"

definition memory_read_uint8_slow :: "u32 \<Rightarrow> u8 outcome" where
  "memory_read_uint8_slow addr = bad_access Read8 addr"
definition memory_read_uint16_slow :: "u32 \<Rightarrow> u16 outcome" where
  "memory_read_uint16_slow addr = bad_access Read16 addr"
definition memory_read_uint32_slow :: "u32 \<Rightarrow> u32 outcome" where
  "memory_read_uint32_slow addr = bad_access Read32 addr"
definition memory_write_uint8_slow :: "u32 \<Rightarrow> u8 \<Rightarrow> mem_env outcome" where
  "memory_write_uint8_slow addr v = bad_access Write8 addr"
definition memory_write_uint16_slow :: "u32 \<Rightarrow> u16 \<Rightarrow> mem_env outcome" where
  "memory_write_uint16_slow addr v = bad_access Write16 addr"
definition memory_write_uint32_slow :: "u32 \<Rightarrow> u32 \<Rightarrow> mem_env outcome" where
  "memory_write_uint32_slow addr v = bad_access Write32 addr"

text \<open>In this environment the value trap is a stub that does nothing.\<close>

definition value_trap_check :: "u32 \<Rightarrow> u32 \<Rightarrow> nat \<Rightarrow> mem_env \<Rightarrow> mem_env" where
  "value_trap_check la v s m = m"

section \<open>Inline accessors\<close>

definition memory_read_uint8 :: "mem_env \<Rightarrow> u32 \<Rightarrow> u8 outcome" where
  "memory_read_uint8 m addr =
    (let masked = addr AND address_mask m in
     bindE (array_get (active_read m) (unat (drop_bit PAGE_SHIFT masked))) (\<lambda>base.
     if base \<noteq> 0 then Inr (LOAD_BE8 (host m) (base + ucast masked))
     else memory_read_uint8_slow masked))"

definition memory_read_uint16 :: "mem_env \<Rightarrow> u32 \<Rightarrow> u16 outcome" where
  "memory_read_uint16 m addr =
    (let masked = addr AND address_mask m in
     bindE (array_get (active_read m) (unat (drop_bit PAGE_SHIFT masked))) (\<lambda>base.
     if base \<noteq> 0 \<and> masked AND PAGE_MASK \<le> MEM_PAGE_SIZE - 2
     then Inr (LOAD_BE16 (host m) (base + ucast masked))
     else memory_read_uint16_slow masked))"

definition memory_read_uint32 :: "mem_env \<Rightarrow> u32 \<Rightarrow> u32 outcome" where
  "memory_read_uint32 m addr =
    (let masked = addr AND address_mask m in
     bindE (array_get (active_read m) (unat (drop_bit PAGE_SHIFT masked))) (\<lambda>base.
     if base \<noteq> 0 \<and> masked AND PAGE_MASK \<le> MEM_PAGE_SIZE - 4
     then Inr (LOAD_BE32 (host m) (base + ucast masked))
     else memory_read_uint32_slow masked))"

definition memory_write_uint8 :: "mem_env \<Rightarrow> u32 \<Rightarrow> u8 \<Rightarrow> mem_env outcome" where
  "memory_write_uint8 m addr value =
    (let masked = addr AND address_mask m in
     bindE (array_get (active_write m) (unat (drop_bit PAGE_SHIFT masked))) (\<lambda>base.
     let m = (if value_trap_active m \<noteq> 0 \<and> value_trap_size m = 1
                 \<and> value = ucast (value_trap_value m)
              then value_trap_check masked (ucast value) 1 m else m) in
     if base \<noteq> 0
     then Inr (m\<lparr>host := STORE_BE8 (host m) (base + ucast masked) value\<rparr>)
     else memory_write_uint8_slow masked value))"

definition memory_write_uint16 :: "mem_env \<Rightarrow> u32 \<Rightarrow> u16 \<Rightarrow> mem_env outcome" where
  "memory_write_uint16 m addr value =
    (let masked = addr AND address_mask m in
     bindE (array_get (active_write m) (unat (drop_bit PAGE_SHIFT masked))) (\<lambda>base.
     let m = (if value_trap_active m \<noteq> 0 \<and> value_trap_size m = 2
                 \<and> value = ucast (value_trap_value m)
              then value_trap_check masked (ucast value) 2 m else m) in
     if base \<noteq> 0 \<and> masked AND PAGE_MASK \<le> MEM_PAGE_SIZE - 2
     then Inr (m\<lparr>host := STORE_BE16 (host m) (base + ucast masked) value\<rparr>)
     else memory_write_uint16_slow masked value))"

definition memory_write_uint32 :: "mem_env \<Rightarrow> u32 \<Rightarrow> u32 \<Rightarrow> mem_env outcome" where
  "memory_write_uint32 m addr value =
    (let masked = addr AND address_mask m in
     bindE (array_get (active_write m) (unat (drop_bit PAGE_SHIFT masked))) (\<lambda>base.
     let m = (if value_trap_active m \<noteq> 0 \<and> value_trap_size m = 4
                 \<and> value = value_trap_value m
              then value_trap_check masked value 4 m else m) in
     if base \<noteq> 0 \<and> masked AND PAGE_MASK \<le> MEM_PAGE_SIZE - 4
     then Inr (m\<lparr>host := STORE_BE32 (host m) (base + ucast masked) value\<rparr>)
     else memory_write_uint32_slow masked value))"

section \<open>Initialisation\<close>

text \<open>
  \<open>malloc\<close> is not under \<open>src/\<close>: the addresses of the three blocks it returns
  are a parameter (0 when an allocation fails). The two loops of the C function write every
  element of the fresh arrays.
\<close>

definition mem_env_init :: "u32 \<Rightarrow> u64 \<times> u64 \<times> u64 \<Rightarrow> mem_env \<Rightarrow> mem_env outcome" where
  "mem_env_init ram_bytes blocks m =
    (let pages = drop_bit PAGE_SHIFT ram_bytes; (ram, rd, wr) = blocks in
     if ram = 0 \<or> rd = 0 \<or> wr = 0 then Inl AllocFailed
     else Inr (m\<lparr>g_ram := ram,
                 address_mask := ram_bytes - 1,
                 active_read := map (\<lambda>p. ram) [0..<unat pages],
                 active_write := map (\<lambda>p. ram) [0..<unat pages]\<rparr>))"

definition mem_env_ram :: "mem_env \<Rightarrow> u64" where
  "mem_env_ram m = g_ram m"

section \<open>The contract: a flat big-endian memory\<close>

text \<open>
  What the fast path promises: guest memory is an array of bytes indexed by the masked
  address, read and written big-endian; an access that would cross a page boundary never
  touches it and stops the run instead.
\<close>

type_synonym flat = "u32 \<Rightarrow> u8"

definition be16 :: "flat \<Rightarrow> u32 \<Rightarrow> u16" where
  "be16 f a = push_bit 8 (ucast (f a)) OR ucast (f (a + 1))"

definition be32 :: "flat \<Rightarrow> u32 \<Rightarrow> u32" where
  "be32 f a = push_bit 24 (ucast (f a)) OR push_bit 16 (ucast (f (a + 1)))
     OR push_bit 8 (ucast (f (a + 2))) OR ucast (f (a + 3))"

definition put16 :: "flat \<Rightarrow> u32 \<Rightarrow> u16 \<Rightarrow> flat" where
  "put16 f a v = f(a := ucast (drop_bit 8 v), a + 1 := ucast v)"

definition put32 :: "flat \<Rightarrow> u32 \<Rightarrow> u32 \<Rightarrow> flat" where
  "put32 f a v = f(a := ucast (drop_bit 24 v), a + 1 := ucast (drop_bit 16 v),
     a + 2 := ucast (drop_bit 8 v), a + 3 := ucast v)"

text \<open>An access of \<open>k\<close> bytes at masked address \<open>o\<close> stays inside its page.\<close>

definition in_page :: "u32 \<Rightarrow> u32 \<Rightarrow> bool" where
  "in_page k a \<longleftrightarrow> a AND PAGE_MASK \<le> MEM_PAGE_SIZE - k"

definition ram_at :: "mem_env \<Rightarrow> flat" where
  "ram_at m a = host m (g_ram m + ucast a)"

definition masked :: "mem_env \<Rightarrow> u32 \<Rightarrow> u32" where
  "masked m a = a AND address_mask m"

text \<open>The tables cover every masked address and point at the backing store.\<close>

definition wf_env :: "mem_env \<Rightarrow> bool" where
  "wf_env m \<longleftrightarrow> g_ram m \<noteq> 0 \<and> unat (address_mask m) < 4096 * length (active_read m)
     \<and> length (active_write m) = length (active_read m)
     \<and> set (active_read m) \<subseteq> {g_ram m} \<and> set (active_write m) \<subseteq> {g_ram m}"

section \<open>Refinement of the contract\<close>

lemma byte_bit_high: "8 \<le> n \<Longrightarrow> \<not> bit (b :: u8) n"
  by (auto dest: bit_imp_le_length)

lemma byte_of_position:
  "(n::nat) < 32 \<Longrightarrow> \<exists>k<8. n = k \<or> n = k + 8 \<or> n = k + 16 \<or> n = k + 24"
  by presburger

lemma bswap32_bytes_load:
  "bswap32 (ucast (b0 :: u8) OR push_bit 8 (ucast (b1 :: u8)) OR push_bit 16 (ucast (b2 :: u8))
     OR push_bit 24 (ucast (b3 :: u8)))
   = push_bit 24 (ucast b0) OR push_bit 16 (ucast b1) OR push_bit 8 (ucast b2) OR ucast b3"
proof (rule bit_word_eqI)
  fix n
  assume "n < LENGTH(32)"
  then obtain k where "k < 8" and "n = k \<or> n = k + 8 \<or> n = k + 16 \<or> n = k + 24"
    using byte_of_position [of n] by auto
  then show "bit (bswap32 (ucast b0 OR push_bit 8 (ucast b1) OR push_bit 16 (ucast b2)
      OR push_bit 24 (ucast b3))) n
    = bit (push_bit 24 (ucast b0) OR push_bit 16 (ucast b1) OR push_bit 8 (ucast b2)
      OR ucast b3 :: u32) n"
    by (elim disjE; simp add: bswap32_def bit_simps byte_bit_high)
qed

lemma LOAD_BE16_be: "LOAD_BE16 h p = push_bit 8 (ucast (h p)) OR ucast (h (p + 1))"
  by (rule bit_word_eqI)
    (auto simp: LOAD_BE16_def bswap16_def host_load16_def bit_simps dest: bit_imp_le_length)

lemma LOAD_BE32_be: "LOAD_BE32 h p = push_bit 24 (ucast (h p)) OR push_bit 16 (ucast (h (p + 1)))
     OR push_bit 8 (ucast (h (p + 2))) OR ucast (h (p + 3))"
  by (simp only: LOAD_BE32_def host_load32_def bswap32_bytes_load)

lemma STORE_BE16_be: "STORE_BE16 h p v = h(p := ucast (drop_bit 8 v), p + 1 := ucast v)"
proof -
  have "ucast (bswap16 v) = (ucast (drop_bit 8 v) :: u8)"
    by (rule bit_word_eqI) (auto simp: bswap16_def bit_simps)
  moreover have "ucast (drop_bit 8 (bswap16 v)) = (ucast v :: u8)"
    by (rule bit_word_eqI) (auto simp: bswap16_def bit_simps)
  ultimately show ?thesis by (simp add: STORE_BE16_def host_store16_def)
qed

lemma bswap32_bytes:
  "ucast (bswap32 v) = (ucast (drop_bit 24 v) :: u8)"
  "ucast (drop_bit 8 (bswap32 v)) = (ucast (drop_bit 16 v) :: u8)"
  "ucast (drop_bit 16 (bswap32 v)) = (ucast (drop_bit 8 v) :: u8)"
  "ucast (drop_bit 24 (bswap32 v)) = (ucast v :: u8)"
  by (rule bit_word_eqI; auto simp: bswap32_def bit_simps dest: bit_imp_le_length)+

lemma STORE_BE32_be: "STORE_BE32 h p v = h(p := ucast (drop_bit 24 v),
    p + 1 := ucast (drop_bit 16 v), p + 2 := ucast (drop_bit 8 v), p + 3 := ucast v)"
  by (simp add: STORE_BE32_def host_store32_def bswap32_bytes)

lemma masked_page_in_range:
  assumes "wf_env m"
  shows "unat (drop_bit PAGE_SHIFT (masked m a)) < length (active_read m)"
proof -
  have "unat (masked m a) \<le> unat (address_mask m)"
    by (simp add: masked_def and_le_unat)
  then show ?thesis
    using assms by (simp add: wf_env_def PAGE_SHIFT_def unat_drop_bit_div
      less_mult_imp_div_less mult.commute)
qed

lemma wf_env_pages:
  assumes "wf_env m"
  shows "array_get (active_read m) (unat (drop_bit PAGE_SHIFT (masked m a))) = Inr (g_ram m)"
    and "array_get (active_write m) (unat (drop_bit PAGE_SHIFT (masked m a))) = Inr (g_ram m)"
    and "g_ram m \<noteq> 0"
  using assms masked_page_in_range [OF assms, of a]
  by (simp_all add: wf_env_def nth_in_singleton)

lemma in_page_bound:
  assumes "in_page k a" and "k \<le> 4096"
  shows "unat a + unat k \<le> 2 ^ 32"
proof -
  have "unat (a AND PAGE_MASK) = unat a mod 4096"
    using unat_and_mask_mod [of a 12] by (simp add: page_geometry mask_eq_exp_minus_1)
  moreover have "unat (MEM_PAGE_SIZE - k) = 4096 - unat k"
    using assms(2) by (simp add: page_geometry unat_sub)
  ultimately have "unat a mod 4096 \<le> 4096 - unat k"
    using assms(1) by (simp add: in_page_def word_le_nat_alt)
  moreover have "unat k \<le> 4096"
    using assms(2) by (simp add: word_le_nat_alt)
  moreover have "unat a div 4096 < 1048576"
    using unat_u32_less [of a] by (simp add: less_mult_imp_div_less)
  moreover have "unat a = 4096 * (unat a div 4096) + unat a mod 4096"
    by simp
  ultimately have "unat a + unat k \<le> 4294967296" by linarith
  then show ?thesis by simp
qed

lemma ram_at_next:
  assumes "in_page k a" "j < k" "k \<le> 4096"
  shows "ram_at m (a + j) = host m (g_ram m + ucast a + ucast j)"
proof -
  have "unat a + unat j < 2 ^ 32"
    using in_page_bound [OF assms(1,3)] assms(2) by (simp add: word_less_nat_alt)
  then show ?thesis by (simp add: ram_at_def ucast_add_nowrap add.assoc)
qed

lemma memory_read_uint8_flat:
  "wf_env m \<Longrightarrow> memory_read_uint8 m a = Inr (ram_at m (masked m a))"
  by (simp add: memory_read_uint8_def Let_def wf_env_pages LOAD_BE8_def ram_at_def
    flip: masked_def)

lemma memory_read_uint16_flat:
  "wf_env m \<Longrightarrow> memory_read_uint16 m a =
    (if in_page 2 (masked m a) then Inr (be16 (ram_at m) (masked m a))
     else Inl (SlowPath Read16 (masked m a)))"
  using ram_at_next [of 2 "masked m a" 0 m] ram_at_next [of 2 "masked m a" 1 m]
  by (simp add: memory_read_uint16_def Let_def wf_env_pages LOAD_BE16_be be16_def
    memory_read_uint16_slow_def bad_access_def in_page_def flip: masked_def)

lemma memory_read_uint32_flat:
  "wf_env m \<Longrightarrow> memory_read_uint32 m a =
    (if in_page 4 (masked m a) then Inr (be32 (ram_at m) (masked m a))
     else Inl (SlowPath Read32 (masked m a)))"
  using ram_at_next [of 4 "masked m a" 0 m] ram_at_next [of 4 "masked m a" 1 m]
    ram_at_next [of 4 "masked m a" 2 m] ram_at_next [of 4 "masked m a" 3 m]
  by (simp add: memory_read_uint32_def Let_def wf_env_pages LOAD_BE32_be be32_def
    memory_read_uint32_slow_def bad_access_def in_page_def flip: masked_def)

text \<open>The write side. A store changes host memory only, and there only its own bytes.\<close>

lemma wf_env_host [simp]: "wf_env (m\<lparr>host := h\<rparr>) = wf_env m"
  by (simp add: wf_env_def)

lemma masked_host [simp]: "masked (m\<lparr>host := h\<rparr>) a = masked m a"
  by (simp add: masked_def)

lemma memory_write_uint8_store:
  "wf_env m \<Longrightarrow> memory_write_uint8 m a v =
    Inr (m\<lparr>host := STORE_BE8 (host m) (g_ram m + ucast (masked m a)) v\<rparr>)"
  by (simp add: memory_write_uint8_def value_trap_check_def Let_def wf_env_pages
    flip: masked_def)

lemma memory_write_uint16_store:
  "wf_env m \<Longrightarrow> memory_write_uint16 m a v =
    (if in_page 2 (masked m a)
     then Inr (m\<lparr>host := STORE_BE16 (host m) (g_ram m + ucast (masked m a)) v\<rparr>)
     else Inl (SlowPath Write16 (masked m a)))"
  by (simp add: memory_write_uint16_def value_trap_check_def Let_def wf_env_pages
    memory_write_uint16_slow_def bad_access_def in_page_def flip: masked_def)

lemma memory_write_uint32_store:
  "wf_env m \<Longrightarrow> memory_write_uint32 m a v =
    (if in_page 4 (masked m a)
     then Inr (m\<lparr>host := STORE_BE32 (host m) (g_ram m + ucast (masked m a)) v\<rparr>)
     else Inl (SlowPath Write32 (masked m a)))"
  by (simp add: memory_write_uint32_def value_trap_check_def Let_def wf_env_pages
    memory_write_uint32_slow_def bad_access_def in_page_def flip: masked_def)

lemma ucast_u64_inj: "(ucast (a :: u32) :: u64) = ucast b \<longleftrightarrow> a = b"
  using unat_u32_less [of a] unat_u32_less [of b]
  by (simp add: word_unat_eq_iff unsigned_ucast_eq take_bit_nat_eq_self)

lemma ucast_next_eq:
  assumes "in_page k a" "j < k" "k \<le> 4096"
  shows "(ucast (x :: u32) :: u64) = ucast a + ucast j \<longleftrightarrow> x = a + j"
proof -
  have "unat a + unat j < 2 ^ 32"
    using in_page_bound [OF assms(1,3)] assms(2) by (simp add: word_less_nat_alt)
  then show ?thesis by (metis ucast_add_nowrap ucast_u64_inj)
qed

lemma ram_at_store8:
  "ram_at (m\<lparr>host := STORE_BE8 (host m) (g_ram m + ucast x) v\<rparr>) = (ram_at m)(x := v)"
  by (rule ext) (simp add: ram_at_def STORE_BE8_def ucast_u64_inj)

lemma ram_at_store16:
  assumes "in_page 2 x"
  shows "ram_at (m\<lparr>host := STORE_BE16 (host m) (g_ram m + ucast x) v\<rparr>) = put16 (ram_at m) x v"
  using ucast_next_eq [OF assms, of 0] ucast_next_eq [OF assms, of 1]
  by (intro ext) (simp add: ram_at_def STORE_BE16_be put16_def add.assoc)

lemma ram_at_store32:
  assumes "in_page 4 x"
  shows "ram_at (m\<lparr>host := STORE_BE32 (host m) (g_ram m + ucast x) v\<rparr>) = put32 (ram_at m) x v"
  using ucast_next_eq [OF assms, of 0] ucast_next_eq [OF assms, of 1]
    ucast_next_eq [OF assms, of 2] ucast_next_eq [OF assms, of 3]
  by (intro ext) (simp add: ram_at_def STORE_BE32_be put32_def add.assoc)

text \<open>Reading back what was written.\<close>

lemma be16_put16 [simp]: "be16 (put16 f a v) a = v"
  by (rule bit_word_eqI) (auto simp: be16_def put16_def bit_simps)

lemma put32_bytes:
  "put32 f a v a = ucast (drop_bit 24 v)" "put32 f a v (a + 1) = ucast (drop_bit 16 v)"
  "put32 f a v (a + 2) = ucast (drop_bit 8 v)" "put32 f a v (a + 3) = ucast v"
  by (simp_all add: put32_def)

lemma be32_put32 [simp]: "be32 (put32 f a v) a = v"
proof (rule bit_word_eqI)
  fix n
  assume "n < LENGTH(32)"
  then obtain k where "k < 8" and "n = k \<or> n = 8 + k \<or> n = 16 + k \<or> n = 24 + k"
    using byte_of_position [of n] by (auto simp: add.commute)
  then show "bit (be32 (put32 f a v) a) n = bit v n"
    by (elim disjE; simp add: be32_def put32_bytes bit_simps)
qed

text \<open>The set-up establishes the contract for every RAM of a power of two bytes.\<close>

lemma mem_env_init_power:
  assumes "12 \<le> k" "k \<le> 31" "ram \<noteq> 0" "rd \<noteq> 0" "wr \<noteq> 0"
  shows "\<exists>m'. mem_env_init (2 ^ k) (ram, rd, wr) m = Inr m' \<and> wf_env m' \<and> mem_env_ram m' = ram
    \<and> (\<forall>a. unat (masked m' a) = unat a mod 2 ^ k)"
proof -
  have size: "unat (2 ^ k :: u32) = 2 ^ k"
  proof -
    have "(2 ^ k :: u32) = of_nat (2 ^ k)" by simp
    moreover have "(2 :: nat) ^ k < 2 ^ 32"
      using assms(2) by (intro power_strict_increasing) simp_all
    ultimately show ?thesis
      by (simp only: unat_of_nat) (simp add: take_bit_nat_eq_self)
  qed
  have pages: "unat (drop_bit PAGE_SHIFT (2 ^ k :: u32)) = 2 ^ (k - 12)"
    using assms(1) power_add [of "2 :: nat" 12 "k - 12"]
    by (simp add: unat_drop_bit_div size PAGE_SHIFT_def)
  have "unat (mask k :: u32) < 2 ^ k"
    using unat_and_mask_mod [of "- 1 :: u32" k] by simp
  then have "unat (mask k :: u32) < 4096 * 2 ^ (k - 12)"
    using assms(1) power_add [of "2 :: nat" 12 "k - 12"] by simp
  then show ?thesis
    using assms(3-5) unat_and_mask_mod
    by (auto simp: mem_env_init_def Let_def pages wf_env_def mem_env_ram_def masked_def
      simp flip: mask_eq_exp_minus_1)
qed

section \<open>Alignment\<close>

definition aligned4 :: "u32 \<Rightarrow> bool" where
  "aligned4 a \<longleftrightarrow> a AND 3 = 0"

lemma aligned4_dvd: "aligned4 a \<longleftrightarrow> 4 dvd uint a"
  using and_mask_dvd [of 2 a] by (simp add: aligned4_def mask_eq_exp_minus_1)

lemma aligned4_dvd_nat: "aligned4 a \<longleftrightarrow> 4 dvd unat a"
  using and_mask_dvd_nat [of 2 a] by (simp add: aligned4_def mask_eq_exp_minus_1)

lemma aligned4_add: "aligned4 a \<Longrightarrow> aligned4 b \<Longrightarrow> aligned4 (a + b)"
  by (simp add: aligned4_dvd uint_word_ariths dvd_mod_iff)

lemma aligned4_diff: "aligned4 a \<Longrightarrow> aligned4 b \<Longrightarrow> aligned4 (a - b)"
  by (simp add: aligned4_dvd uint_word_ariths dvd_mod_iff)

lemma aligned4_4: "aligned4 4" "aligned4 0"
  by (simp_all add: aligned4_def)

lemma aligned4_in_page:
  assumes "aligned4 a" shows "in_page 4 a"
proof -
  obtain k where k: "unat a = 4 * k"
    using assms by (auto simp: aligned4_dvd_nat)
  have "unat (a AND 0xFFF) = unat a mod 4096"
    using unat_and_mask_mod [of a 12] by (simp add: mask_eq_exp_minus_1)
  moreover have "unat a mod 4096 = 4 * (k mod 1024)"
    using mod_mult_mult1 [of 4 k 1024] by (simp add: k)
  then have "unat a mod 4096 \<le> 4092" by simp
  ultimately show ?thesis
    by (simp add: in_page_def page_geometry word_le_nat_alt)
qed

section \<open>The interface the interpreters rely on\<close>

datatype store = St8 u32 u8 | St16 u32 u16 | St32 u32 u32

fun store_addr :: "store \<Rightarrow> u32" where
  "store_addr (St8 a v) = a"
| "store_addr (St16 a v) = a"
| "store_addr (St32 a v) = a"

fun store_width :: "store \<Rightarrow> nat" where
  "store_width (St8 a v) = 1"
| "store_width (St16 a v) = 2"
| "store_width (St32 a v) = 4"

fun memory_store :: "mem_env \<Rightarrow> store \<Rightarrow> mem_env outcome" where
  "memory_store m (St8 a v) = memory_write_uint8 m a v"
| "memory_store m (St16 a v) = memory_write_uint16 m a v"
| "memory_store m (St32 a v) = memory_write_uint32 m a v"

text \<open>The masked addresses of an access of \<open>k\<close> bytes.\<close>

definition footprint :: "u32 \<Rightarrow> nat \<Rightarrow> u32 set" where
  "footprint a k = (\<lambda>j. a + of_nat j) ` {..<k}"

locale byte_memory =
  fixes inv :: "'m \<Rightarrow> bool"
    and bytes :: "'m \<Rightarrow> u32 \<Rightarrow> u8"
    and loc :: "'m \<Rightarrow> u32 \<Rightarrow> u32"
    and rd16 :: "'m \<Rightarrow> u32 \<Rightarrow> u16 outcome"
    and rd32 :: "'m \<Rightarrow> u32 \<Rightarrow> u32 outcome"
    and wr :: "'m \<Rightarrow> store \<Rightarrow> 'm outcome"
  assumes wr_inv: "inv m \<Longrightarrow> wr m s = Inr m' \<Longrightarrow> inv m'"
    and wr_loc: "inv m \<Longrightarrow> wr m s = Inr m' \<Longrightarrow> loc m' = loc m"
    and wr_frame: "inv m \<Longrightarrow> wr m s = Inr m' \<Longrightarrow>
      x \<notin> footprint (loc m (store_addr s)) (store_width s) \<Longrightarrow> bytes m' x = bytes m x"
    and rd16_bytes: "inv m \<Longrightarrow> inv m' \<Longrightarrow> loc m' = loc m \<Longrightarrow>
      (\<And>x. x \<in> footprint (loc m a) 2 \<Longrightarrow> bytes m' x = bytes m x) \<Longrightarrow> rd16 m' a = rd16 m a"
    and rd32_bytes: "inv m \<Longrightarrow> inv m' \<Longrightarrow> loc m' = loc m \<Longrightarrow>
      (\<And>x. x \<in> footprint (loc m a) 4 \<Longrightarrow> bytes m' x = bytes m x) \<Longrightarrow> rd32 m' a = rd32 m a"
begin

text \<open>\<open>m'\<close> is \<open>m\<close> after stores that missed the region \<open>code\<close>.\<close>

definition agrees :: "u32 set \<Rightarrow> 'm \<Rightarrow> 'm \<Rightarrow> bool" where
  "agrees code m m' \<longleftrightarrow> inv m \<and> inv m' \<and> loc m' = loc m \<and> (\<forall>x\<in>code. bytes m' x = bytes m x)"

lemma agrees_refl: "inv m \<Longrightarrow> agrees code m m"
  by (simp add: agrees_def)

lemma agrees_wr:
  assumes "agrees code m0 m" and "wr m s = Inr m'"
    and "footprint (loc m0 (store_addr s)) (store_width s) \<inter> code = {}"
  shows "agrees code m0 m'"
proof -
  have inv: "inv m" and loc: "loc m = loc m0"
    using assms(1) by (auto simp: agrees_def)
  have "bytes m' x = bytes m x" if "x \<in> code" for x
    using wr_frame [OF inv assms(2)] assms(3) that by (auto simp: loc)
  then show ?thesis
    using assms(1) wr_inv [OF inv assms(2)] wr_loc [OF inv assms(2)] by (simp add: agrees_def)
qed

lemma agrees_rd32: "agrees code m m' \<Longrightarrow> footprint (loc m a) 4 \<subseteq> code \<Longrightarrow> rd32 m' a = rd32 m a"
  by (rule rd32_bytes) (auto simp: agrees_def)

lemma agrees_rd16: "agrees code m m' \<Longrightarrow> footprint (loc m a) 2 \<subseteq> code \<Longrightarrow> rd16 m' a = rd16 m a"
  by (rule rd16_bytes) (auto simp: agrees_def)

end

lemma memory_store_wf: "wf_env m \<Longrightarrow> memory_store m s = Inr m' \<Longrightarrow> wf_env m'"
  by (cases s) (auto simp: memory_write_uint8_store memory_write_uint16_store
    memory_write_uint32_store split: if_splits)

lemma memory_store_masked: "wf_env m \<Longrightarrow> memory_store m s = Inr m' \<Longrightarrow> masked m' = masked m"
  by (cases s) (auto simp: memory_write_uint8_store memory_write_uint16_store
    memory_write_uint32_store split: if_splits)

lemma footprint_simps:
  "footprint a 1 = {a}" "footprint a 2 = {a, a + 1}"
  "footprint a 4 = {a, a + 1, a + 2, a + 3}"
  by (auto simp: footprint_def numeral_eq_Suc lessThan_Suc)

lemma memory_store_frame:
  "wf_env m \<Longrightarrow> memory_store m s = Inr m' \<Longrightarrow>
    x \<notin> footprint (masked m (store_addr s)) (store_width s) \<Longrightarrow> ram_at m' x = ram_at m x"
  by (cases s) (auto simp: memory_write_uint8_store memory_write_uint16_store
    memory_write_uint32_store ram_at_store8 ram_at_store16 ram_at_store32 put16_def put32_def
    footprint_simps simp del: One_nat_def split: if_splits)

interpretation fast_path: byte_memory wf_env ram_at masked memory_read_uint16
    memory_read_uint32 memory_store
proof unfold_locales
  fix m m' :: mem_env and a
  assume "wf_env m" "wf_env m'" "masked m' = masked m"
  moreover assume "\<And>x. x \<in> footprint (masked m a) 2 \<Longrightarrow> ram_at m' x = ram_at m x"
  ultimately show "memory_read_uint16 m' a = memory_read_uint16 m a"
    by (simp add: memory_read_uint16_flat footprint_simps be16_def)
next
  fix m m' :: mem_env and a
  assume "wf_env m" "wf_env m'" "masked m' = masked m"
  moreover assume "\<And>x. x \<in> footprint (masked m a) 4 \<Longrightarrow> ram_at m' x = ram_at m x"
  ultimately show "memory_read_uint32 m' a = memory_read_uint32 m a"
    by (simp add: memory_read_uint32_flat footprint_simps be32_def)
qed (fact memory_store_wf memory_store_masked memory_store_frame)+

end
