(* ===== verification/PPC_Ops.thy ===== *)
theory PPC_Ops
  imports Guest_Memory
begin

text \<open>
  \<open>src/ppc/ppc_bench.h\<close> and \<open>src/ppc/ppc_ops.h\<close>: the PowerPC state, the generic
  instruction bodies (layer 1) and the X-macro instruction lists (layer 2) that every PPC
  backend stamps into its own dispatch shape. A C function that updates the state through
  \<open>ppc_t *c\<close> takes and returns the record; one that accesses guest memory takes the
  memory environment too.
\<close>

section \<open>State\<close>

record ppc =
  gpr :: "u32 list"     \<comment> \<open>32 general-purpose registers\<close>
  zero_base :: u32      \<comment> \<open>always 0\<close>
  ppc_pc :: u32         \<comment> \<open>field \<open>pc\<close>: current at sprint boundaries only\<close>
  lr :: u32
  ctr :: u32
  cr :: u32             \<comment> \<open>CR0.LT at bit 31\<close>
  xer_ca :: u32

text \<open>The diagnostic of \<open>bench_main.c\<close>: it prints the word and \<open>c->pc\<close> and exits.\<close>

definition ppc_illegal :: "ppc \<Rightarrow> u32 \<Rightarrow> 'a outcome" where
  "ppc_illegal c insn = Inl (Illegal insn (ppc_pc c))"

section \<open>Field extractors\<close>

definition P_RD :: "u32 \<Rightarrow> u32" where "P_RD i = drop_bit 21 i AND 31"
definition P_RA :: "u32 \<Rightarrow> u32" where "P_RA i = drop_bit 16 i AND 31"
definition P_RB :: "u32 \<Rightarrow> u32" where "P_RB i = drop_bit 11 i AND 31"
definition P_SIMM :: "u32 \<Rightarrow> u32" where "P_SIMM i = sext16 i"
definition P_UIMM :: "u32 \<Rightarrow> u32" where "P_UIMM i = i AND 0xFFFF"

text \<open>\<open>c->gpr[r]\<close> for a 5-bit register field.\<close>

definition get_gpr :: "ppc \<Rightarrow> u32 \<Rightarrow> u32" where
  "get_gpr c r = gpr c ! unat r"

text \<open>A store with index 32 lands in the word behind the array, \<open>zero_base\<close>. Larger indices, which
  no 5-bit field gives, go there too, so that any index out of range breaks \<open>zero_base = 0\<close>.\<close>

definition set_gpr :: "ppc \<Rightarrow> u32 \<Rightarrow> u32 \<Rightarrow> ppc" where
  "set_gpr c r v = (if unat r < 32 then c\<lparr>gpr := (gpr c)[unat r := v]\<rparr> else c\<lparr>zero_base := v\<rparr>)"

text \<open>\<open>ra ? c->gpr[ra] : 0\<close>\<close>

definition base_or_zero :: "ppc \<Rightarrow> u32 \<Rightarrow> u32" where
  "base_or_zero c ra = (if ra \<noteq> 0 then get_gpr c ra else 0)"

datatype op_kind = K_ADD | K_SUBF | K_MULLW | K_AND | K_OR | K_XOR | K_SLW | K_SRW

section \<open>Condition register\<close>

definition set_crf :: "ppc \<Rightarrow> u32 \<Rightarrow> u32 \<Rightarrow> ppc" where
  "set_crf c f bits =
    (let sh = unat (28 - 4 * f)
     in c\<lparr>cr := (cr c AND NOT (push_bit sh 0xF)) OR push_bit sh bits\<rparr>)"

definition record0 :: "ppc \<Rightarrow> u32 \<Rightarrow> ppc" where
  "record0 c r = (let b = (if sint r < 0 then 8 else if sint r > 0 then 4 else 2)
                  in set_crf c 0 b)"

definition rotl32 :: "u32 \<Rightarrow> u32 \<Rightarrow> u32" where
  "rotl32 v sh = push_bit (unat sh) v OR (if sh \<noteq> 0 then drop_bit (unat (32 - sh)) v else 0)"

definition ppc_mask :: "u32 \<Rightarrow> u32 \<Rightarrow> u32" where
  "ppc_mask mb me =
    (let x = drop_bit (unat mb) 0xFFFFFFFF;
         y = (if me = 31 then 0xFFFFFFFF else NOT (drop_bit (unat (me + 1)) 0xFFFFFFFF))
     in if mb \<le> me then x AND y else x OR y)"

section \<open>Layer 1: generic instruction bodies\<close>

definition gen_addi :: "ppc \<Rightarrow> u32 \<Rightarrow> bool \<Rightarrow> ppc" where
  "gen_addi c insn shifted =
    (let ra = P_RA insn;
         imm = (if shifted then push_bit 16 (P_SIMM insn) else P_SIMM insn)
     in set_gpr c (P_RD insn) (base_or_zero c ra + imm))"

text \<open>
  The C code multiplies two \<open>int32_t\<close>; where the signed product does not fit, the
  compilers used here wrap, and so does the model (see \<open>mulli_overflows\<close>).
\<close>

definition gen_mulli :: "ppc \<Rightarrow> u32 \<Rightarrow> ppc" where
  "gen_mulli c insn = set_gpr c (P_RD insn) (get_gpr c (P_RA insn) * P_SIMM insn)"

definition mulli_overflows :: "ppc \<Rightarrow> u32 \<Rightarrow> bool" where
  "mulli_overflows c insn \<longleftrightarrow>
    (let p = sint (get_gpr c (P_RA insn)) * sint (P_SIMM insn) in p < - (2 ^ 31) \<or> 2 ^ 31 \<le> p)"

definition gen_logic_d :: "ppc \<Rightarrow> u32 \<Rightarrow> op_kind \<Rightarrow> bool \<Rightarrow> bool \<Rightarrow> ppc" where
  "gen_logic_d c insn kind shifted rc =
    (let imm = P_UIMM insn;
         imm = (if shifted then push_bit 16 imm else imm);
         s = get_gpr c (P_RD insn);
         r = (if kind = K_AND then s AND imm else if kind = K_OR then s OR imm else s XOR imm);
         c = set_gpr c (P_RA insn) r
     in if rc then record0 c r else c)"

definition gen_xo_arith :: "ppc \<Rightarrow> u32 \<Rightarrow> op_kind \<Rightarrow> bool \<Rightarrow> ppc" where
  "gen_xo_arith c insn kind rc =
    (let a = get_gpr c (P_RA insn); b = get_gpr c (P_RB insn);
         r = (if kind = K_ADD then a + b else if kind = K_SUBF then b - a else a * b);
         c = set_gpr c (P_RD insn) r
     in if rc then record0 c r else c)"

definition gen_x_logic :: "ppc \<Rightarrow> u32 \<Rightarrow> op_kind \<Rightarrow> bool \<Rightarrow> ppc" where
  "gen_x_logic c insn kind rc =
    (let s = get_gpr c (P_RD insn); b = get_gpr c (P_RB insn);
         r = (case kind of
                K_AND \<Rightarrow> s AND b
              | K_OR \<Rightarrow> s OR b
              | K_XOR \<Rightarrow> s XOR b
              | K_SLW \<Rightarrow> (if b AND 0x20 \<noteq> 0 then 0 else push_bit (unat (b AND 31)) s)
              | _ \<Rightarrow> (if b AND 0x20 \<noteq> 0 then 0 else drop_bit (unat (b AND 31)) s));
         c = set_gpr c (P_RA insn) r
     in if rc then record0 c r else c)"

definition gen_srawi :: "ppc \<Rightarrow> u32 \<Rightarrow> bool \<Rightarrow> ppc" where
  "gen_srawi c insn rc =
    (let sh = P_RB insn;
         s = get_gpr c (P_RD insn);
         r = signed_drop_bit (unat sh) s;
         lost = (if sh \<noteq> 0 then s AND (push_bit (unat sh) 1 - 1) else 0);
         c = c\<lparr>xer_ca := c_bool (sint s < 0 \<and> lost \<noteq> 0)\<rparr>;
         c = set_gpr c (P_RA insn) r
     in if rc then record0 c r else c)"

definition gen_rlwinm :: "ppc \<Rightarrow> u32 \<Rightarrow> ppc" where
  "gen_rlwinm c insn =
    (let sh = P_RB insn; mb = drop_bit 6 insn AND 31; me = drop_bit 1 insn AND 31;
         r = rotl32 (get_gpr c (P_RD insn)) sh AND ppc_mask mb me;
         c = set_gpr c (P_RA insn) r
     in if insn AND 1 \<noteq> 0 then record0 c r else c)"

definition gen_cmp :: "ppc \<Rightarrow> u32 \<Rightarrow> bool \<Rightarrow> bool \<Rightarrow> ppc" where
  "gen_cmp c insn immediate is_unsigned =
    (let crf = drop_bit 23 insn AND 7;
         a = get_gpr c (P_RA insn);
         b = (if immediate then (if is_unsigned then P_UIMM insn else P_SIMM insn)
              else get_gpr c (P_RB insn));
         bits = (if is_unsigned then (if a < b then 8 else if a > b then 4 else 2)
                 else (if sint a < sint b then 8 else if sint a > sint b then 4 else 2))
     in set_crf c crf bits)"

text \<open>The loads and stores are selected by their width in bytes.\<close>

definition read_width :: "mem_env \<Rightarrow> u32 \<Rightarrow> nat \<Rightarrow> u32 outcome" where
  "read_width m ea width =
    (if width = 4 then memory_read_uint32 m ea
     else if width = 2 then bindE (memory_read_uint16 m ea) (\<lambda>v. Inr (ucast v))
     else bindE (memory_read_uint8 m ea) (\<lambda>v. Inr (ucast v)))"

definition write_width :: "mem_env \<Rightarrow> u32 \<Rightarrow> nat \<Rightarrow> u32 \<Rightarrow> mem_env outcome" where
  "write_width m ea width v =
    (if width = 4 then memory_write_uint32 m ea v
     else if width = 2 then memory_write_uint16 m ea (ucast v)
     else memory_write_uint8 m ea (ucast v))"

definition gen_load_d :: "ppc \<Rightarrow> mem_env \<Rightarrow> u32 \<Rightarrow> nat \<Rightarrow> bool \<Rightarrow> ppc outcome" where
  "gen_load_d c m insn width update =
    (let ra = P_RA insn; ea = base_or_zero c ra + P_SIMM insn
     in bindE (read_width m ea width) (\<lambda>v.
        let c = set_gpr c (P_RD insn) v
        in Inr (if update then set_gpr c ra ea else c)))"

definition gen_store_d :: "ppc \<Rightarrow> mem_env \<Rightarrow> u32 \<Rightarrow> nat \<Rightarrow> bool \<Rightarrow> (ppc \<times> mem_env) outcome" where
  "gen_store_d c m insn width update =
    (let ra = P_RA insn; ea = base_or_zero c ra + P_SIMM insn; v = get_gpr c (P_RD insn)
     in bindE (write_width m ea width v) (\<lambda>m.
        Inr (if update then set_gpr c ra ea else c, m)))"

definition gen_load_x :: "ppc \<Rightarrow> mem_env \<Rightarrow> u32 \<Rightarrow> nat \<Rightarrow> ppc outcome" where
  "gen_load_x c m insn width =
    (let ra = P_RA insn; ea = base_or_zero c ra + get_gpr c (P_RB insn)
     in bindE (read_width m ea width) (\<lambda>v. Inr (set_gpr c (P_RD insn) v)))"

definition gen_store_x :: "ppc \<Rightarrow> mem_env \<Rightarrow> u32 \<Rightarrow> nat \<Rightarrow> (ppc \<times> mem_env) outcome" where
  "gen_store_x c m insn width =
    (let ra = P_RA insn; ea = base_or_zero c ra + get_gpr c (P_RB insn);
         v = get_gpr c (P_RD insn)
     in bindE (write_width m ea width v) (\<lambda>m. Inr (c, m)))"

text \<open>Branches: the new next-instruction address; \<open>pc\<close> on entry is CIA+4.\<close>

definition gen_b :: "ppc \<Rightarrow> u32 \<Rightarrow> u32 \<Rightarrow> ppc \<times> u32" where
  "gen_b c insn pc =
    (let li = signed_drop_bit 6 (push_bit 6 insn) AND NOT 3;
         c = (if insn AND 1 \<noteq> 0 then c\<lparr>lr := pc\<rparr> else c)
     in (c, if insn AND 2 \<noteq> 0 then li else (pc - 4) + li))"

text \<open>\<open>(c->ctr != 0) ^ ((bo >> 1) & 1)\<close> is a comparison of two truth values.\<close>

definition bc_taken :: "ppc \<Rightarrow> u32 \<Rightarrow> bool \<Rightarrow> ppc \<times> bool" where
  "bc_taken c insn allow_ctr =
    (let bo = P_RD insn; bi = P_RA insn;
         (c, ctr_ok) =
           (if allow_ctr \<and> bo AND 4 = 0
            then (let c = c\<lparr>ctr := ctr c - 1\<rparr>
                  in (c, (ctr c \<noteq> 0) \<noteq> (drop_bit 1 bo AND 1 \<noteq> 0)))
            else (c, True));
         cond_ok = (bo AND 16 \<noteq> 0
                    \<or> (drop_bit (unat (31 - bi)) (cr c) AND 1) = (drop_bit 3 bo AND 1))
     in (c, ctr_ok \<and> cond_ok))"

definition gen_bc :: "ppc \<Rightarrow> u32 \<Rightarrow> u32 \<Rightarrow> ppc \<times> u32" where
  "gen_bc c insn pc =
    (let (c, taken) = bc_taken c insn True;
         c = (if insn AND 1 \<noteq> 0 then c\<lparr>lr := pc\<rparr> else c)
     in if taken
        then (let bd = sext16 (insn AND 0xFFFC)
              in (c, if insn AND 2 \<noteq> 0 then bd else (pc - 4) + bd))
        else (c, pc))"

definition gen_mspr :: "ppc \<Rightarrow> u32 \<Rightarrow> bool \<Rightarrow> ppc outcome" where
  "gen_mspr c insn to_spr =
    (let spr = (drop_bit 16 insn AND 31) OR push_bit 5 (drop_bit 11 insn AND 31)
     in if spr = 8
        then Inr (if to_spr then c\<lparr>lr := get_gpr c (P_RD insn)\<rparr> else set_gpr c (P_RD insn) (lr c))
        else if spr = 9
        then Inr (if to_spr then c\<lparr>ctr := get_gpr c (P_RD insn)\<rparr> else set_gpr c (P_RD insn) (ctr c))
        else ppc_illegal c insn)"

section \<open>Layer 2: the X-macro instruction lists\<close>

text \<open>
  \<open>PPC_OP31\<close>: secondary decode of primary opcode 31, keyed on \<open>(XO << 1) | Rc\<close>.
  A macro entry \<open>X(key, name, stmt)\<close> is a pair of the key and a constructor named after the
  entry; \<open>op31_stmt\<close> and \<open>prim_stmt\<close> give the statements.
\<close>

datatype ppc_op31 =
    x31_cmpw | x31_cmplw | x31_add | x31_add_rc | x31_subf | x31_subf_rc | x31_mullw |
    x31_mullw_rc | x31_and | x31_and_rc | x31_or | x31_or_rc | x31_xor | x31_xor_rc |
    x31_slw | x31_srw | x31_srawi | x31_srawi_rc | x31_lwzx | x31_lhzx | x31_lbzx |
    x31_stwx | x31_sthx | x31_stbx | x31_mfspr | x31_mtspr

definition PPC_OP31 :: "(u32 \<times> ppc_op31) list" where
  "PPC_OP31 =
    [(0, x31_cmpw), (64, x31_cmplw), (532, x31_add), (533, x31_add_rc), (80, x31_subf),
     (81, x31_subf_rc), (470, x31_mullw), (471, x31_mullw_rc), (56, x31_and),
     (57, x31_and_rc), (888, x31_or), (889, x31_or_rc), (632, x31_xor), (633, x31_xor_rc),
     (48, x31_slw), (1072, x31_srw), (1648, x31_srawi), (1649, x31_srawi_rc),
     (46, x31_lwzx), (558, x31_lhzx), (174, x31_lbzx), (302, x31_stwx), (814, x31_sthx),
     (430, x31_stbx), (678, x31_mfspr), (934, x31_mtspr)]"

fun op31_stmt :: "ppc_op31 \<Rightarrow> u32 \<Rightarrow> ppc \<Rightarrow> mem_env \<Rightarrow> (ppc \<times> mem_env) outcome" where
  "op31_stmt x31_cmpw insn c m = Inr (gen_cmp c insn False False, m)"
| "op31_stmt x31_cmplw insn c m = Inr (gen_cmp c insn False True, m)"
| "op31_stmt x31_add insn c m = Inr (gen_xo_arith c insn K_ADD False, m)"
| "op31_stmt x31_add_rc insn c m = Inr (gen_xo_arith c insn K_ADD True, m)"
| "op31_stmt x31_subf insn c m = Inr (gen_xo_arith c insn K_SUBF False, m)"
| "op31_stmt x31_subf_rc insn c m = Inr (gen_xo_arith c insn K_SUBF True, m)"
| "op31_stmt x31_mullw insn c m = Inr (gen_xo_arith c insn K_MULLW False, m)"
| "op31_stmt x31_mullw_rc insn c m = Inr (gen_xo_arith c insn K_MULLW True, m)"
| "op31_stmt x31_and insn c m = Inr (gen_x_logic c insn K_AND False, m)"
| "op31_stmt x31_and_rc insn c m = Inr (gen_x_logic c insn K_AND True, m)"
| "op31_stmt x31_or insn c m = Inr (gen_x_logic c insn K_OR False, m)"
| "op31_stmt x31_or_rc insn c m = Inr (gen_x_logic c insn K_OR True, m)"
| "op31_stmt x31_xor insn c m = Inr (gen_x_logic c insn K_XOR False, m)"
| "op31_stmt x31_xor_rc insn c m = Inr (gen_x_logic c insn K_XOR True, m)"
| "op31_stmt x31_slw insn c m = Inr (gen_x_logic c insn K_SLW False, m)"
| "op31_stmt x31_srw insn c m = Inr (gen_x_logic c insn K_SRW False, m)"
| "op31_stmt x31_srawi insn c m = Inr (gen_srawi c insn False, m)"
| "op31_stmt x31_srawi_rc insn c m = Inr (gen_srawi c insn True, m)"
| "op31_stmt x31_lwzx insn c m = bindE (gen_load_x c m insn 4) (\<lambda>c. Inr (c, m))"
| "op31_stmt x31_lhzx insn c m = bindE (gen_load_x c m insn 2) (\<lambda>c. Inr (c, m))"
| "op31_stmt x31_lbzx insn c m = bindE (gen_load_x c m insn 1) (\<lambda>c. Inr (c, m))"
| "op31_stmt x31_stwx insn c m = gen_store_x c m insn 4"
| "op31_stmt x31_sthx insn c m = gen_store_x c m insn 2"
| "op31_stmt x31_stbx insn c m = gen_store_x c m insn 1"
| "op31_stmt x31_mfspr insn c m = bindE (gen_mspr c insn False) (\<lambda>c. Inr (c, m))"
| "op31_stmt x31_mtspr insn c m = bindE (gen_mspr c insn True) (\<lambda>c. Inr (c, m))"

definition do_op31 :: "ppc \<Rightarrow> mem_env \<Rightarrow> u32 \<Rightarrow> (ppc \<times> mem_env) outcome" where
  "do_op31 c m insn =
    (case map_of PPC_OP31 (insn AND 0x7FF) of
       Some op \<Rightarrow> op31_stmt op insn c m
     | None \<Rightarrow> ppc_illegal c insn)"

text \<open>Secondary dispatch for opcode 19. The target of \<open>bclr\<close> is read before LR is
  written.\<close>

definition do_bclr :: "ppc \<Rightarrow> u32 \<Rightarrow> u32 \<Rightarrow> ppc \<times> u32" where
  "do_bclr c insn pc =
    (let (c, taken) = bc_taken c insn True;
         target = lr c AND NOT 3;
         c = (if insn AND 1 \<noteq> 0 then c\<lparr>lr := pc\<rparr> else c)
     in (c, if taken then target else pc))"

definition do_bcctr :: "ppc \<Rightarrow> u32 \<Rightarrow> u32 \<Rightarrow> ppc \<times> u32" where
  "do_bcctr c insn pc =
    (let (c, taken) = bc_taken c insn False;
         c = (if insn AND 1 \<noteq> 0 then c\<lparr>lr := pc\<rparr> else c)
     in (c, if taken then ctr c AND NOT 3 else pc))"

definition do_op19 :: "ppc \<Rightarrow> u32 \<Rightarrow> u32 \<Rightarrow> (ppc \<times> u32) outcome" where
  "do_op19 c insn pc =
    (let xo = drop_bit 1 insn AND 0x3FF
     in if xo = 16 then Inr (do_bclr c insn pc)
        else if xo = 528 then Inr (do_bcctr c insn pc)
        else ppc_illegal c insn)"

text \<open>
  The local variables of a dispatch loop: the CPU state, guest memory, and the local
  \<open>pc\<close>, which is CIA+4 while a statement runs.
\<close>

type_synonym ppc_local = "ppc \<times> mem_env \<times> u32"

datatype ppc_prim =
    op_mulli | op_cmplwi | op_cmpwi | op_addi | op_addis | op_bc | op_b | op_grp19 |
    op_rlwinm | op_ori | op_oris | op_xori | op_andi_rc | op_grp31 | op_lwz | op_lwzu |
    op_lbz | op_stw | op_stwu | op_stb | op_lhz | op_sth

definition PPC_PRIMARY :: "(u32 \<times> ppc_prim) list" where
  "PPC_PRIMARY =
    [(7, op_mulli), (10, op_cmplwi), (11, op_cmpwi), (14, op_addi), (15, op_addis),
     (16, op_bc), (18, op_b), (19, op_grp19), (21, op_rlwinm), (24, op_ori), (25, op_oris),
     (26, op_xori), (28, op_andi_rc), (31, op_grp31), (32, op_lwz), (33, op_lwzu),
     (34, op_lbz), (36, op_stw), (37, op_stwu), (38, op_stb), (40, op_lhz), (44, op_sth)]"

fun prim_stmt :: "ppc_prim \<Rightarrow> u32 \<Rightarrow> ppc_local \<Rightarrow> ppc_local outcome" where
  "prim_stmt op_mulli insn (c, m, pc) =
     Inr (gen_mulli c insn, m, pc)"
| "prim_stmt op_cmplwi insn (c, m, pc) =
     Inr (gen_cmp c insn True True, m, pc)"
| "prim_stmt op_cmpwi insn (c, m, pc) =
     Inr (gen_cmp c insn True False, m, pc)"
| "prim_stmt op_addi insn (c, m, pc) =
     Inr (gen_addi c insn False, m, pc)"
| "prim_stmt op_addis insn (c, m, pc) =
     Inr (gen_addi c insn True, m, pc)"
| "prim_stmt op_bc insn (c, m, pc) =
     (case gen_bc c insn pc of (c, pc) \<Rightarrow> Inr (c, m, pc))"
| "prim_stmt op_b insn (c, m, pc) =
     (case gen_b c insn pc of (c, pc) \<Rightarrow> Inr (c, m, pc))"
| "prim_stmt op_grp19 insn (c, m, pc) =
     bindE (do_op19 c insn pc) (\<lambda>(c, pc). Inr (c, m, pc))"
| "prim_stmt op_rlwinm insn (c, m, pc) =
     Inr (gen_rlwinm c insn, m, pc)"
| "prim_stmt op_ori insn (c, m, pc) =
     Inr (gen_logic_d c insn K_OR False False, m, pc)"
| "prim_stmt op_oris insn (c, m, pc) =
     Inr (gen_logic_d c insn K_OR True False, m, pc)"
| "prim_stmt op_xori insn (c, m, pc) =
     Inr (gen_logic_d c insn K_XOR False False, m, pc)"
| "prim_stmt op_andi_rc insn (c, m, pc) =
     Inr (gen_logic_d c insn K_AND False True, m, pc)"
| "prim_stmt op_grp31 insn (c, m, pc) =
     bindE (do_op31 c m insn) (\<lambda>(c, m). Inr (c, m, pc))"
| "prim_stmt op_lwz insn (c, m, pc) =
     bindE (gen_load_d c m insn 4 False) (\<lambda>c. Inr (c, m, pc))"
| "prim_stmt op_lwzu insn (c, m, pc) =
     bindE (gen_load_d c m insn 4 True) (\<lambda>c. Inr (c, m, pc))"
| "prim_stmt op_lbz insn (c, m, pc) =
     bindE (gen_load_d c m insn 1 False) (\<lambda>c. Inr (c, m, pc))"
| "prim_stmt op_stw insn (c, m, pc) =
     bindE (gen_store_d c m insn 4 False) (\<lambda>(c, m). Inr (c, m, pc))"
| "prim_stmt op_stwu insn (c, m, pc) =
     bindE (gen_store_d c m insn 4 True) (\<lambda>(c, m). Inr (c, m, pc))"
| "prim_stmt op_stb insn (c, m, pc) =
     bindE (gen_store_d c m insn 1 False) (\<lambda>(c, m). Inr (c, m, pc))"
| "prim_stmt op_lhz insn (c, m, pc) =
     bindE (gen_load_d c m insn 2 False) (\<lambda>c. Inr (c, m, pc))"
| "prim_stmt op_sth insn (c, m, pc) =
     bindE (gen_store_d c m insn 2 False) (\<lambda>(c, m). Inr (c, m, pc))"

section \<open>Fields and alignment\<close>

lemma field_less [fields]: "unat (P_RD i) < 32" "unat (P_RA i) < 32" "unat (P_RB i) < 32"
  by (simp_all add: P_RD_def P_RA_def P_RB_def fields)

text \<open>Branch targets are word-aligned whenever the branch is.\<close>

lemma aligned4_mask: "aligned4 (a AND - 4)"
  by (simp add: aligned4_def word_bw_assocs)

lemma aligned4_sext16: "aligned4 (sext16 (insn AND 0xFFFC))"
proof -
  have "\<not> bit (sext16 (insn AND 0xFFFC) AND mask 2) n" if "n < 32" for n
    using that by (cases n rule: nat.exhaust; cases "n = 1")
      (auto simp: sext16_def bit_simps)
  then have "sext16 (insn AND 0xFFFC) AND mask 2 = 0"
    by (intro bit_word_eqI) simp
  then show ?thesis by (simp add: aligned4_def mask_eq_exp_minus_1)
qed

lemma gen_b_aligned: "aligned4 pc \<Longrightarrow> aligned4 (snd (gen_b c insn pc))"
  by (simp add: gen_b_def Let_def aligned4_mask aligned4_add aligned4_diff aligned4_4)

lemma gen_bc_aligned: "aligned4 pc \<Longrightarrow> aligned4 (snd (gen_bc c insn pc))"
  by (simp add: gen_bc_def Let_def aligned4_sext16 aligned4_add aligned4_diff aligned4_4 split: prod.split)

lemma do_bclr_aligned: "aligned4 pc \<Longrightarrow> aligned4 (snd (do_bclr c insn pc))"
  by (simp add: do_bclr_def Let_def aligned4_mask split: prod.split)

lemma do_bcctr_aligned: "aligned4 pc \<Longrightarrow> aligned4 (snd (do_bcctr c insn pc))"
  by (simp add: do_bcctr_def Let_def aligned4_mask split: prod.split)

lemma do_op19_aligned: "aligned4 pc \<Longrightarrow> do_op19 c insn pc = Inr (c', pc') \<Longrightarrow> aligned4 pc'"
  using do_bclr_aligned [of pc c insn] do_bcctr_aligned [of pc c insn]
  by (auto simp: do_op19_def Let_def ppc_illegal_def split: if_splits)

end
