(* ===== verification/Sprint.thy ===== *)
theory Sprint
  imports Prelude
begin

text \<open>
  The budgeted loop all backends share (\<open>while (n > 0) { ...; n--; }\<close>), and the two
  interfaces through which properties of a run are derived from properties of one
  iteration: an invariant, and a simulation between two interpreters.
\<close>

section \<open>The loop\<close>

primrec sprint :: "('s \<Rightarrow> 's outcome) \<Rightarrow> nat \<Rightarrow> 's \<Rightarrow> 's outcome" where
  "sprint step 0 s = Inr s"
| "sprint step (Suc n) s = bindE (step s) (sprint step n)"

lemma sprint_add: "sprint step (m + n) s = bindE (sprint step m s) (sprint step n)"
  by (induction m arbitrary: s) (auto simp: bindE_assoc intro!: bindE_cong)

text \<open>
  \<open>stays good step n s\<close>: in the next \<open>n\<close> iterations every iteration starts in a
  state that satisfies \<open>good\<close>. It is computed along the run, so it can be evaluated.
\<close>

primrec stays :: "('s \<Rightarrow> bool) \<Rightarrow> ('s \<Rightarrow> 's outcome) \<Rightarrow> nat \<Rightarrow> 's \<Rightarrow> bool" where
  "stays good step 0 s = True"
| "stays good step (Suc n) s =
    (good s \<and> (case step s of Inl e \<Rightarrow> True | Inr s' \<Rightarrow> stays good step n s'))"

lemma stays_mono:
  "(\<And>s. good s \<Longrightarrow> good' s) \<Longrightarrow> stays good step n s \<Longrightarrow> stays good' step n s"
  by (induction n arbitrary: s) (auto split: sum.splits)

lemma stays_True [simp]: "stays (\<lambda>_. True) step n s"
  by (induction n arbitrary: s) (auto split: sum.split)

text \<open>Evaluation on numeral budgets.\<close>

lemma sprint_numeral [simp]:
  "sprint step (numeral k) s = bindE (step s) (sprint step (pred_numeral k))"
  by (simp add: numeral_eq_Suc)

lemma stays_numeral [simp]:
  "stays good step (numeral k) s =
    (good s \<and> (case step s of Inl e \<Rightarrow> True | Inr s' \<Rightarrow> stays good step (pred_numeral k) s'))"
  by (simp add: numeral_eq_Suc)

section \<open>Invariants\<close>

text \<open>
  An invariant of the iterations that start in a \<open>good\<close> state holds along every run that
  stays good, and an invariant that guarantees progress keeps the run from trapping.
\<close>

locale sprint_invariant =
  fixes step :: "'s \<Rightarrow> 's outcome" and good :: "'s \<Rightarrow> bool" and I :: "'s \<Rightarrow> bool"
  assumes step_inv: "I s \<Longrightarrow> good s \<Longrightarrow> step s = Inr s' \<Longrightarrow> I s'"
begin

lemma sprint_inv: "I s \<Longrightarrow> stays good step n s \<Longrightarrow> sprint step n s = Inr s' \<Longrightarrow> I s'"
proof (induction n arbitrary: s)
  case (Suc n)
  from Suc.prems obtain t where t: "step s = Inr t" "sprint step n t = Inr s'"
    by (auto elim: bindE_InrE)
  with Suc.prems have "I t" "stays good step n t"
    by (auto intro: step_inv)
  with Suc.IH t(2) show ?case by blast
qed simp

lemma stays_inv: "I s \<Longrightarrow> stays good step n s \<Longrightarrow> stays (\<lambda>s. I s \<and> good s) step n s"
  by (induction n arbitrary: s) (auto split: sum.splits dest: step_inv)

end

text \<open>
  A kernel: as long as at least one more instruction than the counter allows is not asked
  for, each iteration returns and leads to a state with one iteration fewer to go.
\<close>

locale sprint_progress =
  fixes step :: "'s \<Rightarrow> 's outcome" and J :: "nat \<Rightarrow> 's \<Rightarrow> bool" and good :: "'s \<Rightarrow> bool"
  assumes step_progress: "J (Suc n) s \<Longrightarrow> \<exists>s'. step s = Inr s' \<and> J n s'"
    and J_good: "J (Suc n) s \<Longrightarrow> good s"
begin

lemma sprint_total: "J n s \<Longrightarrow> \<exists>s'. sprint step n s = Inr s' \<and> J 0 s'"
proof (induction n arbitrary: s)
  case (Suc n)
  then obtain s' where "step s = Inr s'" "J n s'"
    using step_progress by blast
  with Suc.IH show ?case by simp
qed simp

lemma stays_good: "J n s \<Longrightarrow> stays good step n s"
proof (induction n arbitrary: s)
  case (Suc n)
  then obtain s' where "step s = Inr s'" "J n s'"
    using step_progress by blast
  with Suc J_good show ?case by auto
qed simp

end

section \<open>Simulation\<close>

text \<open>
  Interpreter \<open>A\<close> is simulated by interpreter \<open>B\<close>: from related states, where the
  next iteration of \<open>A\<close> is one \<open>B\<close> is meant to handle, both stop with related
  traps or both go on to related states.
\<close>

locale sprint_sim =
  fixes stepA :: "'s \<Rightarrow> 's outcome" and stepB :: "'t \<Rightarrow> 't outcome"
    and good :: "'s \<Rightarrow> bool" and E :: "trap \<Rightarrow> trap \<Rightarrow> bool" and R :: "'s \<Rightarrow> 't \<Rightarrow> bool"
  assumes step_sim: "R s t \<Longrightarrow> good s \<Longrightarrow> rel_sum E R (stepA s) (stepB t)"
begin

lemma sprint_sim:
  "R s t \<Longrightarrow> stays good stepA n s \<Longrightarrow> rel_sum E R (sprint stepA n s) (sprint stepB n t)"
proof (induction n arbitrary: s t)
  case 0
  then show ?case by simp
next
  case (Suc n)
  then have "rel_sum E R (stepA s) (stepB t)"
    by (auto intro: step_sim)
  with Suc show ?case
    by (cases "stepA s"; cases "stepB t") auto
qed

end

end
