(* ===== verification/PPC_Threaded.thy ===== *)
theory PPC_Threaded
  imports PPC_Ops Sprint
begin

text \<open>
  The three backends that dispatch on the raw instruction word: \<open>src/ppc/ppc_switch.c\<close>
  (A), \<open>src/ppc/ppc_tail.c\<close> (B) and \<open>src/ppc/ppc_call.c\<close> (C).
\<close>

section \<open>Backend A: big switch\<close>

definition switch_dispatch :: "u32 \<Rightarrow> ppc_local \<Rightarrow> ppc_local outcome" where
  "switch_dispatch insn s =
    (case map_of PPC_PRIMARY (drop_bit 26 insn) of
       Some op \<Rightarrow> prim_stmt op insn s
     | None \<Rightarrow> ppc_illegal (fst s) insn)"

definition switch_step :: "ppc_local \<Rightarrow> ppc_local outcome" where
  "switch_step = (\<lambda>(c, m, pc).
    bindE (memory_read_uint32 m pc) (\<lambda>insn. switch_dispatch insn (c, m, pc + 4)))"

definition ppc_run_switch :: "ppc \<Rightarrow> mem_env \<Rightarrow> u32 \<Rightarrow> (ppc \<times> mem_env) outcome" where
  "ppc_run_switch c m budget =
    bindE (sprint switch_step (unat budget) (c, m, ppc_pc c))
      (\<lambda>(c, m, pc). Inr (c\<lparr>ppc_pc := pc\<rparr>, m))"

section \<open>Backend C: call threading\<close>

type_synonym ppc_call_fn = "u32 \<Rightarrow> ppc_local \<Rightarrow> ppc_local outcome"

definition f_handler :: "ppc_prim \<Rightarrow> ppc_call_fn" where
  "f_handler op insn s = prim_stmt op insn s"

definition f_bad :: ppc_call_fn where
  "f_bad insn s = ppc_illegal (fst s) insn"

text \<open>The table initialiser: every slot \<open>f_bad\<close>, then one override per list entry.\<close>

definition g_call_dispatch :: "ppc_call_fn list" where
  "g_call_dispatch = slots PPC_PRIMARY f_handler (replicate 64 f_bad)"

definition call_step :: "ppc_local \<Rightarrow> ppc_local outcome" where
  "call_step = (\<lambda>(c, m, pc).
    bindE (memory_read_uint32 m pc) (\<lambda>insn.
    bindE (array_get g_call_dispatch (unat (drop_bit 26 insn))) (\<lambda>f.
    f insn (c, m, pc + 4))))"

definition ppc_run_call :: "ppc \<Rightarrow> mem_env \<Rightarrow> u32 \<Rightarrow> (ppc \<times> mem_env) outcome" where
  "ppc_run_call c m budget =
    bindE (sprint call_step (unat budget) (c, m, ppc_pc c))
      (\<lambda>(c, m, pc). Inr (c\<lparr>ppc_pc := pc\<rparr>, m))"

section \<open>Backend B: tail-call threading\<close>

text \<open>
  A handler runs its statement and ends in \<open>NEXT()\<close>, a tail call through the dispatch
  table; \<open>h_bad\<close> does not return. \<open>None\<close> in the table stands for \<open>h_bad\<close>.
  The handlers and \<open>NEXT\<close> call each other with one instruction fewer to go, so the
  handler takes what \<open>NEXT\<close> does with the rest as an argument.
\<close>

definition g_dispatch :: "ppc_prim option list" where
  "g_dispatch = slots PPC_PRIMARY Some (replicate 64 None)"

definition h_handler ::
    "ppc_prim option \<Rightarrow> u32 \<Rightarrow> ppc_local \<Rightarrow> (ppc_local \<Rightarrow> (ppc \<times> mem_env) outcome)
      \<Rightarrow> (ppc \<times> mem_env) outcome" where
  "h_handler h insn s NEXT =
    (case h of Some op \<Rightarrow> bindE (prim_stmt op insn s) NEXT | None \<Rightarrow> ppc_illegal (fst s) insn)"

primrec tail_next :: "nat \<Rightarrow> ppc_local \<Rightarrow> (ppc \<times> mem_env) outcome" where
  "tail_next 0 s = (case s of (c, m, pc) \<Rightarrow> Inr (c\<lparr>ppc_pc := pc\<rparr>, m))"
| "tail_next (Suc n) s = (case s of (c, m, pc) \<Rightarrow>
     bindE (memory_read_uint32 m pc) (\<lambda>insn.
     bindE (array_get g_dispatch (unat (drop_bit 26 insn))) (\<lambda>h.
     h_handler h insn (c, m, pc + 4) (tail_next n))))"

definition ppc_run_tail :: "ppc \<Rightarrow> mem_env \<Rightarrow> u32 \<Rightarrow> (ppc \<times> mem_env) outcome" where
  "ppc_run_tail c m budget =
    (if budget = 0 then Inr (c, m)
     else bindE (memory_read_uint32 m (ppc_pc c)) (\<lambda>insn.
          bindE (array_get g_dispatch (unat (drop_bit 26 insn))) (\<lambda>h.
          h_handler h insn (c, m, ppc_pc c + 4) (tail_next (unat (budget - 1))))))"

section \<open>The three agree\<close>

lemma primary_key_less: "unat (drop_bit 26 (insn :: u32)) < 64"
  using unat_u32_less [of insn] by (simp add: unat_drop_bit_div less_mult_imp_div_less)

lemma PPC_PRIMARY_distinct: "distinct (map fst PPC_PRIMARY)"
  by (simp add: PPC_PRIMARY_def)

lemma g_call_dispatch_get:
  "array_get g_call_dispatch (unat (drop_bit 26 insn)) =
    Inr (case map_of PPC_PRIMARY (drop_bit 26 insn) of Some op \<Rightarrow> f_handler op | None \<Rightarrow> f_bad)"
  using primary_key_less [of insn]
  by (simp add: g_call_dispatch_def slots_nth PPC_PRIMARY_distinct split: option.split)

lemma g_dispatch_get:
  "array_get g_dispatch (unat (drop_bit 26 insn)) = Inr (map_of PPC_PRIMARY (drop_bit 26 insn))"
  using primary_key_less [of insn]
  by (simp add: g_dispatch_def slots_nth PPC_PRIMARY_distinct split: option.split)

lemma call_step_switch: "call_step s = switch_step s"
  by (cases s) (auto simp: call_step_def switch_step_def switch_dispatch_def g_call_dispatch_get
    f_handler_def f_bad_def intro!: bindE_cong split: option.split)

lemma h_handler_switch:
  "h_handler (map_of PPC_PRIMARY (drop_bit 26 insn)) insn s NEXT =
    bindE (switch_dispatch insn s) NEXT"
  by (simp add: h_handler_def switch_dispatch_def ppc_illegal_def split: option.split)

lemma tail_next_switch:
  "tail_next n s = bindE (sprint switch_step n s) (\<lambda>(c, m, pc). Inr (c\<lparr>ppc_pc := pc\<rparr>, m))"
proof (induction n arbitrary: s)
  case 0
  then show ?case by (cases s) simp
next
  case (Suc n)
  have "tail_next n = (\<lambda>s. bindE (sprint switch_step n s) (\<lambda>(c, m, pc). Inr (c\<lparr>ppc_pc := pc\<rparr>, m)))"
    by (rule ext) (rule Suc.IH)
  then show ?case
    by (cases s) (simp add: switch_step_def g_dispatch_get h_handler_switch bindE_assoc)
qed

text \<open>The runs.\<close>

lemma run_call_eq: "ppc_run_call c m budget = ppc_run_switch c m budget"
proof -
  have "call_step = switch_step"
    by (rule ext) (rule call_step_switch)
  then show ?thesis by (simp add: ppc_run_call_def ppc_run_switch_def)
qed

lemma run_tail_eq: "ppc_run_tail c m budget = ppc_run_switch c m budget"
proof (cases "budget = 0")
  case True
  then show ?thesis by (simp add: ppc_run_tail_def ppc_run_switch_def)
next
  case False
  then have "unat budget = Suc (unat (budget - 1))"
    by (simp add: unat_minus_one unat_gt_0)
  moreover have "ppc_run_tail c m budget = tail_next (Suc (unat (budget - 1))) (c, m, ppc_pc c)"
    using False by (simp add: ppc_run_tail_def)
  ultimately show ?thesis by (simp add: tail_next_switch ppc_run_switch_def)
qed

end
