(* ===== verification/PPC_Predecode.thy ===== *)
theory PPC_Predecode
  imports PPC_Threaded
begin

text \<open>
  Backend D, \<open>src/ppc/ppc_predecode.c\<close>: the code region is decoded into a table of
  (flat handler id, raw instruction) before the run, and the loop indexes the table by pc.
  The decode loop is shared with the pre-extracting backends of \<open>PPC_Pdx\<close>, which differ
  in the entry they write.
\<close>

section \<open>The decode loop\<close>

definition PD_REGION_BYTES :: nat where "PD_REGION_BYTES = 256 * 1024"
definition PD_ENTRIES :: nat where "PD_ENTRIES = PD_REGION_BYTES div 4"

lemmas pd_region = PD_REGION_BYTES_def PD_ENTRIES_def

function predecode :: "(u32 \<Rightarrow> u32 \<Rightarrow> 'e) \<Rightarrow> mem_env \<Rightarrow> nat \<Rightarrow> 'e list \<Rightarrow> 'e list outcome" where
  "predecode entry m a tab =
    (if a < PD_REGION_BYTES
     then bindE (memory_read_uint32 m (of_nat a)) (\<lambda>insn.
          bindE (array_set tab (a div 4) (entry (of_nat a) insn)) (predecode entry m (a + 4)))
     else Inr tab)"
  by pat_completeness auto
termination
  by (relation "measure (\<lambda>(entry, m, a, tab). PD_REGION_BYTES - a)") auto

declare predecode.simps [simp del]

text \<open>
  Every entry is rewritten from the memory of this run, so what the static table held
  before is irrelevant.
\<close>

lemma predecode_lookup:
  assumes "predecode entry m (4 * k) tab = Inr tab'" and "k \<le> PD_ENTRIES"
  shows "length tab' = length tab \<and>
    (\<forall>i. k \<le> i \<and> i < PD_ENTRIES \<longrightarrow>
      i < length tab \<and> (\<exists>insn. memory_read_uint32 m (of_nat (4 * i)) = Inr insn
        \<and> tab' ! i = entry (of_nat (4 * i)) insn)) \<and>
    (\<forall>i < k. tab' ! i = tab ! i)"
  using assms
proof (induction "PD_ENTRIES - k" arbitrary: k tab)
  case 0
  then show ?case by (auto simp: predecode.simps pd_region)
next
  case (Suc n)
  then have k: "4 * k < PD_REGION_BYTES" by (simp add: pd_region)
  from Suc.prems k obtain insn where insn: "memory_read_uint32 m (of_nat (4 * k)) = Inr insn"
    and len: "k < length tab"
    and rec: "predecode entry m (4 * Suc k) (tab[k := entry (of_nat (4 * k)) insn]) = Inr tab'"
    by (auto simp: predecode.simps [of _ _ "4 * k"] array_set_def bindE_Inr_iff
      add.commute [of _ "4 :: nat"] split: if_splits)
  have "n = PD_ENTRIES - Suc k" "Suc k \<le> PD_ENTRIES"
    using Suc.hyps(2) by auto
  note IH = Suc.hyps(1) [OF this(1) rec this(2)]
  show ?case
  proof (intro conjI allI impI)
    fix i assume i: "k \<le> i \<and> i < PD_ENTRIES"
    show "i < length tab"
      using IH i len by (cases "i = k") auto
    show "\<exists>insn. memory_read_uint32 m (of_nat (4 * i)) = Inr insn
        \<and> tab' ! i = entry (of_nat (4 * i)) insn"
      using IH i len insn by (cases "i = k") auto
  qed (use IH len in auto)
qed

lemma predecode_total:
  assumes "\<And>i. i < PD_ENTRIES \<Longrightarrow> \<exists>insn. memory_read_uint32 m (of_nat (4 * i)) = Inr insn"
    and "length tab = PD_ENTRIES" and "k \<le> PD_ENTRIES"
  shows "\<exists>tab'. predecode entry m (4 * k) tab = Inr tab'"
  using assms(2,3)
proof (induction "PD_ENTRIES - k" arbitrary: k tab)
  case 0
  then show ?case by (auto simp: predecode.simps pd_region)
next
  case (Suc n)
  then have k: "k < PD_ENTRIES" by simp
  then obtain insn where "memory_read_uint32 m (of_nat (4 * k)) = Inr insn"
    using assms(1) by blast
  moreover have "\<exists>tab'. predecode entry m (4 * Suc k) (tab[k := e]) = Inr tab'" for e
    using Suc.hyps(2) k Suc.prems(1) by (intro Suc.hyps(1)) auto
  ultimately show ?case
    using k Suc.prems(1)
    by (simp add: predecode.simps [of _ _ "4 * k"] pd_region add.commute [of _ "4 :: nat"])
qed

text \<open>RAM covers the decoded region when the address mask keeps its 18 low bits.\<close>

definition region_mapped :: "mem_env \<Rightarrow> bool" where
  "region_mapped m \<longleftrightarrow> wf_env m \<and> address_mask m AND 0x3FFFF = 0x3FFFF"

section \<open>Handler ids and entries\<close>

datatype pd_id = PD_prim ppc_prim | PD_op31 ppc_op31 | PD_bclr | PD_bcctr | PD_bad

record pd_ent =
  pd_ent_id :: pd_id
  pd_ent_insn :: u32

definition pd_decode :: "u32 \<Rightarrow> pd_id" where
  "pd_decode insn =
    (let prim = drop_bit 26 insn
     in if prim = 31
        then (case map_of PPC_OP31 (insn AND 0x7FF) of Some op \<Rightarrow> PD_op31 op | None \<Rightarrow> PD_bad)
        else if prim = 19
        then (let xo = drop_bit 1 insn AND 0x3FF
              in if xo = 16 then PD_bclr else if xo = 528 then PD_bcctr else PD_bad)
        else (case map_of PPC_PRIMARY prim of Some op \<Rightarrow> PD_prim op | None \<Rightarrow> PD_bad))"

definition pd_entry :: "u32 \<Rightarrow> u32 \<Rightarrow> pd_ent" where
  "pd_entry a insn = \<lparr>pd_ent_id = pd_decode insn, pd_ent_insn = insn\<rparr>"

section \<open>The run\<close>

definition pd_dispatch :: "pd_ent \<Rightarrow> ppc_local \<Rightarrow> ppc_local outcome" where
  "pd_dispatch e = (\<lambda>(c, m, pc).
    let insn = pd_ent_insn e
    in case pd_ent_id e of
         PD_prim op \<Rightarrow> prim_stmt op insn (c, m, pc)
       | PD_op31 op \<Rightarrow> bindE (op31_stmt op insn c m) (\<lambda>(c, m). Inr (c, m, pc))
       | PD_bclr \<Rightarrow> (let (c, pc) = do_bclr c insn pc in Inr (c, m, pc))
       | PD_bcctr \<Rightarrow> (let (c, pc) = do_bcctr c insn pc in Inr (c, m, pc))
       | PD_bad \<Rightarrow> ppc_illegal c insn)"

definition pd_step :: "pd_ent list \<Rightarrow> ppc_local \<Rightarrow> ppc_local outcome" where
  "pd_step tab = (\<lambda>(c, m, pc).
    bindE (array_get tab (unat (drop_bit 2 pc))) (\<lambda>e. pd_dispatch e (c, m, pc + 4)))"

text \<open>
  The static table \<open>g_pd\<close> is part of the state: it is passed as the previous run left
  it and returned as this run leaves it.
\<close>

definition ppc_run_pd ::
    "pd_ent list \<Rightarrow> ppc \<Rightarrow> mem_env \<Rightarrow> u32 \<Rightarrow> (ppc \<times> mem_env \<times> pd_ent list) outcome" where
  "ppc_run_pd g_pd c m budget =
    bindE (predecode pd_entry m 0 g_pd) (\<lambda>g_pd.
    bindE (sprint (pd_step g_pd) (unat budget) (c, m, ppc_pc c))
      (\<lambda>(c, m, pc). Inr (c\<lparr>ppc_pc := pc\<rparr>, m, g_pd)))"

section \<open>Agreement with the switch backend\<close>

lemma pd_dispatch_switch: "pd_dispatch (pd_entry a insn) s = switch_dispatch insn s"
proof -
  obtain c m pc where s: "s = (c, m, pc)" by (cases s)
  consider "drop_bit 26 insn = 31" | "drop_bit 26 insn = 19"
    | "drop_bit 26 insn \<noteq> 31" "drop_bit 26 insn \<noteq> 19" by blast
  then show ?thesis
  proof cases
    case 1
    then show ?thesis
      by (simp add: s pd_dispatch_def pd_entry_def pd_decode_def switch_dispatch_def
        PPC_PRIMARY_def do_op31_def ppc_illegal_def split: option.split)
  next
    case 2
    then show ?thesis
      by (simp add: s pd_dispatch_def pd_entry_def pd_decode_def switch_dispatch_def
        PPC_PRIMARY_def do_op19_def ppc_illegal_def Let_def)
  next
    case 3
    then show ?thesis
      by (simp add: s pd_dispatch_def pd_entry_def pd_decode_def switch_dispatch_def
        split: option.split)
  qed
qed

text \<open>
  What the predecoding backends assume of a run ("kernels never leave the region") and
  of the code (it is not modified while it runs): the next instruction is fetched, aligned,
  from the decoded region, and memory still holds there the word that was decoded.
\<close>

definition fetch_ok :: "mem_env \<Rightarrow> ppc_local \<Rightarrow> bool" where
  "fetch_ok m0 = (\<lambda>(c, m, pc). pc AND 3 = 0 \<and> unat pc < PD_REGION_BYTES
     \<and> memory_read_uint32 m pc = memory_read_uint32 m0 pc)"

text \<open>The table entry for \<open>pc\<close> is the entry of the word that memory holds there.\<close>

definition entry_current :: "(u32 \<Rightarrow> u32 \<Rightarrow> 'e) \<Rightarrow> 'e list \<Rightarrow> ppc_local \<Rightarrow> bool" where
  "entry_current entry tab = (\<lambda>(c, m, pc). pc AND 3 = 0 \<and> unat pc < PD_REGION_BYTES \<and>
     (\<exists>insn. memory_read_uint32 m pc = Inr insn
       \<and> array_get tab (unat (drop_bit 2 pc)) = Inr (entry pc insn)))"

lemma aligned_index:
  assumes "(pc :: u32) AND 3 = 0"
  shows "of_nat (4 * unat (drop_bit 2 pc)) = pc" and "push_bit 2 (drop_bit 2 pc) = pc"
proof -
  have "unat pc mod 4 = 0"
    using assms unat_and_mask_mod [of pc 2] by (simp add: mask_eq_exp_minus_1)
  then have "4 * unat (drop_bit 2 pc) = unat pc"
    by (simp add: unat_drop_bit_div) presburger
  then show *: "of_nat (4 * unat (drop_bit 2 pc)) = pc" by simp
  then show "push_bit 2 (drop_bit 2 pc) = pc"
    by (simp add: push_bit_eq_mult mult.commute)
qed

lemma predecode_entry_current:
  assumes "predecode entry m0 0 tab0 = Inr tab" and "fetch_ok m0 s"
  shows "entry_current entry tab s"
proof -
  obtain c m pc where s: "s = (c, m, pc)" by (cases s)
  let ?i = "unat (drop_bit 2 pc)"
  have pc: "pc AND 3 = 0" "unat pc < PD_REGION_BYTES"
      "memory_read_uint32 m pc = memory_read_uint32 m0 pc"
    using assms(2) by (auto simp: s fetch_ok_def)
  have "?i < PD_ENTRIES"
    using pc(2) by (simp add: unat_drop_bit_div pd_region less_mult_imp_div_less)
  moreover have "of_nat (4 * ?i) = pc"
    using pc(1) by (rule aligned_index)
  ultimately show ?thesis
    using predecode_lookup [of entry m0 0 tab0 tab] assms(1) pc
    by (auto simp: s entry_current_def)
qed

interpretation pd_switch: sprint_sim switch_step "pd_step tab" "entry_current pd_entry tab"
    "(=)" "(=)" for tab
proof unfold_locales
  fix s t :: ppc_local
  assume "s = t" and good: "entry_current pd_entry tab s"
  then show "rel_sum (=) (=) (switch_step s) (pd_step tab t)"
    by (cases s) (auto simp: sum.rel_eq entry_current_def switch_step_def pd_step_def
      pd_dispatch_switch)
qed

lemma region_masked:
  assumes "address_mask m AND 0x3FFFF = 0x3FFFF" and "unat a < PD_REGION_BYTES"
  shows "masked m a = a"
proof -
  have "a AND mask 18 = a"
    using assms(2) by (simp add: word_unat_eq_iff unat_and_mask_mod pd_region)
  then have "a AND address_mask m = (a AND mask 18) AND address_mask m" by simp
  also have "\<dots> = a AND (address_mask m AND 0x3FFFF)"
    by (simp add: mask_eq_exp_minus_1 ac_simps)
  finally show ?thesis
    using assms(1) \<open>a AND mask 18 = a\<close> by (simp add: masked_def mask_eq_exp_minus_1)
qed

lemma region_fetch:
  assumes "region_mapped m" and "aligned4 a" and "unat a < PD_REGION_BYTES"
  shows "memory_read_uint32 m a = Inr (be32 (ram_at m) a)"
  using assms aligned4_in_page [OF assms(2)]
  by (simp add: region_mapped_def memory_read_uint32_flat region_masked)

lemma region_predecode:
  assumes "region_mapped m" and "length tab = PD_ENTRIES"
  shows "\<exists>tab'. predecode entry m 0 tab = Inr tab' \<and> length tab' = PD_ENTRIES"
proof -
  have "\<exists>insn. memory_read_uint32 m (of_nat (4 * i)) = Inr insn" if "i < PD_ENTRIES" for i
  proof -
    have "unat (of_nat (4 * i) :: u32) = 4 * i"
      unfolding unat_of_nat using that by (simp add: pd_region take_bit_nat_eq_self)
    moreover from this have "aligned4 (of_nat (4 * i))"
      unfolding aligned4_dvd_nat by simp
    ultimately show ?thesis
      using region_fetch [OF assms(1)] that by (auto simp: pd_region)
  qed
  then show ?thesis
    using predecode_total [of m tab 0 entry] predecode_lookup [of entry m 0 tab] assms(2)
    by fastforce
qed

lemma stays_fetch_entry:
  assumes "predecode entry m0 0 tab0 = Inr tab" and "stays (fetch_ok m0) switch_step n s"
  shows "stays (entry_current entry tab) switch_step n s"
  using assms(2) by (rule stays_mono [rotated]) (rule predecode_entry_current [OF assms(1)])

text \<open>The run, which leaves a complete table behind.\<close>

lemma run_pd_eq:
  assumes "length tab0 = PD_ENTRIES" and "region_mapped m"
    and "stays (fetch_ok m) switch_step (unat budget) (c, m, ppc_pc c)"
  shows "\<exists>tab. length tab = PD_ENTRIES \<and>
    ppc_run_pd tab0 c m budget = bindE (ppc_run_switch c m budget) (\<lambda>(c, m). Inr (c, m, tab))"
proof -
  obtain tab where tab: "predecode pd_entry m 0 tab0 = Inr tab" "length tab = PD_ENTRIES"
    using region_predecode [OF assms(2,1)] by blast
  have "sprint (pd_step tab) (unat budget) (c, m, ppc_pc c)
      = sprint switch_step (unat budget) (c, m, ppc_pc c)"
    using pd_switch.sprint_sim [OF refl stays_fetch_entry [OF tab(1) assms(3)]]
    by (simp add: sum.rel_eq)
  then show ?thesis
    using tab by (auto simp: ppc_run_pd_def ppc_run_switch_def bindE_assoc intro!: bindE_cong)
qed

end
