(* ===== verification/PPC_Runs.thy ===== *)
theory PPC_Runs
  imports PPC_Pdx
begin

text \<open>
  What one PowerPC instruction changes: the register file keeps its length, every register
  but the destination keeps its value, and memory changes by at most one store. From this
  follows when a run leaves the code it executes alone, which is what the predecoding
  backends rely on.
\<close>

section \<open>Registers\<close>

named_theorems gprs \<open>reading a register after an update of the state\<close>

lemma gpr_len [simp]:
  "length (gpr (set_gpr c r v)) = length (gpr c)"
  "length (gpr (set_crf c f b)) = length (gpr c)"
  "length (gpr (record0 c v)) = length (gpr c)"
  by (simp_all add: set_gpr_def set_crf_def record0_def Let_def)

lemma get_gpr_record0 [gprs]: "get_gpr (record0 c v) r = get_gpr c r"
  "get_gpr (set_crf c f b) r = get_gpr c r"
  by (simp_all add: get_gpr_def set_crf_def record0_def Let_def)

lemma get_gpr_fields [gprs]:
  "get_gpr (c\<lparr>lr := v\<rparr>) r = get_gpr c r" "get_gpr (c\<lparr>ctr := v\<rparr>) r = get_gpr c r"
  "get_gpr (c\<lparr>xer_ca := v\<rparr>) r = get_gpr c r"
  by (simp_all add: get_gpr_def)

lemma get_set_gpr [gprs]:
  assumes "length (gpr c) = 32" and "unat r < 32"
  shows "get_gpr (set_gpr c r v) r' = (if r' = r then v else get_gpr c r')"
  using assms by (auto simp: get_gpr_def set_gpr_def nth_list_update word_unat_eq_iff)

section \<open>The store of an instruction\<close>

definition sized_store :: "nat \<Rightarrow> u32 \<Rightarrow> u32 \<Rightarrow> store" where
  "sized_store width a v =
    (if width = 4 then St32 a v else if width = 2 then St16 a (ucast v) else St8 a (ucast v))"

lemma write_width_store: "write_width m a width v = memory_store m (sized_store width a v)"
  by (simp add: write_width_def sized_store_def)

fun op31_store :: "ppc_op31 \<Rightarrow> nat option" where
  "op31_store x31_stwx = Some 4"
| "op31_store x31_sthx = Some 2"
| "op31_store x31_stbx = Some 1"
| "op31_store _ = None"

fun prim_store :: "ppc_prim \<Rightarrow> u32 \<Rightarrow> ppc \<Rightarrow> store option" where
  "prim_store op_grp31 insn c =
    (case map_of PPC_OP31 (insn AND 0x7FF) of None \<Rightarrow> None
     | Some op \<Rightarrow> (case op31_store op of None \<Rightarrow> None
        | Some w \<Rightarrow> Some (sized_store w (base_or_zero c (P_RA insn) + get_gpr c (P_RB insn))
                      (get_gpr c (P_RD insn)))))"
| "prim_store op insn c =
    (let w = (if op = op_stw \<or> op = op_stwu then 4 else if op = op_sth then 2
              else if op = op_stb then 1 else 0)
     in if w = 0 then None
        else Some (sized_store w (base_or_zero c (P_RA insn) + P_SIMM insn) (get_gpr c (P_RD insn))))"

lemma op31_stmt_store:
  "op31_stmt op insn c m = Inr (c', m') \<Longrightarrow>
    (case op31_store op of None \<Rightarrow> m' = m
     | Some w \<Rightarrow> memory_store m (sized_store w (base_or_zero c (P_RA insn) + get_gpr c (P_RB insn))
                   (get_gpr c (P_RD insn))) = Inr m')"
  by (cases op) (auto simp: gen_store_x_def Let_def bindE_Inr_iff write_width_store)

lemma prim_stmt_store:
  assumes "prim_stmt op insn (c, m, pc) = Inr (c', m', pc')"
  shows "case prim_store op insn c of None \<Rightarrow> m' = m | Some s \<Rightarrow> memory_store m s = Inr m'"
proof (cases "op = op_grp31")
  case True
  with assms op31_stmt_store show ?thesis
    by (fastforce simp: do_op31_def ppc_illegal_def bindE_Inr_iff split: option.splits)
next
  case False
  with assms show ?thesis
    by (cases op) (auto simp: gen_store_d_def Let_def bindE_Inr_iff write_width_store
      split: prod.splits)
qed

text \<open>The store the next iteration of a run performs, if it performs one.\<close>

definition step_store :: "ppc_local \<Rightarrow> store option" where
  "step_store = (\<lambda>(c, m, pc).
    (case memory_read_uint32 m pc of Inl e \<Rightarrow> None
     | Inr insn \<Rightarrow> (case map_of PPC_PRIMARY (drop_bit 26 insn) of None \<Rightarrow> None
        | Some op \<Rightarrow> prim_store op insn c)))"

lemma switch_step_store:
  assumes "switch_step (c, m, pc) = Inr (c', m', pc')"
  shows "case step_store (c, m, pc) of None \<Rightarrow> m' = m | Some s \<Rightarrow> memory_store m s = Inr m'"
  using assms prim_stmt_store
  by (fastforce simp: switch_step_def switch_dispatch_def step_store_def ppc_illegal_def bindE_Inr_iff
    split: option.splits)

section \<open>Runs that do not modify the code\<close>

definition code_region :: "u32 set" where
  "code_region = {a. unat a < PD_REGION_BYTES}"

definition store_avoids :: "mem_env \<Rightarrow> store \<Rightarrow> bool" where
  "store_avoids m s \<longleftrightarrow>
    (\<forall>j < store_width s. PD_REGION_BYTES \<le> unat (masked m (store_addr s) + of_nat j))"

text \<open>The next instruction is fetched, aligned, from the region, and stores outside it.\<close>

definition step_in_region :: "ppc_local \<Rightarrow> bool" where
  "step_in_region = (\<lambda>(c, m, pc). aligned4 pc \<and> unat pc < PD_REGION_BYTES \<and>
     (case step_store (c, m, pc) of None \<Rightarrow> True | Some s \<Rightarrow> store_avoids m s))"

lemma store_avoids_footprint:
  "store_avoids m s \<Longrightarrow> footprint (masked m (store_addr s)) (store_width s) \<inter> code_region = {}"
  by (fastforce simp: store_avoids_def footprint_def code_region_def)

lemma region_footprint:
  assumes "region_mapped m" "aligned4 pc" "unat pc < PD_REGION_BYTES"
  shows "footprint (masked m pc) 4 \<subseteq> code_region"
proof -
  have "4 dvd unat pc" using assms(2) by (simp add: aligned4_dvd_nat)
  then have "unat pc + 3 < PD_REGION_BYTES"
    using assms(3) by (auto simp: pd_region)
  moreover have "unat (pc + of_nat j) = unat pc + j" if "j < 4" for j
    using that assms(3) by (simp add: unat_word_ariths unat_of_nat pd_region)
  ultimately show ?thesis
    using assms(1,3) by (auto simp: region_mapped_def region_masked footprint_def code_region_def)
qed

abbreviation code_kept :: "mem_env \<Rightarrow> ppc_local \<Rightarrow> bool" where
  "code_kept m0 \<equiv> \<lambda>(c, m, pc). fast_path.agrees code_region m0 m"

interpretation code_kept: sprint_invariant switch_step step_in_region "code_kept m0" for m0
proof unfold_locales
  fix s s' :: ppc_local
  assume kept: "code_kept m0 s" and good: "step_in_region s" and step: "switch_step s = Inr s'"
  obtain c m pc c' m' pc' where s: "s = (c, m, pc)" "s' = (c', m', pc')"
    by (cases s, cases s')
  from kept have "fast_path.agrees code_region m0 m" by (simp add: s)
  moreover from this have "masked m = masked m0" by (simp add: fast_path.agrees_def)
  ultimately show "code_kept m0 s'"
    using switch_step_store [of c m pc c' m' pc'] step good store_avoids_footprint [of m]
    by (auto simp: s step_in_region_def split: option.splits intro: fast_path.agrees_wr)
qed

lemma kept_fetch_ok:
  assumes "region_mapped m0" "code_kept m0 s" "step_in_region s"
  shows "fetch_ok m0 s"
  using assms fast_path.agrees_rd32 [OF _ region_footprint [OF assms(1)]]
  by (cases s) (auto simp: fetch_ok_def step_in_region_def aligned4_def)

lemma stays_fetch_ok:
  assumes "region_mapped m" "stays step_in_region switch_step n (c, m, pc)"
  shows "stays (fetch_ok m) switch_step n (c, m, pc)"
proof -
  have "code_kept m (c, m, pc)"
    using assms(1) by (simp add: fast_path.agrees_refl region_mapped_def)
  from code_kept.stays_inv [OF this assms(2)] show ?thesis
    by (rule stays_mono [rotated]) (use kept_fetch_ok [OF assms(1)] in auto)
qed

end
