(* ===== verification/Bench_Harness.thy ===== *)
theory Bench_Harness
  imports Guest_Memory
begin

text \<open>
  What the two harnesses \<open>src/ppc/bench_main.c\<close> and \<open>src/m68k/bench_main.c\<close> have in
  common: the layout of guest RAM, the pseudo random generator, resetting RAM and filling
  the read window, storing code through the host pointer, and the FNV-1a state hash by
  which the runs of the backends are compared.
\<close>

section \<open>Guest RAM seen from the host\<close>

definition RAM_SIZE :: u32 where "RAM_SIZE = push_bit 20 8"
definition CODE_BASE :: u32 where "CODE_BASE = 0x001000"
definition DATA_BASE :: u32 where "DATA_BASE = 0x100000"
definition STORE_BASE :: u32 where "STORE_BASE = 0x180000"

lemmas layout = RAM_SIZE_def CODE_BASE_def DATA_BASE_def STORE_BASE_def

text \<open>\<open>lcg(&s)\<close> updates the seed and returns its new value.\<close>

definition lcg :: "u32 \<Rightarrow> u32" where
  "lcg s = s * 1664525 + 1013904223"

text \<open>\<open>memset(g_ram, 0, RAM_SIZE)\<close>\<close>

definition ram_memset :: "mem_env \<Rightarrow> mem_env" where
  "ram_memset m = m\<lparr>host := (\<lambda>p. if p - mem_env_ram m < ucast RAM_SIZE then 0 else host m p)\<rparr>"

text \<open>\<open>STORE_BE16(g_ram + a, v)\<close> and \<open>STORE_BE32(g_ram + a, v)\<close>\<close>

definition poke16 :: "mem_env \<Rightarrow> u32 \<Rightarrow> u16 \<Rightarrow> mem_env" where
  "poke16 m a v = m\<lparr>host := STORE_BE16 (host m) (mem_env_ram m + ucast a) v\<rparr>"

definition poke32 :: "mem_env \<Rightarrow> u32 \<Rightarrow> u32 \<Rightarrow> mem_env" where
  "poke32 m a v = m\<lparr>host := STORE_BE32 (host m) (mem_env_ram m + ucast a) v\<rparr>"

text \<open>The 64 KB read window: \<open>for (i = 0; i < 0x10000; i += 4)\<close>, one generator value each.\<close>

definition fill_window :: "mem_env \<Rightarrow> mem_env" where
  "fill_window m =
    snd (fold (\<lambda>i (seed, m). let v = lcg seed in (v, poke32 m (DATA_BASE + 4 * of_nat i) v))
      [0..<0x4000] (0xDEADBEEF, m))"

section \<open>State hash\<close>

definition MIX :: "u64 \<Rightarrow> u64 \<Rightarrow> u64" where
  "MIX v h = (h XOR v) * 0x100000001b3"

text \<open>\<open>memcpy(&w, g_ram + i, 8)\<close> for \<open>i = 0, 8, ...\<close> below \<open>RAM_SIZE\<close> (little-endian host).\<close>

definition host_load64 :: "(u64 \<Rightarrow> u8) \<Rightarrow> u64 \<Rightarrow> u64" where
  "host_load64 h p = ucast (host_load32 h p) OR push_bit 32 (ucast (host_load32 h (p + 4)))"

definition ram_words :: "mem_env \<Rightarrow> u64 list" where
  "ram_words m = map (\<lambda>i. host_load64 (host m) (mem_env_ram m + 8 * of_nat i)) [0..<unat RAM_SIZE div 8]"

definition fnv_hash :: "u64 list \<Rightarrow> u64" where
  "fnv_hash ws = fold MIX ws 0xcbf29ce484222325"

text \<open>One mixing step loses nothing: the multiplier is odd, hence invertible.\<close>

lemma MIX_inj_state: "MIX v h = MIX v h' \<longleftrightarrow> h = h'"
proof
  assume "MIX v h = MIX v h'"
  then have "(h XOR v) * (0x100000001b3 * 0xce965057aff6957b)
      = (h' XOR v) * (0x100000001b3 * 0xce965057aff6957b)"
    by (simp only: MIX_def flip: mult.assoc)
  moreover have "0x100000001b3 * 0xce965057aff6957b = (1 :: u64)"
    by (simp add: word_uint_eq_iff uint_word_ariths)
  ultimately have "h XOR v = h' XOR v" by (simp only: mult_1_right)
  then have "(h XOR v) XOR v = (h' XOR v) XOR v" by simp
  then show "h = h'" by (simp add: ac_simps)
qed simp

lemma MIX_inj_word: "MIX v h = MIX v' h \<longleftrightarrow> v = v'"
  using MIX_inj_state [of h v v'] by (simp add: MIX_def xor.commute)

lemma fold_MIX_inj: "fold MIX ws h = fold MIX ws h' \<longleftrightarrow> h = h'"
  by (induction ws arbitrary: h h') (simp_all add: MIX_inj_state)

lemma fnv_hash_differs:
  assumes "w \<noteq> w'" shows "fnv_hash (us @ w # vs) \<noteq> fnv_hash (us @ w' # vs)"
  using assms by (simp add: fnv_hash_def fold_MIX_inj MIX_inj_word)

section \<open>The environment the harness sets up\<close>

definition bench_env :: "mem_env \<Rightarrow> bool" where
  "bench_env m \<longleftrightarrow> wf_env m \<and> address_mask m = RAM_SIZE - 1"

lemma mem_env_init_bench_env:
  assumes "ram \<noteq> 0" "rd \<noteq> 0" "wr \<noteq> 0"
  shows "\<exists>m'. mem_env_init RAM_SIZE (ram, rd, wr) m = Inr m' \<and> bench_env m'"
  using assms
  by (auto simp: mem_env_init_def bench_env_def wf_env_def layout PAGE_SHIFT_def)

lemma bench_env_host [simp]: "bench_env (m\<lparr>host := h\<rparr>) = bench_env m"
  by (simp add: bench_env_def)

lemma bench_env_poke [simp]:
  "bench_env (poke16 m a w) = bench_env m" "bench_env (poke32 m a v) = bench_env m"
  "bench_env (ram_memset m) = bench_env m"
  by (simp_all add: poke16_def poke32_def ram_memset_def)

lemma ram_at_poke32: "in_page 4 a \<Longrightarrow> ram_at (poke32 m a v) = put32 (ram_at m) a v"
  by (simp add: poke32_def mem_env_ram_def ram_at_store32)

lemma ram_at_poke16: "in_page 2 a \<Longrightarrow> ram_at (poke16 m a v) = put16 (ram_at m) a v"
  by (simp add: poke16_def mem_env_ram_def ram_at_store16)

lemma ram_at_memset: "unat a < unat RAM_SIZE \<Longrightarrow> ram_at (ram_memset m) a = 0"
  by (simp add: ram_at_def ram_memset_def mem_env_ram_def word_less_nat_alt unsigned_ucast_eq
    layout take_bit_nat_eq_self)

lemma fill_window_frame:
  assumes "bench_env m"
  shows "bench_env (fill_window m)" and "unat a < unat DATA_BASE \<Longrightarrow> ram_at (fill_window m) a = ram_at m a"
proof -
  let ?step = "\<lambda>i (seed, m). let v = lcg seed in (v, poke32 m (DATA_BASE + 4 * of_nat i) v)"
  have "bench_env (snd (fold ?step [0..<k] (s, m))) \<and>
      (\<forall>a. unat a < unat DATA_BASE \<longrightarrow> ram_at (snd (fold ?step [0..<k] (s, m))) a = ram_at m a)"
    if "k \<le> 0x4000" for k s
    using that
  proof (induction k)
    case 0
    then show ?case using assms by simp
  next
    case (Suc k)
    obtain s' m' where m': "fold ?step [0..<k] (s, m) = (s', m')" by fastforce
    let ?o = "DATA_BASE + 4 * of_nat k :: u32"
    have o: "unat ?o = 0x100000 + 4 * k"
      using Suc.prems by (simp add: layout unat_word_ariths unat_of_nat)
    then have "aligned4 ?o"
      by (simp add: aligned4_dvd_nat)
    then have page: "in_page 4 ?o" by (rule aligned4_in_page)
    have "unat (?o + j) = unat ?o + unat j" if "unat j < 4" for j
      using that o Suc.prems by (simp add: unat_word_ariths)
    then have "a \<noteq> ?o + j" if "unat j < 4" "unat a < unat DATA_BASE" for a j
      using that o by (fastforce simp: layout)
    from this [of 0] this [of 1] this [of 2] this [of 3]
    have "put32 f ?o v a = f a" if "unat a < unat DATA_BASE" for f v a
      using that by (simp add: put32_def)
    with Suc m' page show ?case
      by (simp add: Let_def ram_at_poke32)
  qed
  from this [of "0x4000"]
  show "bench_env (fill_window m)" and "unat a < unat DATA_BASE \<Longrightarrow> ram_at (fill_window m) a = ram_at m a"
    by (simp_all add: fill_window_def)
qed

section \<open>Frames of stores\<close>

lemma put32_other:
  assumes "unat (a :: u32) + 4 \<le> 0x100000" "unat x < unat a \<or> unat a + 4 \<le> unat x"
  shows "put32 f a v x = f x"
proof -
  have "unat (a + j) = unat a + unat j" if "unat j < 4" for j
    using that assms(1) by (simp add: unat_word_ariths)
  then have "x \<noteq> a + j" if "unat j < 4" for j
    using that assms(2) by auto
  from this [of 0] this [of 1] this [of 2] this [of 3] show ?thesis
    by (simp add: put32_def)
qed

lemma be32_cong:
  assumes "\<And>j. unat j < 4 \<Longrightarrow> f (a + j) = g (a + j)"
  shows "be32 f a = be32 g a"
  using assms [of 0] assms [of 1] assms [of 2] assms [of 3] by (simp add: be32_def)

section \<open>Memory of the harness\<close>

lemma bench_masked:
  assumes "bench_env m" "unat a < unat RAM_SIZE"
  shows "masked m a = a"
proof -
  have "address_mask m = mask 23"
    using assms(1) by (simp add: bench_env_def layout mask_eq_exp_minus_1)
  moreover have "a AND mask 23 = a"
    using assms(2) by (simp add: word_unat_eq_iff unat_and_mask_mod layout)
  ultimately show ?thesis by (simp add: masked_def)
qed

lemma in_page_2: "aligned4 a \<Longrightarrow> in_page 2 a"
  using aligned4_in_page [of a] by (simp add: in_page_def page_geometry word_le_nat_alt)

lemma bench_loads:
  assumes "bench_env m" "aligned4 a" "unat a < unat RAM_SIZE"
  shows "\<exists>v. memory_read_uint32 m a = Inr v" "\<exists>v. memory_read_uint16 m a = Inr v"
    "\<exists>v. memory_read_uint8 m a = Inr v"
  using assms bench_masked [of m a]
  by (simp_all add: bench_env_def memory_read_uint32_flat memory_read_uint16_flat
    memory_read_uint8_flat aligned4_in_page in_page_2)

text \<open>\<open>m'\<close> differs from \<open>m\<close> in the data windows only.\<close>

definition code_same :: "mem_env \<Rightarrow> mem_env \<Rightarrow> bool" where
  "code_same m m' \<longleftrightarrow> bench_env m' \<and> (\<forall>x. unat x < 0x100000 \<longrightarrow> ram_at m' x = ram_at m x)"

lemma code_same_refl: "bench_env m \<Longrightarrow> code_same m m"
  by (simp add: code_same_def)

lemma bench_stores:
  assumes "bench_env m" "aligned4 a" "0x100000 \<le> unat a" "unat a < unat RAM_SIZE"
  shows "\<exists>m'. memory_write_uint32 m a v = Inr m' \<and> code_same m m'"
    "\<exists>m'. memory_write_uint16 m a v2 = Inr m' \<and> code_same m m'"
    "\<exists>m'. memory_write_uint8 m a v1 = Inr m' \<and> code_same m m'"
proof -
  have wf: "wf_env m" and a: "masked m a = a"
    using assms bench_masked by (auto simp: bench_env_def)
  have "unat (a + j) = unat a + unat j" if "unat j < 4" for j
    using that assms(4) by (simp add: unat_word_ariths layout)
  then have "x \<noteq> a + j" if "unat j < 4" "unat x < 0x100000" for x j
    using that assms(3) by fastforce
  from this [of 0] this [of 1] this [of 2] this [of 3]
  have ne: "x \<noteq> a" "x \<noteq> a + 1" "x \<noteq> a + 2" "x \<noteq> a + 3" if "unat x < 0x100000" for x
    using that by simp_all
  show "\<exists>m'. memory_write_uint32 m a v = Inr m' \<and> code_same m m'"
    using assms(1,2) ne
    by (simp add: memory_write_uint32_store wf a aligned4_in_page code_same_def ram_at_store32 put32_def)
  show "\<exists>m'. memory_write_uint16 m a v2 = Inr m' \<and> code_same m m'"
    using assms(1,2) ne
    by (simp add: memory_write_uint16_store wf a in_page_2 code_same_def ram_at_store16 put16_def)
  show "\<exists>m'. memory_write_uint8 m a v1 = Inr m' \<and> code_same m m'"
    using assms(1) ne
    by (simp add: memory_write_uint8_store wf a code_same_def ram_at_store8)
qed

section \<open>What a run leaves alone\<close>

text \<open>The harness resets all of RAM between runs, so a run matters to the next one only
  through what it does outside RAM: nothing.\<close>

lemma memset_eqI:
  assumes "\<And>p. p - mem_env_ram m \<ge> ucast RAM_SIZE \<Longrightarrow> h p = host m p"
  shows "ram_memset (m\<lparr>host := h\<rparr>) = ram_memset m"
proof -
  have "(\<lambda>p. if p - mem_env_ram m < ucast RAM_SIZE then 0 else h p)
      = (\<lambda>p. if p - mem_env_ram m < ucast RAM_SIZE then 0 else host m p)"
  proof
    fix p
    show "(if p - mem_env_ram m < ucast RAM_SIZE then 0 else h p)
        = (if p - mem_env_ram m < ucast RAM_SIZE then 0 else host m p)"
      using assms [of p] by (cases "p - mem_env_ram m < ucast RAM_SIZE") simp_all
  qed
  then show ?thesis by (simp add: ram_memset_def mem_env_ram_def cong: if_cong)
qed

lemma ram_offset_less:
  assumes "unat x + unat j < unat RAM_SIZE"
  shows "(ucast (x :: u32) + ucast (j :: u32) :: u64) < ucast RAM_SIZE"
proof -
  have "(ucast x + ucast j :: u64) = ucast (x + j)"
    using assms by (intro ucast_add_nowrap [symmetric]) (simp add: layout)
  moreover have "unat (x + j) = unat x + unat j"
    using assms by (simp add: unat_word_ariths layout)
  ultimately show ?thesis
    using assms by (simp add: word_less_nat_alt unsigned_ucast_eq take_bit_nat_eq_self layout)
qed

lemma ram_memset_pokes:
  "unat a + 4 \<le> unat RAM_SIZE \<Longrightarrow> ram_memset (poke32 m a v) = ram_memset m"
  "unat a + 2 \<le> unat RAM_SIZE \<Longrightarrow> ram_memset (poke16 m a w) = ram_memset m"
  "unat a < unat RAM_SIZE \<Longrightarrow>
    ram_memset (m\<lparr>host := STORE_BE8 (host m) (mem_env_ram m + ucast a) b\<rparr>) = ram_memset m"
proof -
  have out: "p \<noteq> g + ucast a + ucast j"
    if "p - g \<ge> ucast RAM_SIZE" "unat a + unat j < unat RAM_SIZE" for p g :: u64 and j :: u32
    using that ram_offset_less [of a j] by (auto simp: add.assoc)
  show "ram_memset (poke32 m a v) = ram_memset m" if "unat a + 4 \<le> unat RAM_SIZE"
    unfolding poke32_def
    by (rule memset_eqI) (use out [where j = 0] out [where j = 1] out [where j = 2] out [where j = 3] that in
      \<open>simp add: STORE_BE32_be\<close>)
  show "ram_memset (poke16 m a w) = ram_memset m" if "unat a + 2 \<le> unat RAM_SIZE"
    unfolding poke16_def
    by (rule memset_eqI) (use out [where j = 0] out [where j = 1] that in \<open>simp add: STORE_BE16_be\<close>)
  show "ram_memset (m\<lparr>host := STORE_BE8 (host m) (mem_env_ram m + ucast a) b\<rparr>) = ram_memset m"
    if "unat a < unat RAM_SIZE"
    by (rule memset_eqI) (use out [where j = 0] that in \<open>simp add: STORE_BE8_def\<close>)
qed

lemma in_page_fits:
  assumes "bench_env m" "in_page k (masked m a)" "k \<le> 4096"
  shows "unat (masked m a) + unat k \<le> unat RAM_SIZE"
proof -
  let ?x = "masked m a"
  have "address_mask m = 0x7FFFFF"
    using assms(1) by (simp add: bench_env_def layout)
  then have "unat ?x < 8388608"
    using and_le_unat [of a "0x7FFFFF"] by (simp add: masked_def)
  moreover have "unat (?x AND PAGE_MASK) = unat ?x mod 4096"
    using unat_and_mask_mod [of ?x 12] by (simp add: page_geometry mask_eq_exp_minus_1)
  moreover have "unat (MEM_PAGE_SIZE - k) = 4096 - unat k"
    using assms(3) by (simp add: page_geometry unat_sub)
  ultimately have "unat ?x mod 4096 \<le> 4096 - unat k" "unat ?x div 4096 \<le> 2047"
    using assms(2) by (simp_all add: in_page_def word_le_nat_alt)
  moreover have "unat ?x = 4096 * (unat ?x div 4096) + unat ?x mod 4096" by simp
  moreover have "unat k \<le> 4096"
    using assms(3) by (simp add: word_le_nat_alt)
  ultimately have "unat ?x + unat k \<le> 8388608" by linarith
  then show ?thesis by (simp add: layout)
qed

lemma memory_store_outside:
  assumes "bench_env m" "memory_store m s = Inr m'"
  shows "bench_env m' \<and> ram_memset m' = ram_memset m"
proof -
  have wf: "wf_env m" using assms(1) by (simp add: bench_env_def)
  note fits = in_page_fits [OF assms(1)]
  show ?thesis
  proof (cases s)
    case (St8 a v)
    have "unat (masked m a) < unat RAM_SIZE"
      using and_le_unat [of a "address_mask m"] assms(1)
      by (simp add: masked_def bench_env_def layout)
    then show ?thesis
      using assms St8 ram_memset_pokes(3) [of "masked m a" m v]
      by (auto simp: memory_write_uint8_store [OF wf] mem_env_ram_def)
  next
    case (St16 a v)
    then show ?thesis
      using assms fits [of 2 a] ram_memset_pokes(2) [of "masked m a" m v]
      by (auto simp: memory_write_uint16_store [OF wf] mem_env_ram_def poke16_def split: if_splits)
  next
    case (St32 a v)
    then show ?thesis
      using assms fits [of 4 a] ram_memset_pokes(1) [of "masked m a" m v]
      by (auto simp: memory_write_uint32_store [OF wf] mem_env_ram_def poke32_def split: if_splits)
  qed
qed

abbreviation ram_only :: "mem_env \<Rightarrow> mem_env \<Rightarrow> bool" where
  "ram_only M m \<equiv> bench_env m \<and> ram_memset m = M"

lemma ram_memset_idem: "ram_memset (ram_memset m) = ram_memset m"
proof -
  have "ram_memset (m\<lparr>host := host (ram_memset m)\<rparr>) = ram_memset m"
    by (rule memset_eqI) (simp add: ram_memset_def not_less [symmetric])
  moreover have "m\<lparr>host := host (ram_memset m)\<rparr> = ram_memset m"
    by (simp add: ram_memset_def)
  ultimately show ?thesis by simp
qed

lemma fill_window_ram:
  assumes "bench_env m" shows "ram_memset (fill_window m) = ram_memset m"
proof -
  let ?step = "\<lambda>i (seed, m). let v = lcg seed in (v, poke32 m (DATA_BASE + 4 * of_nat i) v)"
  have "ram_memset (snd (fold ?step [0..<k] (s, m))) = ram_memset m" if "k \<le> 0x4000" for k s
    using that
  proof (induction k)
    case (Suc k)
    obtain s' m' where m': "fold ?step [0..<k] (s, m) = (s', m')" by fastforce
    have "unat (DATA_BASE + 4 * of_nat k) + 4 \<le> unat RAM_SIZE"
      using Suc.prems by (simp add: layout unat_word_ariths unat_of_nat)
    with Suc m' show ?case by (simp add: Let_def ram_memset_pokes)
  qed simp
  from this [of "0x4000"] show ?thesis by (simp add: fill_window_def)
qed

end
