(* ===== verification/PPC_Harness.thy ===== *)
theory PPC_Harness
  imports PPC_Runs Bench_Harness
begin

text \<open>
  \<open>src/ppc/bench_main.c\<close>: the mini assembler, the three benchmark kernels, the set-up of
  a run, the state hash and the main loop with its self check. The diagnostics, the clock
  and the figures printed are not modelled.
\<close>

section \<open>Instruction encoders\<close>

text \<open>Macro arguments are converted to \<open>uint32_t\<close>; negative offsets wrap.\<close>

definition E_D :: "u32 \<Rightarrow> u32 \<Rightarrow> u32 \<Rightarrow> u32 \<Rightarrow> u32" where
  "E_D op d a imm = push_bit 26 op OR push_bit 21 d OR push_bit 16 a OR (imm AND 0xFFFF)"
definition E_ADDI :: "u32 \<Rightarrow> u32 \<Rightarrow> u32 \<Rightarrow> u32" where
  "E_ADDI d a i = E_D 14 d a i"
definition E_ADDIS :: "u32 \<Rightarrow> u32 \<Rightarrow> u32 \<Rightarrow> u32" where
  "E_ADDIS d a i = E_D 15 d a i"
definition E_MULLI :: "u32 \<Rightarrow> u32 \<Rightarrow> u32 \<Rightarrow> u32" where
  "E_MULLI d a i = E_D 7 d a i"
definition E_ORI :: "u32 \<Rightarrow> u32 \<Rightarrow> u32 \<Rightarrow> u32" where
  "E_ORI a s ui = E_D 24 s a ui"
definition E_XORI :: "u32 \<Rightarrow> u32 \<Rightarrow> u32 \<Rightarrow> u32" where
  "E_XORI a s ui = E_D 26 s a ui"
definition E_ANDI_RC :: "u32 \<Rightarrow> u32 \<Rightarrow> u32 \<Rightarrow> u32" where
  "E_ANDI_RC a s ui = E_D 28 s a ui"
definition E_CMPWI :: "u32 \<Rightarrow> u32 \<Rightarrow> u32 \<Rightarrow> u32" where
  "E_CMPWI crf a i = E_D 11 (push_bit 2 crf) a i"
definition E_CMPLWI :: "u32 \<Rightarrow> u32 \<Rightarrow> u32 \<Rightarrow> u32" where
  "E_CMPLWI crf a i = E_D 10 (push_bit 2 crf) a i"
definition E_LWZ :: "u32 \<Rightarrow> u32 \<Rightarrow> u32 \<Rightarrow> u32" where
  "E_LWZ d a off = E_D 32 d a off"
definition E_LHZ :: "u32 \<Rightarrow> u32 \<Rightarrow> u32 \<Rightarrow> u32" where
  "E_LHZ d a off = E_D 40 d a off"
definition E_LBZ :: "u32 \<Rightarrow> u32 \<Rightarrow> u32 \<Rightarrow> u32" where
  "E_LBZ d a off = E_D 34 d a off"
definition E_STW :: "u32 \<Rightarrow> u32 \<Rightarrow> u32 \<Rightarrow> u32" where
  "E_STW s a off = E_D 36 s a off"
definition E_STH :: "u32 \<Rightarrow> u32 \<Rightarrow> u32 \<Rightarrow> u32" where
  "E_STH s a off = E_D 44 s a off"
definition E_STB :: "u32 \<Rightarrow> u32 \<Rightarrow> u32 \<Rightarrow> u32" where
  "E_STB s a off = E_D 38 s a off"
definition E_X :: "u32 \<Rightarrow> u32 \<Rightarrow> u32 \<Rightarrow> u32 \<Rightarrow> u32 \<Rightarrow> u32" where
  "E_X d a b xo rc = push_bit 26 31 OR push_bit 21 d OR push_bit 16 a OR push_bit 11 b OR push_bit 1 xo OR rc"
definition E_ADD :: "u32 \<Rightarrow> u32 \<Rightarrow> u32 \<Rightarrow> u32" where
  "E_ADD d a b = E_X d a b 266 0"
definition E_ADD_RC :: "u32 \<Rightarrow> u32 \<Rightarrow> u32 \<Rightarrow> u32" where
  "E_ADD_RC d a b = E_X d a b 266 1"
definition E_SUBF :: "u32 \<Rightarrow> u32 \<Rightarrow> u32 \<Rightarrow> u32" where
  "E_SUBF d a b = E_X d a b 40 0"
definition E_MULLW :: "u32 \<Rightarrow> u32 \<Rightarrow> u32 \<Rightarrow> u32" where
  "E_MULLW d a b = E_X d a b 235 0"
definition E_AND :: "u32 \<Rightarrow> u32 \<Rightarrow> u32 \<Rightarrow> u32" where
  "E_AND a s b = E_X s a b 28 0"
definition E_OR :: "u32 \<Rightarrow> u32 \<Rightarrow> u32 \<Rightarrow> u32" where
  "E_OR a s b = E_X s a b 444 0"
definition E_XOR :: "u32 \<Rightarrow> u32 \<Rightarrow> u32 \<Rightarrow> u32" where
  "E_XOR a s b = E_X s a b 316 0"
definition E_SRAWI :: "u32 \<Rightarrow> u32 \<Rightarrow> u32 \<Rightarrow> u32" where
  "E_SRAWI a s sh = E_X s a sh 824 0"
definition E_LWZX :: "u32 \<Rightarrow> u32 \<Rightarrow> u32 \<Rightarrow> u32" where
  "E_LWZX d a b = E_X d a b 23 0"
definition E_LBZX :: "u32 \<Rightarrow> u32 \<Rightarrow> u32 \<Rightarrow> u32" where
  "E_LBZX d a b = E_X d a b 87 0"
definition E_STWX :: "u32 \<Rightarrow> u32 \<Rightarrow> u32 \<Rightarrow> u32" where
  "E_STWX s a b = E_X s a b 151 0"
definition E_MTCTR :: "u32 \<Rightarrow> u32" where
  "E_MTCTR s = E_X s 9 0 467 0"
definition E_RLWINM :: "u32 \<Rightarrow> u32 \<Rightarrow> u32 \<Rightarrow> u32 \<Rightarrow> u32 \<Rightarrow> u32" where
  "E_RLWINM a s sh mb me = push_bit 26 21 OR push_bit 21 s OR push_bit 16 a OR push_bit 11 sh
     OR push_bit 6 mb OR push_bit 1 me"
definition E_BC :: "u32 \<Rightarrow> u32 \<Rightarrow> u32 \<Rightarrow> u32" where
  "E_BC bo bi off = push_bit 26 16 OR push_bit 21 bo OR push_bit 16 bi OR (off AND 0xFFFC)"
definition E_BDNZ :: "u32 \<Rightarrow> u32" where
  "E_BDNZ off = E_BC 16 0 off"
definition E_B :: "u32 \<Rightarrow> u32" where
  "E_B off = push_bit 26 18 OR (off AND 0x03FFFFFC)"

lemmas encoders =
  E_D_def E_ADDI_def E_ADDIS_def E_MULLI_def E_ORI_def E_XORI_def E_ANDI_RC_def E_CMPWI_def
  E_CMPLWI_def E_LWZ_def E_LHZ_def E_LBZ_def E_STW_def E_STH_def E_STB_def E_X_def E_ADD_def
  E_ADD_RC_def E_SUBF_def E_MULLW_def E_AND_def E_OR_def E_XOR_def E_SRAWI_def E_LWZX_def
  E_LBZX_def E_STWX_def E_MTCTR_def E_RLWINM_def E_BC_def E_BDNZ_def E_B_def

section \<open>Assembling the kernels\<close>

text \<open>Guest memory and \<open>g_emit_pc\<close>, the guest address the next \<open>emit\<close> lands at.\<close>

type_synonym asm = "mem_env \<times> u32"

definition emit :: "u32 \<Rightarrow> asm \<Rightarrow> asm" where
  "emit insn = (\<lambda>(m, g_emit_pc). (poke32 m g_emit_pc insn, g_emit_pc + 4))"

definition emit_kernel_alu :: "asm \<Rightarrow> asm" where
  "emit_kernel_alu s =
    (let s = emit (E_ADDIS 4 0 0x1234) s;
         s = emit (E_ORI 4 4 0x5678) s;
         s = emit (E_ADDI 5 0 0) s;
         s = emit (E_ADDIS 7 0 0x7FFF) s;
         s = emit (E_ORI 7 7 0xFFFF) s;
         s = emit (E_MTCTR 7) s;
         loop = snd s;
         s = emit (E_ADD 5 5 4) s;
         s = emit (E_RLWINM 8 5 7 0 31) s;
         s = emit (E_XOR 5 5 8) s;
         s = emit (E_ADDI 4 4 3) s;
         s = emit (E_ADD_RC 9 5 4) s;
         s = emit (E_BC 12 0 8) s;
         s = emit (E_SUBF 5 4 5) s;
         s = emit (E_MULLI 10 4 13) s;
         s = emit (E_XOR 5 5 10) s;
         s = emit (E_BDNZ (loop - snd s)) s
     in s)"

definition emit_kernel_mem :: "asm \<Rightarrow> asm" where
  "emit_kernel_mem s =
    (let s = emit (E_ADDIS 20 0 (drop_bit 16 DATA_BASE)) s;
         s = emit (E_ADDIS 21 0 (drop_bit 16 STORE_BASE)) s;
         s = emit (E_ADDI 3 0 0) s;
         s = emit (E_ADDI 4 0 0) s;
         s = emit (E_ADDIS 7 0 0x7FFF) s;
         s = emit (E_ORI 7 7 0xFFFF) s;
         s = emit (E_MTCTR 7) s;
         loop = snd s;
         s = emit (E_LWZX 6 20 3) s;
         s = emit (E_ADD 4 4 6) s;
         s = emit (E_STWX 4 21 3) s;
         s = emit (E_LBZX 8 20 3) s;
         s = emit (E_XOR 4 4 8) s;
         s = emit (E_ADDI 3 3 4) s;
         s = emit (E_ANDI_RC 3 3 0x3FFC) s;
         s = emit (E_BDNZ (loop - snd s)) s
     in s)"

definition STREAM_LEN :: nat where "STREAM_LEN = 16384"

text \<open>The instruction the generator value \<open>r\<close> selects.\<close>

definition stress_insn :: "u32 \<Rightarrow> bool \<Rightarrow> u32" where
  "stress_insn r is_last =
    (let rd = 3 + drop_bit 8 r mod 10;
         ra = 3 + drop_bit 12 r mod 10;
         rb = 3 + drop_bit 16 r mod 10;
         off = drop_bit 20 r AND 0x7FC;
         pick = r mod 100
     in if pick < 8 then E_ADD rd ra rb
        else if pick < 14 then E_SUBF rd ra rb
        else if pick < 20 then E_XOR rd ra rb
        else if pick < 24 then E_OR rd ra rb
        else if pick < 28 then E_AND rd ra rb
        else if pick < 36 then E_RLWINM rd ra (drop_bit 3 r AND 31) (drop_bit 26 r AND 31) 31
        else if pick < 44 then E_ADDI rd ra ((r AND 0xFF) - 128)
        else if pick < 48 then E_ADDIS rd ra 1
        else if pick < 52 then E_MULLI rd ra 13
        else if pick < 56 then E_MULLW rd ra rb
        else if pick < 61 then E_SRAWI rd ra (drop_bit 3 r AND 31)
        else if pick < 68 then E_LWZ rd 20 off
        else if pick < 72 then E_LHZ rd 20 off
        else if pick < 76 then E_LBZ rd 20 off
        else if pick < 82 then E_STW rd 21 off
        else if pick < 85 then E_STH rd 21 off
        else if pick < 88 then E_STB rd 21 off
        else if pick < 94 then E_CMPWI 7 ra ((r AND 0x7FFF) - 16384)
        else if \<not> is_last
        then E_BC (if drop_bit 5 r AND 1 \<noteq> 0 then 12 else 4) (28 + (drop_bit 6 r AND 3)) 8
        else E_ADD rd ra rb)"

text \<open>The loop over \<open>i\<close>, with \<open>k\<close> instructions still to emit: the last one is
  \<open>i = STREAM_LEN - 1\<close>.\<close>

primrec stress_stream :: "nat \<Rightarrow> u32 \<Rightarrow> asm \<Rightarrow> asm" where
  "stress_stream 0 seed s = s"
| "stress_stream (Suc k) seed s =
    (let r = lcg seed in stress_stream k r (emit (stress_insn r (k = 0)) s))"

definition stress_seed :: "u32 \<Rightarrow> u32 \<times> asm \<Rightarrow> u32 \<times> asm" where
  "stress_seed r = (\<lambda>(seed, s).
    let v = lcg seed
    in (v, emit (E_ORI r r (v AND 0xFFFF)) (emit (E_ADDIS r 0 (drop_bit 16 v)) s)))"

definition emit_kernel_stress :: "asm \<Rightarrow> asm" where
  "emit_kernel_stress s =
    (let (seed, s) = fold stress_seed [3, 4, 5, 6, 7, 8, 9, 10, 11, 12] (0xC0FFEE01, s);
         s = emit (E_ADDIS 20 0 (drop_bit 16 DATA_BASE)) s;
         s = emit (E_ADDIS 21 0 (drop_bit 16 STORE_BASE)) s;
         loop = snd s;
         s = stress_stream STREAM_LEN seed s
     in emit (E_B (loop - snd s)) s)"

section \<open>One run\<close>

definition ppc_reset :: ppc where
  "ppc_reset = \<lparr>gpr = replicate 32 0, zero_base = 0, ppc_pc = 0, lr = 0, ctr = 0, cr = 0, xer_ca = 0\<rparr>"

definition setup_kernel :: "nat \<Rightarrow> mem_env \<Rightarrow> ppc \<times> mem_env" where
  "setup_kernel k m =
    (let m = fill_window (ram_memset m);
         (m, g_emit_pc) = (if k = 0 then emit_kernel_alu (m, CODE_BASE)
                           else if k = 1 then emit_kernel_mem (m, CODE_BASE)
                           else emit_kernel_stress (m, CODE_BASE))
     in (ppc_reset\<lparr>ppc_pc := CODE_BASE\<rparr>, m))"

definition state_hash :: "ppc \<Rightarrow> mem_env \<Rightarrow> u64" where
  "state_hash c m = fnv_hash (map ucast (gpr c)
     @ [ucast (ppc_pc c), ucast (lr c), ucast (ctr c), ucast (cr c), ucast (xer_ca c)]
     @ ram_words m)"

section \<open>The main program\<close>

type_synonym run_fn = "ppc \<Rightarrow> mem_env \<Rightarrow> u32 \<Rightarrow> (ppc \<times> mem_env) outcome"

text \<open>The static tables of the predecoding backends, which persist between runs.\<close>

record ppc_tables =
  g_pd :: "pd_ent list"
  pdx8_tab :: "pdx_ent list"
  pdx16_tab :: "pdx_ent list"

text \<open>A backend as the harness calls it: on the CPU state and on the globals.\<close>

type_synonym ppc_globals = "mem_env \<times> ppc_tables"
type_synonym ppc_run_fn = "ppc \<Rightarrow> ppc_globals \<Rightarrow> u32 \<Rightarrow> (ppc \<times> ppc_globals) outcome"

definition g_backends :: "ppc_run_fn list" where
  "g_backends =
    [\<lambda>c (m, t) n. bindE (ppc_run_switch c m n) (\<lambda>(c, m). Inr (c, m, t)),
     \<lambda>c (m, t) n. bindE (ppc_run_tail c m n) (\<lambda>(c, m). Inr (c, m, t)),
     \<lambda>c (m, t) n. bindE (ppc_run_call c m n) (\<lambda>(c, m). Inr (c, m, t)),
     \<lambda>c (m, t) n. bindE (ppc_run_pd (g_pd t) c m n) (\<lambda>(c, m, tab). Inr (c, m, t\<lparr>g_pd := tab\<rparr>)),
     \<lambda>c (m, t) n. bindE (ppc_run_pdx8 (pdx8_tab t) c m n)
       (\<lambda>(c, m, tab). Inr (c, m, t\<lparr>pdx8_tab := tab\<rparr>)),
     \<lambda>c (m, t) n. bindE (ppc_run_pdx16 (pdx16_tab t) c m n)
       (\<lambda>(c, m, tab). Inr (c, m, t\<lparr>pdx16_tab := tab\<rparr>))]"

text \<open>\<open>for (b = 0; b < NBACKENDS; b++) { setup_kernel(k, &cpu); g_backends[b](&cpu, budget); ... }\<close>:
  the state hashes of the runs. The warm-up and the timed repetitions are the same loop
  without the hashes.\<close>

primrec run_all :: "nat \<Rightarrow> u32 \<Rightarrow> ppc_run_fn list \<Rightarrow> ppc_globals \<Rightarrow> (u64 list \<times> ppc_globals) outcome" where
  "run_all k budget [] g = Inr ([], g)"
| "run_all k budget (f # fs) g =
    (let (cpu, m) = setup_kernel k (fst g)
     in bindE (f cpu (m, snd g) budget) (\<lambda>(cpu, g).
        bindE (run_all k budget fs g) (\<lambda>(hs, g'). Inr (state_hash cpu (fst g) # hs, g'))))"

text \<open>The first backend whose hash is not that of backend 0.\<close>

definition diverged :: "u64 list \<Rightarrow> nat option" where
  "diverged hash = find (\<lambda>b. hash ! b \<noteq> hash ! 0) [1..<length hash]"

primrec timed_reps :: "nat \<Rightarrow> nat \<Rightarrow> u32 \<Rightarrow> ppc_globals \<Rightarrow> ppc_globals outcome" where
  "timed_reps 0 k budget g = Inr g"
| "timed_reps (Suc r) k budget g =
    bindE (run_all k budget g_backends g) (\<lambda>(_, g). timed_reps r k budget g)"

text \<open>The body of the loop over the kernels: \<open>Some b\<close> when the self check fails.\<close>

definition verify_budget :: u32 where "verify_budget = 20 * 1000 * 1000"

definition bench_kernel :: "nat \<Rightarrow> u32 \<Rightarrow> nat \<Rightarrow> ppc_globals \<Rightarrow> (nat option \<times> ppc_globals) outcome" where
  "bench_kernel k bench_budget reps g =
    bindE (run_all k verify_budget g_backends g) (\<lambda>(hash, g).
      case diverged hash of Some b \<Rightarrow> Inr (Some b, g)
      | None \<Rightarrow>
          bindE (run_all k (bench_budget div 2) g_backends g) (\<lambda>(_, g).
          bindE (timed_reps reps k bench_budget g) (\<lambda>g. Inr (None, g))))"

primrec bench_kernels :: "nat list \<Rightarrow> u32 \<Rightarrow> nat \<Rightarrow> ppc_globals \<Rightarrow> int outcome" where
  "bench_kernels [] bench_budget reps g = Inr 0"
| "bench_kernels (k # ks) bench_budget reps g =
    bindE (bench_kernel k bench_budget reps g) (\<lambda>(bad, g).
    case bad of Some b \<Rightarrow> Inr 1 | None \<Rightarrow> bench_kernels ks bench_budget reps g)"

text \<open>
  \<open>main\<close>: its exit status. The two command line arguments (budget and repetitions) and
  the blocks \<open>malloc\<close> returns are arguments; \<open>m\<close> and \<open>t\<close> are the globals at the start.
\<close>

definition bench_main :: "u32 \<Rightarrow> nat \<Rightarrow> u64 \<times> u64 \<times> u64 \<Rightarrow> ppc_globals \<Rightarrow> int outcome" where
  "bench_main bench_budget reps blocks = (\<lambda>(m, t).
    bindE (mem_env_init RAM_SIZE blocks m) (\<lambda>m. bench_kernels [0, 1, 2] bench_budget reps (m, t)))"

end
