(* ===== verification/PPC_Asm.thy ===== *)
theory PPC_Asm
  imports PPC_Harness
begin

text \<open>
  The mini assembler of \<open>src/ppc/bench_main.c\<close> against the interpreter: the field
  extractors of \<open>ppc_ops.h\<close> recover what the encoders put into an instruction word, and
  the dispatch on an encoded instruction does what its mnemonic says. The proofs about the
  kernels use these lemmas instead of decoding words.
\<close>

section \<open>Field extractors undo the encoders\<close>

lemma E_D_fields:
  assumes "unat op < 64" "reg d" "reg a"
  shows "drop_bit 26 (E_D op d a imm) = op" "P_RD (E_D op d a imm) = d" "P_RA (E_D op d a imm) = a"
    "P_UIMM (E_D op d a imm) = imm AND 0xFFFF" "P_SIMM (E_D op d a imm) = sext16 imm"
proof -
  have op: "\<not> bit op n" if "6 \<le> n" for n
    using bit_high [of op 6 n] assms(1) that by simp
  note bits = bit_reg [OF assms(2)] bit_reg [OF assms(3)] op
  note low = reg_bit [OF assms(2)] reg_bit [OF assms(3)]
  show "drop_bit 26 (E_D op d a imm) = op"
    using bit_low [of op 6] assms(1)
    by (intro bit_word_eqI) (auto simp: E_D_def masks bit_simps bits dest: low)
  show "P_RD (E_D op d a imm) = d"
    by (rule bit_word_eqI) (auto simp: P_RD_def E_D_def masks bit_simps bits dest: low)
  show "P_RA (E_D op d a imm) = a"
    by (rule bit_word_eqI) (auto simp: P_RA_def E_D_def masks bit_simps bits dest: low)
  show "P_UIMM (E_D op d a imm) = imm AND 0xFFFF"
    by (rule bit_word_eqI) (auto simp: P_UIMM_def E_D_def masks bit_simps bits dest: low)
  have "(ucast (E_D op d a imm) :: u16) = ucast imm"
    by (rule bit_word_eqI) (auto simp: E_D_def masks bit_simps bits dest: low)
  then show "P_SIMM (E_D op d a imm) = sext16 imm"
    by (simp add: P_SIMM_def sext16_def)
qed

lemma E_X_fields:
  assumes "reg d" "reg a" "reg b" "unat xo < 1024" "unat rc < 2"
  shows "drop_bit 26 (E_X d a b xo rc) = 31" "P_RD (E_X d a b xo rc) = d" "P_RA (E_X d a b xo rc) = a"
    "P_RB (E_X d a b xo rc) = b" "E_X d a b xo rc AND 0x7FF = push_bit 1 xo OR rc"
proof -
  have xo: "\<not> bit xo n" if "10 \<le> n" for n
    using bit_high [of xo 10 n] assms(4) that by simp
  have rc: "\<not> bit rc n" if "1 \<le> n" for n
    using bit_high [of rc 1 n] assms(5) that by simp
  note bits = bit_reg [OF assms(1)] bit_reg [OF assms(2)] bit_reg [OF assms(3)] xo rc
  note low = reg_bit [OF assms(1)] reg_bit [OF assms(2)] reg_bit [OF assms(3)]
  show "drop_bit 26 (E_X d a b xo rc) = 31"
    unfolding masks E_X_def
    by (rule bit_word_eqI) (auto simp: bit_simps bits simp del: One_nat_def push_bit_Suc dest: low)
  show "P_RD (E_X d a b xo rc) = d"
    by (rule bit_word_eqI) (auto simp: P_RD_def E_X_def masks bit_simps bits simp del: One_nat_def push_bit_Suc dest: low)
  show "P_RA (E_X d a b xo rc) = a"
    by (rule bit_word_eqI) (auto simp: P_RA_def E_X_def masks bit_simps bits simp del: One_nat_def push_bit_Suc dest: low)
  show "P_RB (E_X d a b xo rc) = b"
    by (rule bit_word_eqI) (auto simp: P_RB_def E_X_def masks bit_simps bits simp del: One_nat_def push_bit_Suc dest: low)
  have xo': "n < 11" if "bit xo (n - 1)" for n
    using bit_low [of xo 10 "n - 1"] assms(4) that by simp
  have rc': "n < 11" if "bit rc n" for n
    using bit_low [of rc 1 n] assms(5) that by simp
  show "E_X d a b xo rc AND 0x7FF = push_bit 1 xo OR rc"
    by (rule bit_word_eqI)
      (auto simp: E_X_def masks bit_simps bits simp del: One_nat_def push_bit_Suc dest: xo' rc')
qed

lemma E_RLWINM_fields:
  assumes "reg a" "reg s" "reg sh" "reg mb" "reg me"
  shows "drop_bit 26 (E_RLWINM a s sh mb me) = 21" "P_RD (E_RLWINM a s sh mb me) = s"
    "P_RA (E_RLWINM a s sh mb me) = a" "P_RB (E_RLWINM a s sh mb me) = sh"
    "drop_bit 6 (E_RLWINM a s sh mb me) AND 31 = mb" "drop_bit 1 (E_RLWINM a s sh mb me) AND 31 = me"
    "E_RLWINM a s sh mb me AND 1 = 0"
proof -
  note bits = assms [THEN bit_reg]
  note low = assms [THEN reg_bit]
  show "drop_bit 26 (E_RLWINM a s sh mb me) = 21"
    unfolding E_RLWINM_def using bit_low [of 21 6]
    by (intro bit_word_eqI) (auto simp: bit_simps bits simp del: One_nat_def push_bit_Suc push_bit_numeral dest: low)
  show "P_RD (E_RLWINM a s sh mb me) = s"
    unfolding P_RD_def E_RLWINM_def masks(2)
    by (rule bit_word_eqI) (auto simp: bit_simps bits simp del: One_nat_def push_bit_Suc push_bit_numeral dest: low)
  show "P_RA (E_RLWINM a s sh mb me) = a"
    unfolding P_RA_def E_RLWINM_def masks(2)
    by (rule bit_word_eqI) (auto simp: bit_simps bits simp del: One_nat_def push_bit_Suc push_bit_numeral dest: low)
  show "P_RB (E_RLWINM a s sh mb me) = sh"
    unfolding P_RB_def E_RLWINM_def masks(2)
    by (rule bit_word_eqI) (auto simp: bit_simps bits simp del: One_nat_def push_bit_Suc push_bit_numeral dest: low)
  show "drop_bit 6 (E_RLWINM a s sh mb me) AND 31 = mb"
    unfolding E_RLWINM_def masks(2)
    by (rule bit_word_eqI) (auto simp: bit_simps bits simp del: One_nat_def push_bit_Suc push_bit_numeral dest: low)
  show "drop_bit 1 (E_RLWINM a s sh mb me) AND 31 = me"
    unfolding E_RLWINM_def masks(2)
    by (rule bit_word_eqI)
      (auto simp: bit_simps bits simp del: One_nat_def push_bit_Suc push_bit_numeral drop_bit_Suc dest: low)
  show "E_RLWINM a s sh mb me AND 1 = 0"
    by (rule bit_word_eqI) (auto simp: E_RLWINM_def bit_simps simp del: One_nat_def push_bit_Suc)
qed

lemma E_BC_fields:
  assumes "reg bo" "reg bi"
  shows "drop_bit 26 (E_BC bo bi off) = 16" "P_RD (E_BC bo bi off) = bo" "P_RA (E_BC bo bi off) = bi"
   "E_BC bo bi off AND 0xFFFC = off AND 0xFFFC" "E_BC bo bi off AND 3 = 0"
proof -
  note bits = assms [THEN bit_reg]
  note low = assms [THEN reg_bit]
  show "drop_bit 26 (E_BC bo bi off) = 16"
    unfolding E_BC_def masks(5) using bit_low [of 16 6]
    by (intro bit_word_eqI) (auto simp: bit_simps bits simp del: push_bit_numeral dest: low)
  show "P_RD (E_BC bo bi off) = bo"
    unfolding P_RD_def E_BC_def masks(2,5)
    by (rule bit_word_eqI) (auto simp: bit_simps bits simp del: One_nat_def push_bit_Suc push_bit_numeral dest: low)
  show "P_RA (E_BC bo bi off) = bi"
    unfolding P_RA_def E_BC_def masks(2,5)
    by (rule bit_word_eqI) (auto simp: bit_simps bits simp del: One_nat_def push_bit_Suc push_bit_numeral dest: low)
  show "E_BC bo bi off AND 0xFFFC = off AND 0xFFFC"
    unfolding masks(5) E_BC_def
    by (rule bit_word_eqI) (auto simp: bit_simps bits simp del: push_bit_numeral dest: low)
  show "E_BC bo bi off AND 3 = 0"
    unfolding masks(5,6) E_BC_def
    by (rule bit_word_eqI) (auto simp: bit_simps bits simp del: push_bit_numeral dest: low)
qed

section \<open>Executing encoded instructions\<close>

lemma E_D_dispatch:
  assumes "unat op < 64" "reg d" "reg a"
  shows "switch_dispatch (E_D op d a imm) s =
    (case map_of PPC_PRIMARY op of Some p \<Rightarrow> prim_stmt p (E_D op d a imm) s
     | None \<Rightarrow> ppc_illegal (fst s) (E_D op d a imm))"
  by (simp add: switch_dispatch_def E_D_fields [OF assms])

lemma E_X_dispatch:
  assumes "reg d" "reg a" "reg b" "unat xo < 1024" "unat rc < 2"
  shows "switch_dispatch (E_X d a b xo rc) (c, m, pc) =
    bindE (case map_of PPC_OP31 (push_bit 1 xo OR rc) of Some op \<Rightarrow> op31_stmt op (E_X d a b xo rc) c m
     | None \<Rightarrow> ppc_illegal c (E_X d a b xo rc)) (\<lambda>(c, m). Inr (c, m, pc))"
  by (simp add: switch_dispatch_def E_X_fields [OF assms] PPC_PRIMARY_def do_op31_def)

lemma asm_d:
  assumes "reg d" "reg a"
  shows
    "switch_dispatch (E_ADDI d a i) (c, m, pc) =
       Inr (set_gpr c d (base_or_zero c a + sext16 i), m, pc)"
    "switch_dispatch (E_ADDIS d a i) (c, m, pc) =
       Inr (set_gpr c d (base_or_zero c a + push_bit 16 (sext16 i)), m, pc)"
    "switch_dispatch (E_MULLI d a i) (c, m, pc) =
       Inr (set_gpr c d (get_gpr c a * sext16 i), m, pc)"
    "switch_dispatch (E_ORI d a i) (c, m, pc) =
       Inr (set_gpr c d (get_gpr c a OR (i AND 0xFFFF)), m, pc)"
    "switch_dispatch (E_ANDI_RC d a i) (c, m, pc) =
       (let r = get_gpr c a AND (i AND 0xFFFF) in Inr (record0 (set_gpr c d r) r, m, pc))"
    "switch_dispatch (E_LWZ d a i) (c, m, pc) =
       bindE (memory_read_uint32 m (base_or_zero c a + sext16 i)) (\<lambda>v. Inr (set_gpr c d
         v, m, pc))"
    "switch_dispatch (E_LHZ d a i) (c, m, pc) =
       bindE (memory_read_uint16 m (base_or_zero c a + sext16 i)) (\<lambda>v. Inr (set_gpr c d
         (ucast v), m, pc))"
    "switch_dispatch (E_LBZ d a i) (c, m, pc) =
       bindE (memory_read_uint8 m (base_or_zero c a + sext16 i)) (\<lambda>v. Inr (set_gpr c d
         (ucast v), m, pc))"
    "switch_dispatch (E_STW d a i) (c, m, pc) =
       bindE (memory_write_uint32 m (base_or_zero c a + sext16 i) (get_gpr c d)) (\<lambda>m.
         Inr (c, m, pc))"
    "switch_dispatch (E_STH d a i) (c, m, pc) =
       bindE (memory_write_uint16 m (base_or_zero c a + sext16 i) (ucast (get_gpr c d)))
         (\<lambda>m. Inr (c, m, pc))"
    "switch_dispatch (E_STB d a i) (c, m, pc) =
       bindE (memory_write_uint8 m (base_or_zero c a + sext16 i) (ucast (get_gpr c d)))
         (\<lambda>m. Inr (c, m, pc))"
  by (simp_all add: E_ADDI_def E_ADDIS_def E_MULLI_def E_ORI_def E_ANDI_RC_def E_LWZ_def E_LHZ_def E_LBZ_def
   E_STW_def E_STH_def E_STB_def E_D_dispatch E_D_fields assms PPC_PRIMARY_def gen_addi_def gen_mulli_def gen_logic_d_def
   gen_load_d_def gen_store_d_def read_width_def write_width_def Let_def bindE_assoc)

lemma asm_x:
  assumes "reg d" "reg a" "reg b"
  shows
    "switch_dispatch (E_ADD d a b) (c, m, pc) =
       Inr (set_gpr c d (get_gpr c a + get_gpr c b), m, pc)"
    "switch_dispatch (E_ADD_RC d a b) (c, m, pc) =
       (let r = get_gpr c a + get_gpr c b in Inr (record0 (set_gpr c d r) r, m, pc))"
    "switch_dispatch (E_SUBF d a b) (c, m, pc) =
       Inr (set_gpr c d (get_gpr c b - get_gpr c a), m, pc)"
    "switch_dispatch (E_MULLW d a b) (c, m, pc) =
       Inr (set_gpr c d (get_gpr c a * get_gpr c b), m, pc)"
    "switch_dispatch (E_AND d a b) (c, m, pc) =
       Inr (set_gpr c d (get_gpr c a AND get_gpr c b), m, pc)"
    "switch_dispatch (E_OR d a b) (c, m, pc) =
       Inr (set_gpr c d (get_gpr c a OR get_gpr c b), m, pc)"
    "switch_dispatch (E_XOR d a b) (c, m, pc) =
       Inr (set_gpr c d (get_gpr c a XOR get_gpr c b), m, pc)"
    "switch_dispatch (E_SRAWI d a b) (c, m, pc) = (let s = get_gpr c a;
       lost = (if b \<noteq> 0 then s AND (push_bit (unat b) 1 - 1) else 0);
       c = c\<lparr>xer_ca := c_bool (sint s < 0 \<and> lost \<noteq> 0)\<rparr>
     in Inr (set_gpr c d (signed_drop_bit (unat b) s), m, pc))"
    "switch_dispatch (E_LWZX d a b) (c, m, pc) =
       bindE (memory_read_uint32 m (base_or_zero c a + get_gpr c b)) (\<lambda>v. Inr (set_gpr c
         d v, m, pc))"
    "switch_dispatch (E_LBZX d a b) (c, m, pc) =
       bindE (memory_read_uint8 m (base_or_zero c a + get_gpr c b)) (\<lambda>v. Inr (set_gpr c
         d (ucast v), m, pc))"
    "switch_dispatch (E_STWX d a b) (c, m, pc) =
       bindE (memory_write_uint32 m (base_or_zero c a + get_gpr c b) (get_gpr c d)) (\<lambda>m.
         Inr (c, m, pc))"
  using assms
  by (simp_all add: E_ADD_def E_ADD_RC_def E_SUBF_def E_MULLW_def E_AND_def E_OR_def E_XOR_def E_SRAWI_def E_LWZX_def
   E_LBZX_def E_STWX_def E_X_dispatch E_X_fields PPC_OP31_def gen_xo_arith_def gen_x_logic_def gen_load_x_def
   gen_store_x_def gen_srawi_def read_width_def write_width_def Let_def bindE_assoc)

lemma gen_mspr_fields:
  "P_RA insn = 9 \<Longrightarrow> P_RB insn = 0 \<Longrightarrow> gen_mspr c insn True = Inr (c\<lparr>ctr := get_gpr c (P_RD insn)\<rparr>)"
  by (simp add: gen_mspr_def P_RA_def P_RB_def)

lemma asm_mtctr:
  assumes "reg d"
  shows "switch_dispatch (E_MTCTR d) (c, m, pc) = Inr (c\<lparr>ctr := get_gpr c d\<rparr>, m, pc)"
  using assms
  by (simp add: E_MTCTR_def E_X_dispatch E_X_fields PPC_OP31_def gen_mspr_fields)

lemma crf_field: "drop_bit 23 w AND 7 = drop_bit 2 (P_RD w)"
  unfolding P_RD_def masks(2,7)
  by (rule bit_word_eqI) (auto simp: bit_simps)

lemma asm_cmpwi:
  assumes "unat f < 8" "reg a"
  shows "switch_dispatch (E_CMPWI f a i) (c, m, pc) =
    (let x = sint (get_gpr c a); y = sint (sext16 i)
     in Inr (set_crf c f (if x < y then 8 else if x > y then 4 else 2), m, pc))"
proof -
  have "unat (push_bit 2 f) = 4 * unat f"
    using assms(1) by (simp add: push_bit_eq_mult unat_word_ariths)
  then have "reg (push_bit 2 f)"
    using assms(1) by simp
  note fields = E_D_fields [OF _ this assms(2)] E_D_dispatch [OF _ this assms(2)]
  have "drop_bit 2 (push_bit 2 f) = f"
    using \<open>unat (push_bit 2 f) = 4 * unat f\<close> by (simp add: word_unat_eq_iff unat_drop_bit_div)
  then show ?thesis
    by (simp add: E_CMPWI_def fields PPC_PRIMARY_def gen_cmp_def crf_field Let_def)
qed

lemma asm_rlwinm:
  assumes "reg a" "reg s" "reg sh" "reg mb" "reg me"
  shows "switch_dispatch (E_RLWINM a s sh mb me) (c, m, pc)
    = Inr (set_gpr c a (rotl32 (get_gpr c s) sh AND ppc_mask mb me), m, pc)"
  by (simp add: switch_dispatch_def E_RLWINM_fields [OF assms] PPC_PRIMARY_def gen_rlwinm_def Let_def
      del: One_nat_def)

lemma gen_bc_cond:
  assumes "P_RD w = 12 \<or> P_RD w = 4" "w AND 3 = 0"
  shows "gen_bc c w pc =
    (c, if (drop_bit (unat (31 - P_RA w)) (cr c) AND 1) = (drop_bit 3 (P_RD w) AND 1)
        then (pc - 4) + sext16 (w AND 0xFFFC) else pc)"
  using assms(1) and_3_split [OF assms(2)] by (auto simp: gen_bc_def bc_taken_def Let_def)

lemma gen_bc_bdnz:
  assumes "P_RD w = 16" "w AND 3 = 0"
  shows "gen_bc c w pc =
    (c\<lparr>ctr := ctr c - 1\<rparr>, if ctr c = 1 then pc else (pc - 4) + sext16 (w AND 0xFFFC))"
  using and_3_split [OF assms(2)] by (simp add: gen_bc_def bc_taken_def Let_def assms(1))

lemma asm_bc:
  assumes "reg bi" "bo = 12 \<or> bo = 4"
  shows "switch_dispatch (E_BC bo bi off) (c, m, pc) =
    Inr (c, m, if (drop_bit (unat (31 - bi)) (cr c) AND 1) = (drop_bit 3 bo AND 1)
               then (pc - 4) + sext16 (off AND 0xFFFC) else pc)"
proof -
  have "reg bo" using assms(2) by auto
  note f = E_BC_fields [OF this assms(1), of off]
  show ?thesis
    using assms(2) by (simp add: switch_dispatch_def PPC_PRIMARY_def gen_bc_cond f)
qed

lemma asm_bdnz:
  "switch_dispatch (E_BDNZ off) (c, m, pc) =
    Inr (c\<lparr>ctr := ctr c - 1\<rparr>, m, if ctr c = 1 then pc else (pc - 4) + sext16 (off AND 0xFFFC))"
proof -
  have "reg 16" "reg 0" by simp_all
  note f = E_BC_fields [OF this, of off]
  show ?thesis
    by (simp add: E_BDNZ_def switch_dispatch_def PPC_PRIMARY_def gen_bc_bdnz f)
qed

end
