(* ===== verification/PPC_Kernels.thy ===== *)
theory PPC_Kernels
  imports PPC_Asm
begin

text \<open>
  The three kernels of \<open>src/ppc/bench_main.c\<close> as lists of instruction words, and for each
  of them the invariant that holds before every instruction of a run: the code in memory
  is intact, the next instruction is one of the kernel's, loads and stores stay in the data
  windows, and the counter outlasts the budget. Each kernel is an interpretation of
  \<open>sprint_progress\<close>: a run never traps and never leaves the states on which the
  predecoding backends agree with the switch.
\<close>

section \<open>Words assembled into memory\<close>

definition code_words :: "u32 list \<Rightarrow> mem_env \<Rightarrow> bool" where
  "code_words ws m \<longleftrightarrow> (\<forall>i < length ws. be32 (ram_at m) (CODE_BASE + 4 * of_nat i) = ws ! i)"

lemma word_slots:
  fixes a :: u32
  assumes "unat a + 4 * n \<le> 0x100000" "i < n"
  shows "unat (a + 4 * of_nat i) = unat a + 4 * i"
  using assms by (simp add: unat_word_ariths unat_of_nat)

lemma emits:
  assumes "fold emit ws (m, a) = (m', a')" "aligned4 a" "unat a + 4 * length ws \<le> 0x100000"
    and "bench_env m"
  shows "a' = a + 4 * of_nat (length ws) \<and> bench_env m'
    \<and> (\<forall>x. unat x < unat a \<or> unat a + 4 * length ws \<le> unat x \<longrightarrow> ram_at m' x = ram_at m x)
    \<and> (\<forall>i < length ws. be32 (ram_at m') (a + 4 * of_nat i) = ws ! i)"
  using assms
proof (induction ws arbitrary: m a)
  case Nil
  then show ?case by simp
next
  case (Cons w ws)
  let ?m = "poke32 m a w"
  have al: "aligned4 (a + 4)"
    using Cons.prems(2) by (simp add: aligned4_add aligned4_4)
  have a4: "unat (a + 4) = unat a + 4"
    using Cons.prems(3) by (simp add: unat_word_ariths)
  have ram: "ram_at ?m = put32 (ram_at m) a w"
    using Cons.prems(2) by (simp add: ram_at_poke32 aligned4_in_page)
  have IH: "a' = a + 4 + 4 * of_nat (length ws) \<and> bench_env m'
    \<and> (\<forall>x. unat x < unat (a + 4) \<or> unat (a + 4) + 4 * length ws \<le> unat x \<longrightarrow> ram_at m' x = ram_at ?m x)
    \<and> (\<forall>i < length ws. be32 (ram_at m') (a + 4 + 4 * of_nat i) = ws ! i)"
    using Cons.prems a4 al by (intro Cons.IH) (simp_all add: emit_def)
  have frame: "ram_at m' x = ram_at m x"
    if "unat x < unat a \<or> unat a + 4 * length (w # ws) \<le> unat x" for x
  proof -
    have "unat x < unat (a + 4) \<or> unat (a + 4) + 4 * length ws \<le> unat x"
      using that by (auto simp: a4)
    with IH have "ram_at m' x = put32 (ram_at m) a w x" by (auto simp: ram)
    also have "\<dots> = ram_at m x"
      using that Cons.prems(3) by (intro put32_other) auto
    finally show ?thesis .
  qed
  have "be32 (ram_at m') a = be32 (ram_at ?m) a"
  proof (rule be32_cong)
    fix j :: u32 assume "unat j < 4"
    then have "unat (a + j) = unat a + unat j"
      using Cons.prems(3) by (simp add: unat_word_ariths)
    with \<open>unat j < 4\<close> IH a4 show "ram_at m' (a + j) = ram_at ?m (a + j)" by simp
  qed
  then have first: "be32 (ram_at m') a = w" by (simp add: ram)
  have "be32 (ram_at m') (a + 4 * of_nat i) = (w # ws) ! i" if "i < length (w # ws)" for i
  proof (cases i)
    case 0
    with first show ?thesis by simp
  next
    case (Suc k)
    have "a + 4 * of_nat i = a + 4 + 4 * of_nat k"
      by (simp add: Suc algebra_simps)
    with IH that Suc show ?thesis by (simp add: add.assoc)
  qed
  with IH frame show ?case by (simp add: algebra_simps)
qed


section \<open>A state inside a kernel\<close>

lemma bench_region: "bench_env m \<Longrightarrow> region_mapped m"
  by (simp add: bench_env_def region_mapped_def layout)

text \<open>The next instruction is word \<open>i\<close> of the kernel \<open>ws\<close>, which memory still holds as
  it did at the start of the run, in \<open>m0\<close>.\<close>

definition kernel_at :: "u32 list \<Rightarrow> mem_env \<Rightarrow> nat \<Rightarrow> ppc_local \<Rightarrow> bool" where
  "kernel_at ws m0 i = (\<lambda>(c, m, pc). i < length ws \<and> length ws < 0xF000 \<and>
     pc = CODE_BASE + 4 * of_nat i \<and> length (gpr c) = 32 \<and>
     bench_env m0 \<and> code_words ws m0 \<and> bench_env m \<and> code_words ws m)"

lemma code_words_same:
  assumes "code_words ws m" "code_same m m'" "length ws < 0xF000"
  shows "code_words ws m'"
proof -
  have "be32 (ram_at m') (CODE_BASE + 4 * of_nat i) = be32 (ram_at m) (CODE_BASE + 4 * of_nat i)"
    if "i < length ws" for i
  proof (rule be32_cong)
    fix j :: u32 assume "unat j < 4"
    then have "unat (CODE_BASE + 4 * of_nat i + j) < 0x100000"
      using that assms(3) word_slots [of CODE_BASE "length ws" i]
      by (simp add: layout unat_word_ariths)
    then show "ram_at m' (CODE_BASE + 4 * of_nat i + j) = ram_at m (CODE_BASE + 4 * of_nat i + j)"
      using assms(2) by (simp add: code_same_def)
  qed
  with assms(1) show ?thesis by (simp add: code_words_def)
qed

lemma kernel_pc:
  assumes "kernel_at ws m0 i (c, m, pc)"
  shows "unat pc = 0x1000 + 4 * i" "aligned4 pc" "unat pc < PD_REGION_BYTES"
proof -
  show pc: "unat pc = 0x1000 + 4 * i"
    using assms word_slots [of CODE_BASE "length ws" i] by (auto simp: kernel_at_def layout)
  then show "aligned4 pc" by (simp add: aligned4_dvd_nat)
  show "unat pc < PD_REGION_BYTES"
    using pc assms by (auto simp: kernel_at_def pd_region)
qed

lemma kernel_fetch:
  assumes "kernel_at ws m0 i (c, m, pc)"
  shows "memory_read_uint32 m pc = Inr (ws ! i)" "memory_read_uint32 m0 pc = Inr (ws ! i)"
  using assms kernel_pc [OF assms] region_fetch [of m pc] region_fetch [of m0 pc]
  by (auto simp: kernel_at_def bench_region code_words_def)

lemma kernel_run_ok:
  "kernel_at ws m0 i (c, m, pc) \<Longrightarrow> pdx_exact (ws ! i) \<Longrightarrow> pdx_run_ok m0 (c, m, pc)"
  using kernel_pc [of ws m0 i c m pc] kernel_fetch [of ws m0 i c m pc]
  by (simp add: pdx_run_ok_def fetch_ok_def aligned4_def)

lemma kernel_step:
  assumes "kernel_at ws m0 i (c, m, pc)"
    and "switch_dispatch (ws ! i) (c, m, pc + 4) = Inr (c', m', CODE_BASE + 4 * of_nat j)"
    and "length (gpr c') = 32" "m' = m \<or> code_same m m'" "j < length ws"
  shows "switch_step (c, m, pc) = Inr (c', m', CODE_BASE + 4 * of_nat j)"
    and "kernel_at ws m0 j (c', m', CODE_BASE + 4 * of_nat j)"
proof -
  show "switch_step (c, m, pc) = Inr (c', m', CODE_BASE + 4 * of_nat j)"
    using assms(2) kernel_fetch [OF assms(1)] by (simp add: switch_step_def)
  show "kernel_at ws m0 j (c', m', CODE_BASE + 4 * of_nat j)"
    using assms code_words_same [of ws m m'] by (auto simp: kernel_at_def code_same_def)
qed

lemma kernel_next: "kernel_at ws m0 i (c, m, pc) \<Longrightarrow> pc + 4 = CODE_BASE + 4 * of_nat (Suc i)"
  by (simp add: kernel_at_def algebra_simps)


section \<open>Kernel 1: ALU loop\<close>

definition alu_code :: "u32 list" where
  "alu_code =
    [E_ADDIS 4 0 0x1234, E_ORI 4 4 0x5678, E_ADDI 5 0 0, E_ADDIS 7 0 0x7FFF, E_ORI 7 7 0xFFFF,
     E_MTCTR 7, E_ADD 5 5 4, E_RLWINM 8 5 7 0 31, E_XOR 5 5 8, E_ADDI 4 4 3, E_ADD_RC 9 5 4,
     E_BC 12 0 8, E_SUBF 5 4 5, E_MULLI 10 4 13, E_XOR 5 5 10, E_BDNZ (- 36)]"

lemma emit_alu: "emit_kernel_alu (m, CODE_BASE) = fold emit alu_code (m, CODE_BASE)"
  by (simp add: emit_kernel_alu_def alu_code_def emit_def Let_def layout)

lemma alu_exact: "w \<in> set alu_code \<Longrightarrow> pdx_exact w"
  by (auto simp: alu_code_def encoders pdx_exact_def P_RA_def)

definition alu_inv :: "nat \<Rightarrow> nat \<Rightarrow> ppc \<Rightarrow> bool" where
  "alu_inv i n c \<longleftrightarrow> n \<le> 0x7FFFFFFF \<and> (i = 4 \<longrightarrow> get_gpr c 7 = 0x7FFF0000)
     \<and> (i = 5 \<longrightarrow> get_gpr c 7 = 0x7FFFFFFF) \<and> (6 \<le> i \<longrightarrow> n < unat (ctr c))"

lemma fields_keep [simp]:
  "ctr (set_gpr c r v) = ctr c" "ctr (record0 c v) = ctr c" "ctr (set_crf c f b) = ctr c"
  by (simp_all add: set_gpr_def record0_def set_crf_def Let_def)

lemma alu_step:
  assumes "i < 16" "length (gpr c) = 32" "alu_inv i (Suc n) c"
  shows "\<exists>j c'. switch_dispatch (alu_code ! i) (c, m, CODE_BASE + 4 * of_nat (Suc i))
      = Inr (c', m, CODE_BASE + 4 * of_nat j) \<and> length (gpr c') = 32 \<and> j < 16 \<and> alu_inv j n c'"
proof -
  consider (bc) "i = 11" | (loop) "i = 15" | (straight) "i < 16" "i \<noteq> 11" "i \<noteq> 15"
    using assms(1) by blast
  then show ?thesis
  proof cases
    case straight
    then have "i = 0 \<or> i = 1 \<or> i = 2 \<or> i = 3 \<or> i = 4 \<or> i = 5 \<or> i = 6 \<or> i = 7 \<or> i = 8 \<or> i = 9
        \<or> i = 10 \<or> i = 12 \<or> i = 13 \<or> i = 14" by presburger
    then show ?thesis
      using assms(2,3)
      by (elim disjE; intro exI [of _ "Suc i"])
        (simp_all add: alu_code_def asm_d asm_x asm_mtctr asm_rlwinm alu_inv_def gprs Let_def base_or_zero_def sext16_def)
  next
    case bc
    show ?thesis
    proof (cases "(drop_bit 31 (cr c) AND 1) = 1")
      case True
      then show ?thesis using bc assms(2,3)
       by (intro exI [of _ 13]) (simp add: alu_code_def asm_bc alu_inv_def sext16_def layout)
    next
      case False
      then show ?thesis using bc assms(2,3)
       by (intro exI [of _ 12]) (simp add: alu_code_def asm_bc alu_inv_def sext16_def layout)
    qed
  next
    case loop
    then have "Suc n < unat (ctr c)" using assms(3) by (simp add: alu_inv_def)
    moreover from this have "ctr c \<noteq> 1" "unat (ctr c - 1) = unat (ctr c) - 1"
      by (auto simp: unat_sub word_le_nat_alt)
    ultimately show ?thesis using loop assms(2,3)
      by (intro exI [of _ 6]) (simp add: alu_code_def asm_bdnz alu_inv_def sext16_def layout)
  qed
qed

text \<open>The states of a run of the kernel with \<open>n\<close> instructions still to execute.\<close>

definition alu_state :: "mem_env \<Rightarrow> nat \<Rightarrow> ppc_local \<Rightarrow> bool" where
  "alu_state m0 n s \<longleftrightarrow> (\<exists>i. kernel_at alu_code m0 i s \<and> alu_inv i n (fst s))"

interpretation alu_kernel: sprint_progress switch_step "alu_state m0" "pdx_run_ok m0" for m0
proof unfold_locales
  fix n and s :: ppc_local
  assume "alu_state m0 (Suc n) s"
  then obtain i c m pc where s: "s = (c, m, pc)" and at: "kernel_at alu_code m0 i (c, m, pc)"
      and inv: "alu_inv i (Suc n) c"
    by (cases s) (auto simp: alu_state_def)
  have i: "i < 16" "length (gpr c) = 32"
    using at by (simp_all add: kernel_at_def alu_code_def)
  from alu_step [OF this inv] obtain j c' where
      "switch_dispatch (alu_code ! i) (c, m, pc + 4) = Inr (c', m, CODE_BASE + 4 * of_nat j)"
      "length (gpr c') = 32" "j < 16" and inv': "alu_inv j n c'"
    unfolding kernel_next [OF at] by blast
  with kernel_step [OF at, of c' m j] show "\<exists>s'. switch_step s = Inr s' \<and> alu_state m0 n s'"
    by (auto simp: s alu_state_def alu_code_def)
  show "pdx_run_ok m0 s"
    using kernel_run_ok [OF at] alu_exact [OF nth_mem, of i] i by (simp add: s alu_code_def)
qed


section \<open>Kernel 2: memory streaming\<close>

definition mem_code :: "u32 list" where
  "mem_code =
    [E_ADDIS 20 0 0x10, E_ADDIS 21 0 0x18, E_ADDI 3 0 0, E_ADDI 4 0 0, E_ADDIS 7 0 0x7FFF,
     E_ORI 7 7 0xFFFF, E_MTCTR 7, E_LWZX 6 20 3, E_ADD 4 4 6, E_STWX 4 21 3, E_LBZX 8 20 3,
     E_XOR 4 4 8, E_ADDI 3 3 4, E_ANDI_RC 3 3 0x3FFC, E_BDNZ (- 28)]"

lemma emit_mem: "emit_kernel_mem (m, CODE_BASE) = fold emit mem_code (m, CODE_BASE)"
  by (simp add: emit_kernel_mem_def mem_code_def emit_def Let_def layout)

lemma mem_exact: "w \<in> set mem_code \<Longrightarrow> pdx_exact w"
  by (auto simp: mem_code_def encoders pdx_exact_def P_RA_def)

definition mem_inv :: "nat \<Rightarrow> nat \<Rightarrow> ppc \<Rightarrow> bool" where
  "mem_inv i n c \<longleftrightarrow> n \<le> 0x7FFFFFFF
     \<and> (1 \<le> i \<longrightarrow> get_gpr c 20 = DATA_BASE) \<and> (2 \<le> i \<longrightarrow> get_gpr c 21 = STORE_BASE)
     \<and> (3 \<le> i \<longrightarrow> aligned4 (get_gpr c 3) \<and> (i \<noteq> 13 \<longrightarrow> unat (get_gpr c 3) \<le> 0x3FFC))
     \<and> (i = 5 \<longrightarrow> get_gpr c 7 = 0x7FFF0000) \<and> (i = 6 \<longrightarrow> get_gpr c 7 = 0x7FFFFFFF)
     \<and> (7 \<le> i \<longrightarrow> n < unat (ctr c))"

lemma window_address:
  assumes "aligned4 r" "unat r \<le> 0x3FFC"
  shows "aligned4 (DATA_BASE + r)" "aligned4 (STORE_BASE + r)" "unat (DATA_BASE + r) < unat RAM_SIZE"
    "unat (STORE_BASE + r) < unat RAM_SIZE" "0x100000 \<le> unat (STORE_BASE + r)"
proof -
  have "aligned4 DATA_BASE" "aligned4 STORE_BASE" by (simp_all add: layout aligned4_def)
  then show "aligned4 (DATA_BASE + r)" "aligned4 (STORE_BASE + r)"
    using assms(1) by (simp_all add: aligned4_add)
  show "unat (DATA_BASE + r) < unat RAM_SIZE" "unat (STORE_BASE + r) < unat RAM_SIZE" 
   "0x100000 \<le> unat (STORE_BASE + r)"
    using assms(2) by (simp_all add: layout unat_word_ariths)
qed

lemma window_wrap: "aligned4 (x AND 0x3FFC)" "unat (x AND 0x3FFC) \<le> (0x3FFC :: nat)"
  using and_le_unat [of x "0x3FFC"] by (simp_all add: aligned4_def word_bw_assocs)

lemma mem_step:
  assumes "i < 15" "length (gpr c) = 32" "mem_inv i (Suc n) c" "bench_env m"
  shows "\<exists>j c' m'. switch_dispatch (mem_code ! i) (c, m, CODE_BASE + 4 * of_nat (Suc i))
      = Inr (c', m', CODE_BASE + 4 * of_nat j) \<and> length (gpr c') = 32 \<and> j < 15 \<and> mem_inv j n c'
      \<and> code_same m m'"
proof -
  note simps = mem_code_def asm_d asm_x asm_mtctr mem_inv_def gprs Let_def base_or_zero_def sext16_def
   code_same_refl
  have win: "aligned4 (get_gpr c 3)" "unat (get_gpr c 3) \<le> 0x3FFC" 
     "get_gpr c 20 = DATA_BASE" "get_gpr c 21 = STORE_BASE" if "3 \<le> i" "i \<noteq> 13"
    using assms(3) that by (auto simp: mem_inv_def)
  consider (mem) "i \<in> {7, 9, 10}" | (andi) "i = 13" | (addi) "i = 12" | (loop) "i = 14" | (straight) "i < 7 \<or> i = 8 \<or> i = 11"
    using assms(1) by fastforce
  then show ?thesis
  proof cases
    case straight
    then have "i = 0 \<or> i = 1 \<or> i = 2 \<or> i = 3 \<or> i = 4 \<or> i = 5 \<or> i = 6 \<or> i = 8 \<or> i = 11" by presburger
    then show ?thesis
      using assms(2,3,4)
      by (elim disjE; intro exI [of _ "Suc i"])
        (simp_all add: simps layout aligned4_4)
  next
    case addi
    then show ?thesis
      using assms(2,3,4) aligned4_add [OF _ aligned4_4(1)]
      by (intro exI [of _ "Suc i"]) (simp add: simps layout)
  next
    case andi
    then show ?thesis
      using assms(2,3,4) window_wrap [of "get_gpr c 3"]
      by (intro exI [of _ "Suc i"]) (simp add: simps layout)
  next
    case mem
    then have w: "3 \<le> i" "i \<noteq> 13" by auto
    note adr = window_address [OF win(1,2) [OF w]]
    from bench_loads [OF assms(4) adr(1,3)] bench_stores(1) [OF assms(4) adr(2,5,4), of "get_gpr c 4"]
    show ?thesis
      using mem assms(2,3,4) win(3,4) [OF w]
      by (intro exI [of _ "Suc i"]) (auto simp: simps)
  next
    case loop
    then have "Suc n < unat (ctr c)" using assms(3) by (simp add: mem_inv_def)
    moreover from this have "ctr c \<noteq> 1" "unat (ctr c - 1) = unat (ctr c) - 1"
      by (auto simp: unat_sub word_le_nat_alt)
    ultimately show ?thesis using loop assms(2,3,4)
      by (intro exI [of _ 7]) (simp add: asm_bdnz simps layout)
  qed
qed

definition mem_state :: "mem_env \<Rightarrow> nat \<Rightarrow> ppc_local \<Rightarrow> bool" where
  "mem_state m0 n s \<longleftrightarrow> (\<exists>i. kernel_at mem_code m0 i s \<and> mem_inv i n (fst s))"

interpretation mem_kernel: sprint_progress switch_step "mem_state m0" "pdx_run_ok m0" for m0
proof unfold_locales
  fix n and s :: ppc_local
  assume "mem_state m0 (Suc n) s"
  then obtain i c m pc where s: "s = (c, m, pc)" and at: "kernel_at mem_code m0 i (c, m, pc)"
      and inv: "mem_inv i (Suc n) c"
    by (cases s) (auto simp: mem_state_def)
  have i: "i < 15" "length (gpr c) = 32" and m: "bench_env m"
    using at by (simp_all add: kernel_at_def mem_code_def)
  from mem_step [OF i inv m] obtain j c' m' where
      "switch_dispatch (mem_code ! i) (c, m, pc + 4) = Inr (c', m', CODE_BASE + 4 * of_nat j)"
      "length (gpr c') = 32" "j < 15" "mem_inv j n c'" "code_same m m'"
    unfolding kernel_next [OF at] by blast
  with kernel_step [OF at, of c' m' j] show "\<exists>s'. switch_step s = Inr s' \<and> mem_state m0 n s'"
    by (auto simp: s mem_state_def mem_code_def)
  show "pdx_run_ok m0 s"
    using kernel_run_ok [OF at] mem_exact [OF nth_mem, of i] i by (simp add: s mem_code_def)
qed

section \<open>Kernel 3: random straight-line stream\<close>

primrec seed_words :: "u32 list \<Rightarrow> u32 \<Rightarrow> u32 list" where
  "seed_words [] seed = []"
| "seed_words (r # rs) seed =
    (let v = lcg seed
     in E_ADDIS r 0 (drop_bit 16 v) # E_ORI r r (v AND 0xFFFF) # seed_words rs v)"

declare seed_words.simps [simp del]

primrec stress_words :: "nat \<Rightarrow> u32 \<Rightarrow> u32 list" where
  "stress_words 0 seed = []"
| "stress_words (Suc k) seed = (let r = lcg seed in stress_insn r (k = 0) # stress_words k r)"

definition stress_regs :: "u32 list" where
  "stress_regs = [3, 4, 5, 6, 7, 8, 9, 10, 11, 12]"

lemma stress_regs: "length stress_regs = 10" "r \<in> set stress_regs \<Longrightarrow> 3 \<le> unat r \<and> unat r \<le> 12"
  by (auto simp: stress_regs_def)

definition stress_code :: "u32 list" where
  "stress_code = seed_words stress_regs 0xC0FFEE01
     @ [E_ADDIS 20 0 0x10, E_ADDIS 21 0 0x18]
     @ stress_words STREAM_LEN ((lcg ^^ 10) 0xC0FFEE01) @ [E_B (- 0x10000)]"

lemma length_stress [simp]:
  "length (seed_words rs s) = 2 * length rs" "length (stress_words k s) = k"
  "length stress_code = 23 + STREAM_LEN"
proof -
  show *: "length (seed_words rs s) = 2 * length rs" for rs s
    by (induction rs arbitrary: s) (auto simp: seed_words.simps Let_def)
  show **: "length (stress_words k s) = k" for k s
    by (induction k arbitrary: s) (auto simp: Let_def)
  show "length stress_code = 23 + STREAM_LEN"
    by (simp add: stress_code_def stress_regs * **)
qed

lemma snd_emits: "snd (fold emit ws (m, a)) = a + 4 * of_nat (length ws)"
  by (induction ws arbitrary: m a) (simp_all add: emit_def algebra_simps)

lemma fold_stress_seed:
  "fold stress_seed rs (seed, s) = ((lcg ^^ length rs) seed, fold emit (seed_words rs seed) s)"
  by (induction rs arbitrary: seed s) (simp_all add: stress_seed_def seed_words.simps Let_def funpow_swap1)

lemma stress_stream_words: "stress_stream k seed s = fold emit (stress_words k seed) s"
  by (induction k arbitrary: seed s) (simp_all add: Let_def)

lemma emit_stress: "emit_kernel_stress (m, CODE_BASE) = fold emit stress_code (m, CODE_BASE)"
proof -
  let ?pre = "seed_words stress_regs 0xC0FFEE01 @ [E_ADDIS 20 0 0x10, E_ADDIS 21 0 0x18]"
  let ?s = "fold emit ?pre (m, CODE_BASE)"
  let ?t = "fold emit (stress_words STREAM_LEN ((lcg ^^ 10) 0xC0FFEE01)) ?s"
  have "snd ?t = snd ?s + 4 * of_nat STREAM_LEN"
    by (metis length_stress(2) prod.collapse snd_emits)
  then have "snd ?s - snd ?t = - 0x10000"
    by (simp add: STREAM_LEN_def)
  then show ?thesis
    by (simp add: emit_kernel_stress_def [folded stress_regs_def] fold_stress_seed stress_regs
      stress_stream_words stress_code_def Let_def layout)
qed

lemma seed_words_in:
  "w \<in> set (seed_words rs seed) \<Longrightarrow> \<exists>r\<in>set rs. \<exists>x. w = E_ADDIS r 0 x \<or> w = E_ORI r r x"
  by (induction rs arbitrary: seed) (auto simp: seed_words.simps Let_def)

lemma stress_words_nth: "k < n \<Longrightarrow> \<exists>r. stress_words n seed ! k = stress_insn r (Suc k = n)"
proof (induction n arbitrary: k seed)
  case (Suc n)
  then show ?case by (cases k) (auto simp: Let_def)
qed simp

text \<open>Word \<open>i\<close> of the kernel.\<close>

lemma stress_code_nth:
  "i < 20 \<Longrightarrow> \<exists>r x. 3 \<le> unat r \<and> unat r \<le> 12 \<and>
     (stress_code ! i = E_ADDIS r 0 x \<or> stress_code ! i = E_ORI r r x)"
  "stress_code ! 20 = E_ADDIS 20 0 0x10" "stress_code ! 21 = E_ADDIS 21 0 0x18"
  "k < STREAM_LEN \<Longrightarrow> \<exists>r. stress_code ! (22 + k) = stress_insn r (Suc k = STREAM_LEN)"
  "stress_code ! (22 + STREAM_LEN) = E_B (- 0x10000)"
proof -
  show "stress_code ! 20 = E_ADDIS 20 0 0x10" "stress_code ! 21 = E_ADDIS 21 0 0x18"
    by (simp_all add: stress_code_def nth_append stress_regs)
  show "stress_code ! (22 + STREAM_LEN) = E_B (- 0x10000)"
    by (simp add: stress_code_def nth_append stress_regs)
  show "\<exists>r. stress_code ! (22 + k) = stress_insn r (Suc k = STREAM_LEN)" if "k < STREAM_LEN"
    using stress_words_nth [OF that] that by (simp add: stress_code_def nth_append stress_regs)
  assume "i < 20"
  then have "stress_code ! i \<in> set (seed_words stress_regs 0xC0FFEE01)"
    by (auto simp: stress_code_def nth_append stress_regs intro!: nth_mem)
  from seed_words_in [OF this] 
  show "\<exists>r x. 3 \<le> unat r \<and> unat r \<le> 12 \<and>
     (stress_code ! i = E_ADDIS r 0 x \<or> stress_code ! i = E_ORI r r x)"
    using stress_regs(2) by blast
qed

text \<open>What every instruction of the stream does: it returns, keeps the two base registers and
  the code, and goes on to the next instruction or, unless it is the last, to the one after.\<close>

definition stress_ok :: "ppc \<Rightarrow> mem_env \<Rightarrow> bool \<Rightarrow> u32 \<Rightarrow> bool" where
  "stress_ok c m b w \<longleftrightarrow> pdx_exact w \<and> (\<forall>pc. \<exists>c' m' skip.
     switch_dispatch w (c, m, pc) = Inr (c', m', if skip then pc + 4 else pc) \<and> (skip \<longrightarrow> \<not> b)
     \<and> length (gpr c') = 32 \<and> get_gpr c' 20 = get_gpr c 20 \<and> get_gpr c' 21 = get_gpr c 21 \<and> code_same m m')"

lemma stress_okI:
  assumes "pdx_exact w"
    and "\<And>pc. switch_dispatch w (c, m, pc) = Inr (c', m', pc)"
    and "length (gpr c') = 32" "get_gpr c' 20 = get_gpr c 20" "get_gpr c' 21 = get_gpr c 21" "code_same m m'"
  shows "stress_ok c m b w"
  unfolding stress_ok_def
proof (intro conjI allI)
  fix pc
  show "\<exists>c' m' skip.
     switch_dispatch w (c, m, pc) = Inr (c', m', if skip then pc + 4 else pc) \<and> (skip \<longrightarrow> \<not> b)
     \<and> length (gpr c') = 32 \<and> get_gpr c' 20 = get_gpr c 20 \<and> get_gpr c' 21 = get_gpr c 21 \<and> code_same m m'"
    using assms(2-) by (intro exI [of _ c'] exI [of _ m'] exI [of _ False]) simp
qed fact

lemma exact_d: "unat op < 64 \<Longrightarrow> reg d \<Longrightarrow> reg a \<Longrightarrow> op \<notin> {27, 33, 37} \<Longrightarrow> pdx_exact (E_D op d a i)"
  by (simp add: pdx_exact_def E_D_fields)

lemma exact_x: "reg d \<Longrightarrow> reg a \<Longrightarrow> reg b \<Longrightarrow> unat xo < 1024 \<Longrightarrow> unat rc < 2 \<Longrightarrow> pdx_exact (E_X d a b xo rc)"
  by (simp add: pdx_exact_def E_X_fields)

lemma stress_reg: "3 \<le> unat (3 + x mod (10 :: u32)) \<and> unat (3 + x mod (10 :: u32)) \<le> 12"
proof -
  have "unat (x mod 10) < 10"
    using mod_less_divisor [of 10 "unat x"] by (simp add: unat_mod)
  then show ?thesis by (simp add: unat_word_ariths)
qed

lemma not_base: "unat r \<le> 12 \<Longrightarrow> r \<noteq> (20 :: u32) \<and> r \<noteq> 21 \<and> 20 \<noteq> r \<and> 21 \<noteq> r"
  by auto

lemma sext16_small:
  assumes "unat x < 0x8000" shows "sext16 x = x"
proof -
  have hi: "\<not> bit x n" if "15 \<le> n" for n
    using bit_high [of x 15 n] assms that by simp
  have lo: "n < 15" if "bit x n" for n
    using bit_low [of x 15 n] assms that by simp
  show ?thesis
    by (rule bit_word_eqI) (auto simp: sext16_def bit_simps hi min_def dest: lo)
qed

lemma window_offset:
  "aligned4 (x AND 0x7FC)" "unat (x AND 0x7FC) \<le> (0x3FFC :: nat)" "sext16 (x AND 0x7FC) = x AND 0x7FC"
proof -
  show "aligned4 (x AND 0x7FC)" by (simp add: aligned4_def word_bw_assocs)
  have *: "unat (x AND 0x7FC) \<le> (0x7FC :: nat)"
    using and_le_unat [of x "0x7FC"] by simp
  then show "unat (x AND 0x7FC) \<le> (0x3FFC :: nat)" by simp
  show "sext16 (x AND 0x7FC) = x AND 0x7FC"
    using * by (intro sext16_small) simp
qed

lemma stress_insn_ok:
  assumes m: "bench_env m" and len: "length (gpr c) = 32"
    and base: "get_gpr c 20 = DATA_BASE" "get_gpr c 21 = STORE_BASE"
  shows "stress_ok c m b (stress_insn r b)"
proof -
  note straight = stress_okI [where m = m and m' = m, OF _ _ _ _ _ code_same_refl [OF m]]
  note simps = len asm_x asm_d gprs exact_d exact_x
  have alu: "stress_ok c m b' (E_ADD d x y)" "stress_ok c m b' (E_SUBF d x y)" "stress_ok c m b' (E_XOR d x y)"
     "stress_ok c m b' (E_OR d x y)" "stress_ok c m b' (E_AND d x y)" "stress_ok c m b' (E_MULLW d x y)"
     "stress_ok c m b' (E_ADDI d x i)" "stress_ok c m b' (E_ADDIS d x i)" "stress_ok c m b' (E_MULLI d x i)"
     "stress_ok c m b' (E_CMPWI 7 x i)"
   if "unat d \<le> 12" "unat x \<le> 12" "unat y \<le> 12" for d x y i b'
  proof -
    have reg: "reg d" "reg x" "reg y" using that by simp_all
    note simps = simps reg not_base [OF that(1)]
    show "stress_ok c m b' (E_ADD d x y)"
      by (rule straight [OF _ asm_x(1) [OF reg]]) (simp_all add: E_ADD_def simps)
    show "stress_ok c m b' (E_SUBF d x y)"
      by (rule straight [OF _ asm_x(3) [OF reg]]) (simp_all add: E_SUBF_def simps)
    show "stress_ok c m b' (E_XOR d x y)"
      by (rule straight [OF _ asm_x(7) [OF reg]]) (simp_all add: E_XOR_def simps)
    show "stress_ok c m b' (E_OR d x y)"
      by (rule straight [OF _ asm_x(6) [OF reg]]) (simp_all add: E_OR_def simps)
    show "stress_ok c m b' (E_AND d x y)"
      by (rule straight [OF _ asm_x(5) [OF reg]]) (simp_all add: E_AND_def simps)
    show "stress_ok c m b' (E_MULLW d x y)"
      by (rule straight [OF _ asm_x(4) [OF reg]]) (simp_all add: E_MULLW_def simps)
    show "stress_ok c m b' (E_ADDI d x i)"
      by (rule straight [OF _ asm_d(1) [OF reg(1,2)]]) (simp_all add: E_ADDI_def simps)
    show "stress_ok c m b' (E_ADDIS d x i)"
      by (rule straight [OF _ asm_d(2) [OF reg(1,2)]]) (simp_all add: E_ADDIS_def simps)
    show "stress_ok c m b' (E_MULLI d x i)"
      by (rule straight [OF _ asm_d(3) [OF reg(1,2)]]) (simp_all add: E_MULLI_def simps)
    show "stress_ok c m b' (E_CMPWI 7 x i)"
      by (rule straight [OF _ asm_cmpwi [OF _ reg(2), unfolded Let_def]]) (simp_all add: E_CMPWI_def simps)
  qed
  have shifts: "stress_ok c m b' (E_SRAWI d x s)" "stress_ok c m b' (E_RLWINM d x s mb 31)"
   if "unat d \<le> 12" "unat x \<le> 12" "reg s" "reg mb" for d x s mb b'
  proof -
    have reg: "reg d" "reg x" "reg s" using that by simp_all
    note simps = simps reg that(4) not_base [OF that(1)]
    show "stress_ok c m b' (E_SRAWI d x s)"
      by (rule straight [OF _ asm_x(8) [OF reg, unfolded Let_def]]) (simp_all add: E_SRAWI_def simps)
    show "stress_ok c m b' (E_RLWINM d x s mb 31)"
      by (rule straight [OF _ asm_rlwinm [OF reg that(4)]])
        (simp_all add: pdx_exact_def E_RLWINM_fields simps)
  qed
  have loads: "stress_ok c m b' (E_LWZ d 20 (x AND 0x7FC))" "stress_ok c m b' (E_LHZ d 20 (x AND 0x7FC))"
     "stress_ok c m b' (E_LBZ d 20 (x AND 0x7FC))" if "unat d \<le> 12" for d x b'
  proof -
    have reg: "reg d" "reg 20" using that by simp_all
    note adr = window_address [OF window_offset(1,2) [of x]]
    note simps = simps reg not_base [OF that] base_or_zero_def base window_offset
    from bench_loads [OF m adr(1,3)] obtain v4 v2 v1 where
        v: "memory_read_uint32 m (DATA_BASE + (x AND 0x7FC)) = Inr v4"
          "memory_read_uint16 m (DATA_BASE + (x AND 0x7FC)) = Inr v2"
          "memory_read_uint8 m (DATA_BASE + (x AND 0x7FC)) = Inr v1" by blast
    show "stress_ok c m b' (E_LWZ d 20 (x AND 0x7FC))"
      by (rule straight [where c' = "set_gpr c d v4"]) (simp_all add: asm_d v simps, simp add: E_LWZ_def simps)
    show "stress_ok c m b' (E_LHZ d 20 (x AND 0x7FC))"
      by (rule straight [where c' = "set_gpr c d (ucast v2)"]) (simp_all add: asm_d v simps, simp add: E_LHZ_def simps)
    show "stress_ok c m b' (E_LBZ d 20 (x AND 0x7FC))"
      by (rule straight [where c' = "set_gpr c d (ucast v1)"]) (simp_all add: asm_d v simps, simp add: E_LBZ_def simps)
  qed
  have stores: "stress_ok c m b' (E_STW d 21 (x AND 0x7FC))" "stress_ok c m b' (E_STH d 21 (x AND 0x7FC))"
     "stress_ok c m b' (E_STB d 21 (x AND 0x7FC))" if "unat d \<le> 12" for d x b'
  proof -
    have reg: "reg d" "reg 21" using that by simp_all
    note adr = window_address [OF window_offset(1,2) [of x]]
    note simps = simps reg base_or_zero_def base window_offset
    from bench_stores(1) [OF m adr(2,5,4), of "get_gpr c d"] obtain m4 where 
      m4: "memory_write_uint32 m (STORE_BASE + (x AND 0x7FC)) (get_gpr c d) = Inr m4" "code_same m m4" by blast
    from bench_stores(2) [OF m adr(2,5,4), of "ucast (get_gpr c d)"] obtain m2 where 
      m2: "memory_write_uint16 m (STORE_BASE + (x AND 0x7FC)) (ucast (get_gpr c d)) = Inr m2" "code_same m m2" by blast
    from bench_stores(3) [OF m adr(2,5,4), of "ucast (get_gpr c d)"] obtain m1 where 
      m1: "memory_write_uint8 m (STORE_BASE + (x AND 0x7FC)) (ucast (get_gpr c d)) = Inr m1" "code_same m m1" by blast
    show "stress_ok c m b' (E_STW d 21 (x AND 0x7FC))"
      by (rule stress_okI [where c' = c, OF _ _ _ _ _ m4(2)]) (simp_all add: asm_d m4(1) simps, simp add: E_STW_def simps)
    show "stress_ok c m b' (E_STH d 21 (x AND 0x7FC))"
      by (rule stress_okI [where c' = c, OF _ _ _ _ _ m2(2)]) (simp_all add: asm_d m2(1) simps, simp add: E_STH_def simps)
    show "stress_ok c m b' (E_STB d 21 (x AND 0x7FC))"
      by (rule stress_okI [where c' = c, OF _ _ _ _ _ m1(2)]) (simp_all add: asm_d m1(1) simps, simp add: E_STB_def simps)
  qed
  have bc: "stress_ok c m False (E_BC bo (28 + (x AND 3)) 8)" if "bo = 12 \<or> bo = 4" for bo x
  proof -
    have "unat (x AND 3) \<le> (3 :: nat)"
      using and_le_unat [of x 3] by simp
    then have bi: "reg (28 + (x AND 3))" by (simp add: unat_word_ariths)
    have "reg bo" using that by auto
    with bi have "pdx_exact (E_BC bo (28 + (x AND 3)) 8)"
      by (simp add: pdx_exact_def E_BC_fields)
    then show ?thesis
      using len code_same_refl [OF m]
      by (auto simp: stress_ok_def asm_bc [OF bi that] sext16_def)
  qed
  have nine: "unat (3 + x mod (10 :: u32)) \<le> 12" for x
    using stress_reg [of x] by simp
  show ?thesis
    unfolding stress_insn_def Let_def
    by (simp add: alu [OF nine nine nine] shifts [OF nine nine and_31_less and_31_less]
      loads [OF nine] stores [OF nine] bc)
qed


definition stress_inv :: "nat \<Rightarrow> ppc \<Rightarrow> bool" where
  "stress_inv i c \<longleftrightarrow> (21 \<le> i \<longrightarrow> get_gpr c 20 = DATA_BASE) \<and> (22 \<le> i \<longrightarrow> get_gpr c 21 = STORE_BASE)"

lemma stress_step:
  assumes "i < 23 + STREAM_LEN" "length (gpr c) = 32" "stress_inv i c" "bench_env m"
  shows "pdx_exact (stress_code ! i)" and
    "\<exists>j c' m'. switch_dispatch (stress_code ! i) (c, m, CODE_BASE + 4 * of_nat (Suc i))
      = Inr (c', m', CODE_BASE + 4 * of_nat j) \<and> length (gpr c') = 32 \<and> j < 23 + STREAM_LEN
      \<and> stress_inv j c' \<and> code_same m m'"
proof -
  let ?X = "pdx_exact (stress_code ! i) \<and> (\<exists>j c' m'. switch_dispatch (stress_code ! i)
      (c, m, CODE_BASE + 4 * of_nat (Suc i))
      = Inr (c', m', CODE_BASE + 4 * of_nat j) \<and> length (gpr c') = 32 \<and> j < 23 + STREAM_LEN
      \<and> stress_inv j c' \<and> code_same m m')"
  note same = code_same_refl [OF assms(4)]
  have "i < 20 \<or> i = 20 \<or> i = 21 \<or> i = 22 + STREAM_LEN \<or> (\<exists>k < STREAM_LEN. i = 22 + k)"
    using assms(1) by presburger
  then consider (seed) "i < 20" | (base) "i = 20 \<or> i = 21" | (loop) "i = 22 + STREAM_LEN"
    | (stream) k where "i = 22 + k" "k < STREAM_LEN"
    by blast
  then have ?X
  proof cases
    case seed
    then obtain r x where r: "3 \<le> unat r" "unat r \<le> 12"
       "stress_code ! i = E_ADDIS r 0 x \<or> stress_code ! i = E_ORI r r x"
      using stress_code_nth(1) by blast
    have reg: "reg r" "reg 0" using r by simp_all
    have "pdx_exact (stress_code ! i)"
      using r(3) exact_d [OF _ reg] exact_d [OF _ reg(1) reg(1)] by (auto simp: E_ADDIS_def E_ORI_def)
    then show ?thesis
      using r(3) assms(2) seed same asm_d(2) [OF reg] asm_d(4) [OF reg(1) reg(1)]
      by (intro conjI exI [of _ "Suc i"]) (auto simp: stress_inv_def)
  next
    case base
    then show ?thesis
      using assms(2,3) same
      by (intro conjI exI [of _ "Suc i"])
        (auto simp: stress_code_nth(2,3) E_ADDIS_def exact_d asm_d(2) [unfolded E_ADDIS_def] stress_inv_def gprs
         base_or_zero_def sext16_def layout)
  next
    case loop
    have w: "stress_code ! i = 0x4BFF0000"
      using stress_code_nth(5) by (simp add: loop E_B_def)
    have pc: "CODE_BASE + 4 * of_nat (Suc i) = 0x1105C"
      by (simp add: loop STREAM_LEN_def layout)
    have "get_gpr c 20 = DATA_BASE" "get_gpr c 21 = STORE_BASE"
      using assms(3) by (simp_all add: loop stress_inv_def)
    then show ?thesis
      using assms(2) same unfolding pc w
      by (intro conjI exI [of _ 22])
        (simp_all add: pdx_exact_def switch_dispatch_def PPC_PRIMARY_def gen_b_def
          stress_inv_def layout)
  next
    case stream
    from stress_code_nth(4) [OF stream(2)] obtain r where
      r: "stress_code ! i = stress_insn r (Suc k = STREAM_LEN)" by (auto simp: stream(1))
    have "get_gpr c 20 = DATA_BASE" "get_gpr c 21 = STORE_BASE"
      using assms(3) stream(1) by (simp_all add: stress_inv_def)
    note ok = stress_insn_ok [OF assms(4,2) this, of "Suc k = STREAM_LEN" r, unfolded stress_ok_def]
    from ok obtain c' m' skip where 
      s: "switch_dispatch (stress_insn r (Suc k = STREAM_LEN)) (c, m, CODE_BASE + 4 * of_nat (Suc i))
        = Inr (c', m', if skip then CODE_BASE + 4 * of_nat (Suc i) + 4 else CODE_BASE + 4 * of_nat (Suc i))"
      "skip \<longrightarrow> Suc k \<noteq> STREAM_LEN" "length (gpr c') = 32" "get_gpr c' 20 = get_gpr c 20" "get_gpr c' 21 = get_gpr c 21" 
      "code_same m m'" by blast
    let ?j = "if skip then Suc (Suc i) else Suc i"
    have "CODE_BASE + 4 * of_nat (Suc i) + 4 = CODE_BASE + 4 * of_nat (Suc (Suc i))"
      by (simp add: algebra_simps)
    with s(1) have "switch_dispatch (stress_code ! i) (c, m, CODE_BASE + 4 * of_nat (Suc i))
        = Inr (c', m', CODE_BASE + 4 * of_nat ?j)"
      by (simp add: r split: if_splits)
    moreover have "?j < 23 + STREAM_LEN"
      using stream s(2) by auto
    moreover have "stress_inv ?j c'"
      using s(4,5) assms(3) stream(1) by (auto simp: stress_inv_def)
    moreover have "pdx_exact (stress_code ! i)"
      using ok by (simp add: r)
    ultimately show ?thesis
      using s(3,6) by blast
  qed
  then show "pdx_exact (stress_code ! i)" and
    "\<exists>j c' m'. switch_dispatch (stress_code ! i) (c, m, CODE_BASE + 4 * of_nat (Suc i))
      = Inr (c', m', CODE_BASE + 4 * of_nat j) \<and> length (gpr c') = 32 \<and> j < 23 + STREAM_LEN
      \<and> stress_inv j c' \<and> code_same m m'" by blast+
qed


definition stress_state :: "mem_env \<Rightarrow> nat \<Rightarrow> ppc_local \<Rightarrow> bool" where
  "stress_state m0 n s \<longleftrightarrow> (\<exists>i. kernel_at stress_code m0 i s \<and> stress_inv i (fst s))"

interpretation stress_kernel: sprint_progress switch_step "stress_state m0" "pdx_run_ok m0" for m0
proof unfold_locales
  fix n and s :: ppc_local
  assume "stress_state m0 (Suc n) s"
  then obtain i c m pc where s: "s = (c, m, pc)" and at: "kernel_at stress_code m0 i (c, m, pc)"
      and inv: "stress_inv i c"
    by (cases s) (auto simp: stress_state_def)
  have i: "i < 23 + STREAM_LEN" "length (gpr c) = 32" and m: "bench_env m"
    using at by (simp_all add: kernel_at_def)
  from stress_step(2) [OF i inv m] obtain j c' m' where
      "switch_dispatch (stress_code ! i) (c, m, pc + 4) = Inr (c', m', CODE_BASE + 4 * of_nat j)"
      "length (gpr c') = 32" "j < 23 + STREAM_LEN" "stress_inv j c'" "code_same m m'"
    unfolding kernel_next [OF at] by blast
  with kernel_step [OF at, of c' m' j] show "\<exists>s'. switch_step s = Inr s' \<and> stress_state m0 n s'"
    by (auto simp: s stress_state_def)
  show "pdx_run_ok m0 s"
    using kernel_run_ok [OF at] stress_step(1) [OF i inv m] by (simp add: s)
qed

end
