(* ===== verification/PPC_Selfcheck.thy ===== *)
theory PPC_Selfcheck
  imports PPC_Kernels
begin

text \<open>
  From the kernels to the main program of \<open>src/ppc/bench_main.c\<close>: setting up a kernel
  leads to a state of its invariant, so all six backends return the same state on it,
  whatever ran before; the hashes the self check compares are therefore equal, and the
  program exits with status 0.
\<close>

section \<open>What a run leaves alone\<close>

text \<open>No instruction writes outside RAM.\<close>

interpretation ram_kept: sprint_invariant switch_step "\<lambda>_. True" "\<lambda>(c, m, pc). ram_only M m" for M
proof unfold_locales
  fix s s' :: ppc_local
  assume "case s of (c, m, pc) \<Rightarrow> ram_only M m" "switch_step s = Inr s'"
  then show "case s' of (c, m, pc) \<Rightarrow> ram_only M m"
    using switch_step_store [of "fst s" "fst (snd s)" "snd (snd s)" "fst s'" "fst (snd s')" "snd (snd s')"]
      memory_store_outside [of "fst (snd s)" _ "fst (snd s')"]
    by (cases s, cases s') (auto split: option.splits)
qed


section \<open>Setting up a run\<close>

lemma emits_ram:
  assumes "aligned4 a" "unat a + 4 * length ws \<le> 0x100000" "ram_only M m"
  shows "ram_only M (fst (fold emit ws (m, a)))"
  using assms
proof (induction ws arbitrary: m a)
  case (Cons w ws)
  have "unat (a + 4) = unat a + 4"
    using Cons.prems(2) by (simp add: unat_word_ariths)
  moreover have "ram_memset (poke32 m a w) = ram_memset m"
    using Cons.prems(2) by (intro ram_memset_pokes) (simp add: layout)
  ultimately show ?case
    using Cons.prems Cons.IH [of "a + 4" "poke32 m a w"]
    by (simp add: emit_def aligned4_add aligned4_4)
qed simp

definition kernel_code :: "nat \<Rightarrow> u32 list" where
  "kernel_code k = (if k = 0 then alu_code else if k = 1 then mem_code else stress_code)"

definition kernel_state :: "nat \<Rightarrow> mem_env \<Rightarrow> nat \<Rightarrow> ppc_local \<Rightarrow> bool" where
  "kernel_state k = (if k = 0 then alu_state else if k = 1 then mem_state else stress_state)"

lemma setup_kernel_emits:
  "setup_kernel k m = (ppc_reset\<lparr>ppc_pc := CODE_BASE\<rparr>,
    fst (fold emit (kernel_code k) (fill_window (ram_memset m), CODE_BASE)))"
  by (simp add: setup_kernel_def kernel_code_def emit_alu emit_mem emit_stress Let_def
    split: prod.split)

lemma kernel_code_length: "0 < length (kernel_code k) \<and> length (kernel_code k) < 0xF000"
proof -
  have "length (kernel_code k) = (if k = 0 then 16 else if k = 1 then 15 else 16407)"
    by (simp add: kernel_code_def alu_code_def mem_code_def STREAM_LEN_def)
  then show ?thesis by simp
qed

lemma setup_kernel_ok:
  assumes "bench_env m" "setup_kernel k m = (c, m1)" "n \<le> 0x7FFFFFFF"
  shows "kernel_state k m1 n (c, m1, ppc_pc c)" "ram_only (ram_memset m) m1"
    "zero_base c = 0" "aligned4 (ppc_pc c)"
proof -
  have c: "c = ppc_reset\<lparr>ppc_pc := CODE_BASE\<rparr>"
    and m1: "m1 = fst (fold emit (kernel_code k) (fill_window (ram_memset m), CODE_BASE))"
    using assms(2) by (auto simp: setup_kernel_emits)
  have al: "aligned4 CODE_BASE" by (simp add: aligned4_def layout)
  have fits: "unat CODE_BASE + 4 * length (kernel_code k) \<le> 0x100000"
    using kernel_code_length [of k] by (simp add: layout)
  have m0: "ram_only (ram_memset m) (fill_window (ram_memset m))"
    using assms(1) by (simp add: fill_window_frame(1) fill_window_ram ram_memset_idem)
  show "ram_only (ram_memset m) m1"
    unfolding m1 by (rule emits_ram [OF al fits m0])
  have "code_words (kernel_code k) m1"
    using emits [OF prod.collapse [symmetric] al fits, of "fill_window (ram_memset m)"] m0
    unfolding m1 code_words_def by blast
  with \<open>ram_only (ram_memset m) m1\<close>
  have at: "kernel_at (kernel_code k) m1 0 (c, m1, ppc_pc c)"
    using kernel_code_length [of k] by (simp add: kernel_at_def c ppc_reset_def)
  then show "kernel_state k m1 n (c, m1, ppc_pc c)"
    using assms(3)
    by (auto simp: kernel_state_def kernel_code_def alu_state_def mem_state_def stress_state_def
      alu_inv_def mem_inv_def stress_inv_def split: if_splits intro!: exI [of _ 0])
  show "zero_base c = 0" "aligned4 (ppc_pc c)"
    using al by (simp_all add: c ppc_reset_def)
qed

text \<open>A run of a kernel returns, and every instruction of it is one the backends agree on.\<close>

lemma kernel_run:
  assumes "kernel_state k m1 n s"
  shows "\<exists>s'. sprint switch_step n s = Inr s'" "stays (pdx_run_ok m1) switch_step n s"
proof -
  consider "alu_state m1 n s" | "mem_state m1 n s" | "stress_state m1 n s"
    using assms by (auto simp: kernel_state_def split: if_splits)
  then have "(\<exists>s'. sprint switch_step n s = Inr s') \<and> stays (pdx_run_ok m1) switch_step n s"
    using alu_kernel.sprint_total alu_kernel.stays_good mem_kernel.sprint_total
      mem_kernel.stays_good stress_kernel.sprint_total stress_kernel.stays_good
    by cases blast+
  then show "\<exists>s'. sprint switch_step n s = Inr s'" "stays (pdx_run_ok m1) switch_step n s"
    by blast+
qed

section \<open>All backends on a kernel\<close>

definition tables_ok :: "ppc_tables \<Rightarrow> bool" where
  "tables_ok t \<longleftrightarrow> length (g_pd t) = PD_ENTRIES \<and> length (pdx8_tab t) = PD_ENTRIES
     \<and> length (pdx16_tab t) = PD_ENTRIES"

lemma backends_on_kernel:
  assumes "bench_env m" "setup_kernel k m = (c, m1)" "unat n \<le> 0x7FFFFFFF"
  shows "\<exists>c' m'. ppc_run_switch c m1 n = Inr (c', m') \<and> ram_only (ram_memset m) m' \<and>
    (\<forall>f\<in>set g_backends. \<forall>t. tables_ok t \<longrightarrow> (\<exists>t'. tables_ok t' \<and> f c (m1, t) n = Inr (c', m', t')))"
proof -
  note ok = setup_kernel_ok [OF assms]
  from kernel_run(1) [OF ok(1)] obtain c2 m2 pc2
    where sprint: "sprint switch_step (unat n) (c, m1, ppc_pc c) = Inr (c2, m2, pc2)"
    by fastforce
  then obtain c' where sw: "ppc_run_switch c m1 n = Inr (c', m2)"
    by (auto simp: ppc_run_switch_def)
  have "stays (\<lambda>_. True) switch_step (unat n) (c, m1, ppc_pc c)"
    by (rule stays_mono [OF _ kernel_run(2) [OF ok(1)]]) simp
  with sprint ok(2) ram_kept.sprint_inv [of "ram_memset m" "(c, m1, ppc_pc c)" "unat n" "(c2, m2, pc2)"]
  have kept: "ram_only (ram_memset m) m2" by auto
  have stays: "stays (pdx_run_ok m1) switch_step (unat n) (c, m1, ppc_pc c)"
    by (rule kernel_run(2) [OF ok(1)])
  then have fetch: "stays (fetch_ok m1) switch_step (unat n) (c, m1, ppc_pc c)"
    by (rule stays_mono [rotated]) (simp add: pdx_run_ok_def)
  have reg: "region_mapped m1" using ok(2) by (simp add: bench_region)
  have "\<exists>t'. tables_ok t' \<and> f c (m1, t) n = Inr (c', m2, t')" if "f \<in> set g_backends" "tables_ok t" for f t
  proof -
    note prems = that
    obtain t1 t2 t3 where
      "length t1 = PD_ENTRIES" "ppc_run_pd (g_pd t) c m1 n = Inr (c', m2, t1)"
      "length t2 = PD_ENTRIES" "ppc_run_pdx8 (pdx8_tab t) c m1 n = Inr (c', m2, t2)"
      "length t3 = PD_ENTRIES" "ppc_run_pdx16 (pdx16_tab t) c m1 n = Inr (c', m2, t3)"
      using prems(2) run_pd_eq [OF _ reg fetch, of "g_pd t"] sw
        run_pdx_Inr [OF _ reg ok(3,4) stays sw, of "pdx8_tab t" False]
        run_pdx_Inr [OF _ reg ok(3,4) stays sw, of "pdx16_tab t" True]
      by (auto simp: tables_ok_def ppc_run_pdx8_def ppc_run_pdx16_def)
    with prems sw show ?thesis
      by (auto simp: g_backends_def run_call_eq run_tail_eq tables_ok_def)
  qed
  with sw kept show ?thesis by blast
qed


section \<open>The main program\<close>

text \<open>All runs of a round hash alike, and the round leaves RAM as resetting it finds it.\<close>

lemma run_all_agree:
  assumes "unat n \<le> 0x7FFFFFFF"
  shows "\<exists>h. \<forall>m t. ram_only M m \<longrightarrow> tables_ok t \<longrightarrow> set fs \<subseteq> set g_backends \<longrightarrow>
    (\<exists>m' t'. run_all k n fs (m, t) = Inr (replicate (length fs) h, m', t') \<and> ram_only M m' \<and> tables_ok t')"
proof (cases "\<exists>m. ram_only M m")
  case False
  then show ?thesis by blast
next
  case True
  then obtain m0 where m0: "ram_only M m0" by blast
  obtain c m1 where su: "setup_kernel k m0 = (c, m1)" by fastforce
  have setup_M: "setup_kernel k m = (c, m1)" if "ram_only M m" for m
    using that su m0 by (simp add: setup_kernel_emits)
  obtain c' m' where run: "ram_only M m'"
      "\<And>f t. f \<in> set g_backends \<Longrightarrow> tables_ok t \<Longrightarrow> \<exists>t'. tables_ok t' \<and> f c (m1, t) n = Inr (c', m', t')"
    using backends_on_kernel [OF conjunct1 [OF m0] su assms] m0 by blast
  have "\<exists>m'' t''. run_all k n fs (m, t) = Inr (replicate (length fs) (state_hash c' m'), m'', t'')
      \<and> ram_only M m'' \<and> tables_ok t''"
    if "ram_only M m" "tables_ok t" "set fs \<subseteq> set g_backends" for m t
    using that
  proof (induction fs arbitrary: m t)
    case (Cons f fs)
    from Cons.prems run(2) [of f t] obtain t' where t': "tables_ok t'" "f c (m1, t) n = Inr (c', m', t')"
      by auto
    from Cons.IH [OF run(1) t'(1)] Cons.prems obtain m'' t'' where
      "run_all k n fs (m', t') = Inr (replicate (length fs) (state_hash c' m'), m'', t'')"
      "ram_only M m''" "tables_ok t''" by auto
    with t'(2) setup_M [OF Cons.prems(1)] show ?case by (simp add: Let_def)
  qed simp
  then show ?thesis by blast
qed

lemma diverged_replicate: "diverged (replicate n h) = None"
  by (auto simp: diverged_def find_None_iff)

lemma timed_reps_ok:
  assumes "unat n \<le> 0x7FFFFFFF" "ram_only M m" "tables_ok t"
  shows "\<exists>m' t'. timed_reps r k n (m, t) = Inr (m', t') \<and> ram_only M m' \<and> tables_ok t'"
  using assms(2,3)
proof (induction r arbitrary: m t)
  case (Suc r)
  from run_all_agree [OF assms(1), of M g_backends k] Suc.prems obtain m1 t1 h where
    "run_all k n g_backends (m, t) = Inr (h, m1, t1)" "ram_only M m1" "tables_ok t1"
    by blast
  with Suc.IH show ?case by simp
qed simp

lemma bench_kernel_ok:
  assumes "unat n \<le> 0x7FFFFFFF" "ram_only M m" "tables_ok t"
  shows "\<exists>m' t'. bench_kernel k n reps (m, t) = Inr (None, m', t') \<and> ram_only M m' \<and> tables_ok t'"
proof -
  have budgets: "unat verify_budget \<le> 0x7FFFFFFF" "unat (n div 2) \<le> 0x7FFFFFFF"
    using assms(1) by (simp_all add: verify_budget_def unat_div)
  from run_all_agree [OF budgets(1), of M g_backends k] assms(2,3) obtain h m1 t1 where
    1: "run_all k verify_budget g_backends (m, t) = Inr (replicate (length g_backends) h, m1, t1)"
      "ram_only M m1" "tables_ok t1"
    by blast
  from run_all_agree [OF budgets(2), of M g_backends k] 1(2,3) obtain h2 m2 t2 where
    2: "run_all k (n div 2) g_backends (m1, t1) = Inr (h2, m2, t2)" "ram_only M m2" "tables_ok t2"
    by blast
  from timed_reps_ok [OF assms(1) 2(2,3)] obtain m3 t3 where
    "timed_reps reps k n (m2, t2) = Inr (m3, t3)" "ram_only M m3" "tables_ok t3" by blast
  with 1 2 show ?thesis
    by (simp add: bench_kernel_def diverged_replicate)
qed

lemma bench_kernels_ok:
  assumes "unat n \<le> 0x7FFFFFFF" "ram_only M m" "tables_ok t"
  shows "bench_kernels ks n reps (m, t) = Inr 0"
  using assms(2,3)
proof (induction ks arbitrary: m t)
  case (Cons k ks)
  with bench_kernel_ok [OF assms(1) Cons.prems, of k reps] show ?case by auto
qed simp

lemma bench_main_ok:
  assumes "unat n \<le> 0x7FFFFFFF" "tables_ok t" "ram \<noteq> 0" "rd \<noteq> 0" "wr \<noteq> 0"
  shows "bench_main n reps (ram, rd, wr) (m, t) = Inr 0"
proof -
  obtain m1 where "mem_env_init RAM_SIZE (ram, rd, wr) m = Inr m1" "bench_env m1"
    using mem_env_init_bench_env [OF assms(3-5)] by blast
  with bench_kernels_ok [OF assms(1) _ assms(2)] show ?thesis
    by (simp add: bench_main_def del: bench_kernels.simps)
qed

end
