(* ===== verification/PPC_Invariants.thy ===== *)
theory PPC_Invariants
  imports PPC_Runs
begin

text \<open>
  The type invariant of the PowerPC state (32 registers, \<open>zero_base\<close> 0, a carry of 0 or 1),
  which every instruction and every run keeps; the register offsets of the pre-extracted
  entries, which stay inside the register file; and the two places where backends E and F
  do something else than the other four.
\<close>

section \<open>Well-formed states\<close>

definition ppc_wf :: "ppc \<Rightarrow> bool" where
  "ppc_wf c \<longleftrightarrow> length (gpr c) = 32 \<and> zero_base c = 0 \<and> flag (xer_ca c)"

lemma xer_simps [simp]:
  "xer_ca (set_gpr c r v) = xer_ca c" "xer_ca (set_crf c f b) = xer_ca c"
  "xer_ca (record0 c v) = xer_ca c"
  by (simp_all add: set_gpr_def set_crf_def record0_def Let_def)

lemma ppc_wf_updates [simp]:
  "unat r < 32 \<Longrightarrow> ppc_wf (set_gpr c r v) = ppc_wf c" "ppc_wf (set_crf c f b) = ppc_wf c"
  "ppc_wf (record0 c v) = ppc_wf c" "ppc_wf (c\<lparr>lr := v\<rparr>) = ppc_wf c"
  "ppc_wf (c\<lparr>ctr := v\<rparr>) = ppc_wf c" "ppc_wf (c\<lparr>ppc_pc := v\<rparr>) = ppc_wf c"
  "ppc_wf c \<Longrightarrow> ppc_wf (c\<lparr>xer_ca := c_bool p\<rparr>)"
  by (simp_all add: ppc_wf_def)

lemma bc_taken_wf: "bc_taken c insn a = (c', t) \<Longrightarrow> ppc_wf c \<Longrightarrow> ppc_wf c'"
  by (auto simp: bc_taken_def Let_def split: if_splits)

lemma branch_wf:
  "gen_b c insn pc = (c', pc') \<Longrightarrow> ppc_wf c \<Longrightarrow> ppc_wf c'"
  "gen_bc c insn pc = (c', pc') \<Longrightarrow> ppc_wf c \<Longrightarrow> ppc_wf c'"
  "do_op19 c insn pc = Inr (c', pc') \<Longrightarrow> ppc_wf c \<Longrightarrow> ppc_wf c'"
  by (auto simp: gen_b_def gen_bc_def do_op19_def do_bclr_def do_bcctr_def ppc_illegal_def Let_def
    dest: bc_taken_wf split: prod.splits if_splits)

lemma op31_wf: "op31_stmt op insn c m = Inr (c', m') \<Longrightarrow> ppc_wf c \<Longrightarrow> ppc_wf c'"
  by (cases op) (auto simp: fields gen_cmp_def gen_xo_arith_def gen_x_logic_def gen_srawi_def
    gen_load_x_def gen_store_x_def gen_mspr_def ppc_illegal_def Let_def bindE_Inr_iff split: if_splits)

lemma prim_wf: "prim_stmt op insn (c, m, pc) = Inr (c', m', pc') \<Longrightarrow> ppc_wf c \<Longrightarrow> ppc_wf c'"
  by (cases op) (auto simp: fields gen_mulli_def gen_cmp_def gen_addi_def gen_logic_d_def gen_rlwinm_def
    gen_load_d_def gen_store_d_def do_op31_def ppc_illegal_def Let_def bindE_Inr_iff
    dest: op31_wf branch_wf split: if_splits prod.splits option.splits)

lemma switch_step_wf: "switch_step (c, m, pc) = Inr (c', m', pc') \<Longrightarrow> ppc_wf c \<Longrightarrow> ppc_wf c'"
  by (auto simp: switch_step_def switch_dispatch_def ppc_illegal_def bindE_Inr_iff
    dest: prim_wf split: option.splits)

interpretation wf_ppc: sprint_invariant switch_step "\<lambda>_. True" "\<lambda>(c, m, pc). ppc_wf c"
  by unfold_locales (auto dest: switch_step_wf)

lemma run_switch_wf:
  assumes "ppc_wf c" "ppc_run_switch c m n = Inr (c', m')" shows "ppc_wf c'"
  using assms wf_ppc.sprint_inv [of "(c, m, ppc_pc c)" "unat n"]
  by (auto simp: ppc_run_switch_def bindE_Inr_iff)

section \<open>The offsets of pre-extracted entries\<close>

definition gpr_off :: "u32 \<Rightarrow> bool" where
  "gpr_off x \<longleftrightarrow> 4 dvd unat x \<and> unat x \<le> 124"

text \<open>Which fields of an entry a handler reads and writes as register offsets. \<open>uses_base\<close>: the
  loads and stores whose \<open>b\<close> is the base \<open>rA|0\<close>.\<close>

definition reads_a :: "pdx_id \<Rightarrow> bool" where
  "reads_a i \<longleftrightarrow> i \<in> {PDX_CMPWI, PDX_CMPLWI, PDX_CMPW, PDX_CMPLW, PDX_STW, PDX_STH, PDX_STB, PDX_STWU,
     PDX_STWX, PDX_STHX, PDX_STBX, PDX_MTCTR, PDX_MTLR}"

definition uses_none :: "pdx_id \<Rightarrow> bool" where
  "uses_none i \<longleftrightarrow> i \<in> {PDX_ILLEGAL, PDX_B, PDX_BDNZ, PDX_BC_T, PDX_BC_F, PDX_B_GEN, PDX_BC_GEN, PDX_OP19_GEN}"

definition writes_a :: "pdx_id \<Rightarrow> bool" where
  "writes_a i \<longleftrightarrow> \<not> reads_a i \<and> \<not> uses_none i"

definition writes_b :: "pdx_id \<Rightarrow> bool" where
  "writes_b i \<longleftrightarrow> i \<in> {PDX_LWZU, PDX_STWU}"

definition uses_base :: "pdx_id \<Rightarrow> bool" where
  "uses_base i \<longleftrightarrow> i \<in> {PDX_LWZ, PDX_LHZ, PDX_LBZ, PDX_STW, PDX_STH, PDX_STB, PDX_LWZX, PDX_LHZX, PDX_LBZX,
     PDX_STWX, PDX_STHX, PDX_STBX}"

definition reads_b :: "pdx_id \<Rightarrow> bool" where
  "reads_b i \<longleftrightarrow> \<not> uses_none i \<and> \<not> uses_base i \<and> i \<notin> {PDX_LI, PDX_SRAWI, PDX_SRAWI_RC, PDX_CMPWI, PDX_CMPLWI, PDX_CMPW,
     PDX_CMPLW, PDX_MTCTR, PDX_MTLR, PDX_MFCTR, PDX_MFLR}"

definition reads_c :: "pdx_id \<Rightarrow> bool" where
  "reads_c i \<longleftrightarrow> i \<in> {PDX_ADD, PDX_ADD_RC, PDX_SUBF, PDX_SUBF_RC, PDX_MULLW, PDX_MULLW_RC, PDX_AND,
     PDX_AND_RC, PDX_OR, PDX_OR_RC, PDX_XOR, PDX_XOR_RC, PDX_SLW, PDX_SRW, PDX_SRAWI, PDX_SRAWI_RC,
     PDX_CMPW, PDX_CMPLW, PDX_LWZX, PDX_LHZX, PDX_LBZX, PDX_STWX, PDX_STHX, PDX_STBX}"

text \<open>The entry of an instruction word: the base is \<open>ZERO_OFF\<close> exactly when \<open>rA\<close> is 0.\<close>

definition offsets_ok :: "u32 \<Rightarrow> pdx_ent \<Rightarrow> bool" where
  "offsets_ok insn e \<longleftrightarrow>
    (reads_a (pdx_id e) \<or> writes_a (pdx_id e) \<longrightarrow> gpr_off (ucast (pdx_a e))) \<and>
    (reads_b (pdx_id e) \<or> writes_b (pdx_id e) \<longrightarrow> gpr_off (ucast (pdx_b e))) \<and>
    (uses_base (pdx_id e) \<longrightarrow> pdx_b e = (if P_RA insn \<noteq> 0 then RO (P_RA insn) else ZERO_OFF)) \<and>
    (reads_c (pdx_id e) \<longrightarrow> gpr_off (pdx_c e))"

lemma RO_off [simp]: "gpr_off (ucast (RO (P_RD insn)))" "gpr_off (ucast (RO (P_RA insn)))"
  "gpr_off (ucast (RO (P_RB insn)))"
proof -
  have "gpr_off (ucast (RO r))" if "unat r < 32" for r
    using that by (simp add: gpr_off_def RO_def unsigned_ucast_eq unat_word_ariths take_bit_eq_mod)
  then show "gpr_off (ucast (RO (P_RD insn)))" "gpr_off (ucast (RO (P_RA insn)))"
    "gpr_off (ucast (RO (P_RB insn)))"
    by (simp_all add: fields)
qed

lemma unat_RO: "unat r < 32 \<Longrightarrow> unat (RO r) = 4 * unat r"
  by (simp add: RO_def unsigned_ucast_eq unat_word_ariths take_bit_eq_mod)

lemmas pdx_uses = reads_a_def writes_a_def uses_none_def writes_b_def uses_base_def reads_b_def reads_c_def

lemma if_intro:
  "(b \<Longrightarrow> offsets_ok w x) \<Longrightarrow> (\<not> b \<Longrightarrow> offsets_ok w y) \<Longrightarrow> offsets_ok w (if b then x else y)"
  by simp

lemma offsets_ok_ent:
  "offsets_ok insn (pdx_blank w)"
  "offsets_ok insn (pdx_ent_abc i a b c) \<longleftrightarrow>
    (reads_a i \<or> writes_a i \<longrightarrow> gpr_off (ucast a)) \<and> (reads_b i \<or> writes_b i \<longrightarrow> gpr_off (ucast b)) \<and>
    (uses_base i \<longrightarrow> b = (if P_RA insn \<noteq> 0 then RO (P_RA insn) else ZERO_OFF)) \<and> (reads_c i \<longrightarrow> gpr_off c)"
  by (simp_all add: offsets_ok_def pdx_blank_def pdx_ent_abc_def pdx_uses)

lemma pdx_decode_bc_offsets: "offsets_ok insn (pdx_decode_bc a insn)"
  by (auto simp: pdx_decode_bc_def Let_def offsets_ok_def pdx_blank_def pdx_uses)

lemma pdx_decode_31_offsets: "offsets_ok insn (pdx_decode_31 insn)"
  unfolding pdx_decode_31_def Let_def
  by (intro if_intro) (simp_all add: offsets_ok_ent pdx_uses, simp_all add: offsets_ok_def pdx_blank_def pdx_uses)

lemma pdx_decode_offsets: "offsets_ok insn (pdx_decode wide a insn)"
  unfolding pdx_decode_def Let_def
  by (intro if_intro pdx_decode_bc_offsets pdx_decode_31_offsets)
    (simp_all add: offsets_ok_ent pdx_uses, simp_all add: offsets_ok_def pdx_blank_def pdx_uses)

text \<open>So no handler writes past the register file: \<open>zero_base\<close> stays what it is.\<close>

lemma zero_base_set_gpro: "gpr_off off \<Longrightarrow> zero_base (set_gpro c off v) = zero_base c"
  by (auto simp: gpr_off_def set_gpro_def Let_def)

lemma pdx_handler_zero_base:
  assumes "offsets_ok insn e" "pdx_handler (pdx_id e) wide e (c, m, cur) = Inr (c', m', cur')"
  shows "zero_base c' = zero_base c"
proof -
  have a: "zero_base (set_gpro c (ucast (pdx_a e)) v) = zero_base c" if "writes_a (pdx_id e)" for c v
    using assms(1) that by (simp add: offsets_ok_def zero_base_set_gpro)
  have b: "zero_base (set_gpro c (ucast (pdx_b e)) v) = zero_base c" if "writes_b (pdx_id e)" for c v
    using assms(1) that by (simp add: offsets_ok_def zero_base_set_gpro)
  show ?thesis
    using assms(2) a b zero_base_branch [of c "pdx_c e" "gen_pc cur"]
    by (cases "pdx_id e") (auto simp: pdx_uses to_a_def to_b_def to_a_rc_def pdx_srawi_def pdx_rlwinm_def
      pdx_cmp_def pdx_cmpl_def put_cr_bits_def ppc_illegal_def Let_def bindE_Inr_iff do_op19_def
      split: if_splits prod.splits)
qed

section \<open>Where the pre-extracting backends differ\<close>

lemma xoris_differs:
  assumes "drop_bit 26 insn = 27"
  shows "switch_dispatch insn (c, m, pc) = Inl (Illegal insn (ppc_pc c))"
    "pdx_handler (pdx_id (pdx_decode wide a insn)) wide (pdx_decode wide a insn) (c, m, cur) =
      Inr (set_gpr c (P_RA insn) (get_gpr c (P_RD insn) XOR push_bit 16 (insn AND 0xFFFF)), m, cur + 1)"
  using assms by (simp_all add: switch_dispatch_def PPC_PRIMARY_def ppc_illegal_def pdx_decode_def
    Let_def pdx_simps)

text \<open>The whole run on such a word: the raw-word backends stop, the pre-extracting ones go on.\<close>

lemma xoris_switch_run:
  assumes "drop_bit 26 insn = 27" "memory_read_uint32 m (ppc_pc c) = Inr insn" "budget \<noteq> 0"
  shows "ppc_run_switch c m budget = Inl (Illegal insn (ppc_pc c))"
proof -
  obtain n where n: "unat budget = Suc n" using assms(3) by (cases "unat budget") (simp_all add: unat_eq_0)
  show ?thesis
    by (simp add: ppc_run_switch_def n switch_step_def assms(2) xoris_differs [OF assms(1)])
qed

lemma xoris_pd_run:
  assumes "drop_bit 26 insn = 27" "memory_read_uint32 m (ppc_pc c) = Inr insn" "budget \<noteq> 0"
    and "region_mapped m" "aligned4 (ppc_pc c)" "unat (ppc_pc c) < PD_REGION_BYTES" "length tab = PD_ENTRIES"
  shows "ppc_run_pd tab c m budget = Inl (Illegal insn (ppc_pc c))"
proof -
  obtain n where n: "unat budget = Suc n" using assms(3) by (cases "unat budget") (simp_all add: unat_eq_0)
  have "stays (fetch_ok m) switch_step (unat budget) (c, m, ppc_pc c)"
    using assms(5,6) by (simp add: n fetch_ok_def aligned4_def switch_step_def assms(2) xoris_differs [OF assms(1)])
  from run_pd_eq [OF assms(7,4) this] show ?thesis
    by (auto simp: xoris_switch_run [OF assms(1-3)])
qed

lemma xoris_pdx_run:
  assumes "drop_bit 26 insn = 27" "memory_read_uint32 m (ppc_pc c) = Inr insn"
    and "region_mapped m" "aligned4 (ppc_pc c)" "unat (ppc_pc c) < PD_REGION_BYTES" "length tab = PD_ENTRIES"
  shows "\<exists>tab'. ppc_run_pdx wide tab c m 1 =
    Inr ((set_gpr c (P_RA insn) (get_gpr c (P_RD insn) XOR push_bit 16 (insn AND 0xFFFF)))
      \<lparr>ppc_pc := ppc_pc c + 4\<rparr>, m, tab')"
proof -
  obtain tab' where tab: "predecode (pdx_decode wide) m 0 tab = Inr tab'"
    using region_predecode [OF assms(3,6)] by blast
  have "fetch_ok m (c, m, ppc_pc c)" using assms(4,5) by (simp add: fetch_ok_def aligned4_def)
  from predecode_entry_current [OF tab this]
  have "array_get tab' (unat (drop_bit 2 (ppc_pc c))) = Inr (pdx_decode wide (ppc_pc c) insn)"
    using assms(2) by (simp add: entry_current_def)
  moreover have "push_bit 2 (of_nat (unat (drop_bit 2 (ppc_pc c)) + 1)) = ppc_pc c + 4"
  proof -
    have "aligned4 (ppc_pc c + 4)" using assms(4) by (simp add: aligned4_add aligned4_4)
    then have "push_bit 2 (drop_bit 2 (ppc_pc c + 4)) = ppc_pc c + 4"
      by (simp add: aligned_index aligned4_def)
    then show ?thesis
      unfolding next_index [OF assms(4,5), symmetric] by simp
  qed
  ultimately show ?thesis
    by (simp add: ppc_run_pdx_def tab pdx_step_def xoris_differs [OF assms(1)])
qed

lemma lwzu_r0_differs:
  assumes "drop_bit 26 insn = 33" "P_RA insn = 0"
  shows "switch_dispatch insn (c, m, pc) = bindE (memory_read_uint32 m (P_SIMM insn))
      (\<lambda>v. Inr (set_gpr (set_gpr c (P_RD insn) v) 0 (P_SIMM insn), m, pc))"
    "pdx_handler (pdx_id (pdx_decode wide a insn)) wide (pdx_decode wide a insn) (c, m, cur) =
      bindE (memory_read_uint32 m (get_gpr c 0 + P_SIMM insn))
      (\<lambda>v. Inr (set_gpr (set_gpr c (P_RD insn) v) 0 (get_gpr c 0 + P_SIMM insn), m, cur + 1))"
  using assms get_gpro_RO [of 0] by (simp_all add: switch_dispatch_def PPC_PRIMARY_def gen_load_d_def
    read_width_def base_or_zero_def bindE_assoc pdx_decode_def Let_def pdx_simps P_SIMM_def)
end
