(* ===== verification/PPC_Meaning.thy ===== *)
theory PPC_Meaning
  imports PPC_Invariants
begin

text \<open>
  What the bit-twiddling instruction bodies compute, in terms of integers and bit numbers:
  the rotate mask, the rotation, the arithmetic shift with its carry, the comparison fields
  and the conditional branch that tests one of their bits.
\<close>

section \<open>Bit fields\<close>

text \<open>\<open>MASK(mb, me)\<close> of the architecture, which numbers bits from the left: bits \<open>mb\<close>
  to \<open>me\<close>, wrapping around past 31 when \<open>me < mb\<close>.\<close>

lemma ones: "(0xFFFFFFFF :: u32) = - 1"
  by simp

lemma ppc_mask_bit:
  assumes "unat mb < 32" "unat me < 32" "i < 32"
  shows "bit (ppc_mask mb me) (31 - i) \<longleftrightarrow>
    (if mb \<le> me then unat mb \<le> i \<and> i \<le> unat me else unat mb \<le> i \<or> i \<le> unat me)"
proof -
  have "unat (me + 1) = unat me + 1"
    using assms(2) by (simp add: unat_word_ariths)
  moreover have "me = 31 \<longleftrightarrow> unat me = 31"
    by (simp add: word_unat_eq_iff)
  ultimately have right: "bit (if me = 31 then - 1 else NOT (drop_bit (unat (me + 1)) (- 1 :: u32))) (31 - i)
      \<longleftrightarrow> i \<le> unat me"
    using assms by (auto simp: bit_simps)
  have left: "bit (drop_bit (unat mb) (- 1 :: u32)) (31 - i) \<longleftrightarrow> unat mb \<le> i"
    using assms by (auto simp: bit_simps)
  show ?thesis
    unfolding ppc_mask_def Let_def ones using left right by (simp add: bit_and_iff bit_or_iff)
qed

text \<open>Rotation moves the bit at \<open>i\<close> (from the left) to \<open>i - sh\<close>, modulo 32.\<close>

lemma rotl32_bit:
  assumes "unat sh < 32" "n < 32"
  shows "bit (rotl32 v sh) n \<longleftrightarrow> bit v ((n + 32 - unat sh) mod 32)"
proof (cases "sh = 0")
  case True
  then show ?thesis using assms by (simp add: rotl32_def)
next
  case False
  then have "unat (32 - sh) = 32 - unat sh" "0 < unat sh"
    using assms(1) by (simp_all add: unat_sub word_le_nat_alt unat_gt_0)
  then show ?thesis
    using False assms by (cases "n < unat sh")
      (auto simp: rotl32_def bit_simps not_less mod_if add.commute dest: bit_imp_le_length)
qed

section \<open>What the instructions compute\<close>

lemma gpr_rlwinm:
  assumes "ppc_wf c"
  shows "get_gpr (gen_rlwinm c insn) (P_RA insn) =
    rotl32 (get_gpr c (P_RD insn)) (P_RB insn) AND ppc_mask (drop_bit 6 insn AND 31) (drop_bit 1 insn AND 31)"
  using assms by (simp add: gen_rlwinm_def Let_def gprs ppc_wf_def fields)

lemma rlwinm_bit:
  assumes "ppc_wf c" "i < 32"
  shows "bit (get_gpr (gen_rlwinm c insn) (P_RA insn)) (31 - i) \<longleftrightarrow>
    (if unat (drop_bit 6 insn AND 31) \<le> unat (drop_bit 1 insn AND 31)
     then unat (drop_bit 6 insn AND 31) \<le> i \<and> i \<le> unat (drop_bit 1 insn AND 31)
     else unat (drop_bit 6 insn AND 31) \<le> i \<or> i \<le> unat (drop_bit 1 insn AND 31))
    \<and> bit (get_gpr c (P_RD insn)) (31 - (i + unat (P_RB insn)) mod 32)"
proof -
  have "(31 - i + 32 - k) mod 32 = 31 - (i + k) mod 32" if "k < 32" for k
  proof (cases "i + k < 32")
    case False
    then have "(i + k) mod 32 = i + k - 32" "(31 - i + 32 - k) mod 32 = 63 - (i + k)"
      using assms(2) that by (simp_all add: mod_if)
    then show ?thesis using False by simp
  qed (use assms(2) that in \<open>simp add: mod_if\<close>)
  then have "bit (rotl32 (get_gpr c (P_RD insn)) (P_RB insn)) (31 - i) \<longleftrightarrow>
      bit (get_gpr c (P_RD insn)) (31 - (i + unat (P_RB insn)) mod 32)"
    using rotl32_bit [of "P_RB insn" "31 - i" "get_gpr c (P_RD insn)"] by (simp add: fields)
  then show ?thesis
    using ppc_mask_bit [OF and_31_less and_31_less assms(2), of "drop_bit 6 insn" "drop_bit 1 insn"]
    unfolding gpr_rlwinm [OF assms(1)] bit_and_iff word_le_nat_alt by blast
qed

text \<open>An arithmetic right shift divides, rounding down; the carry records a negative
  dividend that was not divisible.\<close>

lemma low_bits_dvd:
  fixes s :: u32
  assumes "k < 32"
  shows "s AND (push_bit k 1 - 1) = 0 \<longleftrightarrow> 2 ^ k dvd sint s"
proof -
  have "push_bit k 1 - 1 = (mask k :: u32)" by (simp add: mask_eq_exp_minus_1)
  then have "s AND (push_bit k 1 - 1) = 0 \<longleftrightarrow> take_bit k s = 0" by (simp add: take_bit_eq_mask)
  also have "\<dots> \<longleftrightarrow> take_bit k (uint s) = 0"
    by (simp add: word_uint_eq_iff unsigned_take_bit_eq)
  also have "take_bit k (uint s) = take_bit k (sint s)"
    using assms by (simp add: sint_uint take_bit_signed_take_bit)
  finally show ?thesis by (simp add: take_bit_eq_0_iff)
qed

lemma sint_sar: "sint (signed_drop_bit k (s :: u32)) = sint s div 2 ^ k"
  by (simp add: sint_signed_drop_bit_eq drop_bit_eq_div)

lemma srawi_meaning:
  assumes "ppc_wf c"
  shows "sint (get_gpr (gen_srawi c insn rc) (P_RA insn)) = sint (get_gpr c (P_RD insn)) div 2 ^ unat (P_RB insn)"
    "xer_ca (gen_srawi c insn rc) = c_bool (sint (get_gpr c (P_RD insn)) < 0 \<and>
      \<not> 2 ^ unat (P_RB insn) dvd sint (get_gpr c (P_RD insn)))"
  using assms low_bits_dvd [of "unat (P_RB insn)" "get_gpr c (P_RD insn)"]
  by (auto simp: gen_srawi_def Let_def gprs ppc_wf_def fields sint_sar)

section \<open>Comparisons and the branches that test them\<close>

text \<open>Writing field \<open>f\<close> of the condition register leaves the others alone. Bit \<open>4 * f + j\<close>
  of CR, counted from the left, is bit \<open>3 - j\<close> of the field.\<close>

lemma set_crf_bit:
  assumes "unat f < 8" "unat b < 16" "i < 32"
  shows "bit (cr (set_crf c f b)) (31 - i) \<longleftrightarrow>
    (if i div 4 = unat f then bit b (3 - i mod 4) else bit (cr c) (31 - i))"
proof -
  have f4: "unat (4 * f) = 4 * unat f" using assms(1) by (simp add: unat_word_ariths)
  then have sh: "unat (28 - 4 * f) = 28 - 4 * unat f"
    using assms(1) by (simp add: unat_sub word_le_nat_alt)
  have nib: "bit (15 :: int) n \<longleftrightarrow> n < 4" for n
    using bit_mask_iff [of 4 n, where 'a = int] by (simp add: mask_eq_exp_minus_1)
  have low: "bit b n \<Longrightarrow> n < 4" for n
    using assms(2) bit_low [of b 4 n] by simp
  show ?thesis
  proof (cases "i div 4 = unat f")
    case True
    then have "4 * unat f \<le> i" "i < 4 * unat f + 4" "i mod 4 = i - 4 * unat f"
      using minus_mult_div_eq_mod [of i 4] by auto
    then show ?thesis
      using True assms by (auto simp: set_crf_def Let_def sh bit_simps nib)
  next
    case False
    then have "i < 4 * unat f \<or> 4 * unat f + 4 \<le> i" by auto
    then show ?thesis
      using False assms low [of "3 + 4 * unat f - i"] by (auto simp: set_crf_def Let_def sh bit_simps nib)
  qed
qed

definition cmp_result :: "bool \<Rightarrow> u32 \<Rightarrow> u32 \<Rightarrow> nat \<Rightarrow> bool" where
  "cmp_result is_unsigned a b j =
    (if j = 0 then (if is_unsigned then unat a < unat b else sint a < sint b)
     else if j = 1 then (if is_unsigned then unat b < unat a else sint b < sint a)
     else j = 2 \<and> a = b)"

text \<open>The branch \<open>bc 12,4*f+j\<close> (or \<open>bc 4,4*f+j\<close>) after a comparison into field \<open>f\<close>.\<close>

lemma cmp_bits:
  assumes "j < 4"
  shows "bit (if a < b then 8 else if b < a then 4 else 2 :: u32) (3 - j) \<longleftrightarrow> cmp_result True a b j"
    "bit (if sint a < sint b then 8 else if sint b < sint a then 4 else 2 :: u32) (3 - j)
      \<longleftrightarrow> cmp_result False a b j"
proof -
  have "j \<in> {0, 1, 2, 3}" using assms by auto
  then show "bit (if a < b then 8 else if b < a then 4 else 2 :: u32) (3 - j) \<longleftrightarrow> cmp_result True a b j"
    by (auto simp: cmp_result_def word_less_nat_alt word_unat_eq_iff)
  have "sint a = sint b \<longleftrightarrow> a = b" by (auto intro: signed_word_eqI)
  then show "bit (if sint a < sint b then 8 else if sint b < sint a then 4 else 2 :: u32) (3 - j)
      \<longleftrightarrow> cmp_result False a b j"
    using \<open>j \<in> {0, 1, 2, 3}\<close> by (auto simp: cmp_result_def)
qed

lemma gen_cmp_bit:
  fixes insn :: u32 and c :: ppc and imm u :: bool
  defines "crf \<equiv> unat (drop_bit 23 insn AND 7)"
    and "b \<equiv> (if imm then (if u then P_UIMM insn else P_SIMM insn) else get_gpr c (P_RB insn))"
  assumes "j < 4"
  shows "bit (cr (gen_cmp c insn imm u)) (31 - (4 * crf + j)) \<longleftrightarrow> cmp_result u (get_gpr c (P_RA insn)) b j"
proof -
  have crf: "crf < 8" unfolding crf_def by (rule and_7_less)
  have "(4 * crf + j) div 4 = crf" "(4 * crf + j) mod 4 = j" "4 * crf + j < 32"
    using assms(3) crf by auto
  then have "bit (cr (set_crf c (drop_bit 23 insn AND 7) bits)) (31 - (4 * crf + j)) \<longleftrightarrow> bit bits (3 - j)"
    if "unat bits < 16" for bits
    using set_crf_bit [of "drop_bit 23 insn AND 7" bits "4 * crf + j" c] crf that by (simp add: crf_def)
  moreover have "gen_cmp c insn imm u = set_crf c (drop_bit 23 insn AND 7)
      (if u then if get_gpr c (P_RA insn) < b then 8 else if b < get_gpr c (P_RA insn) then 4 else 2
       else if sint (get_gpr c (P_RA insn)) < sint b then 8 else if sint b < sint (get_gpr c (P_RA insn)) then 4 else 2)"
    by (simp only: gen_cmp_def Let_def b_def)
  ultimately show ?thesis
    using cmp_bits [OF assms(3), of "get_gpr c (P_RA insn)" b] by (cases u) simp_all
qed

lemma bit_field: "(drop_bit n (x :: u32) AND 1) = c_bool (bit x n)"
  by (simp add: and_one_eq mod_2_eq_odd c_bool_def bit_iff_odd_drop_bit)

text \<open>\<open>BO\<close> = 12 branches if the selected bit is set, \<open>BO\<close> = 4 if it is clear.\<close>

lemma bc_taken_bit:
  assumes "P_RD insn = (if on then 12 else 4)"
  shows "bc_taken c insn a = (c, bit (cr c) (31 - unat (P_RA insn)) = on)"
proof -
  have "unat (31 - P_RA insn) = 31 - unat (P_RA insn)"
    using field_less(2) [of insn] by (simp add: unat_sub word_le_nat_alt)
  then show ?thesis
    using assms by (cases on) (auto simp: bc_taken_def Let_def bit_field)
qed

lemma cmp_then_branch:
  fixes c :: ppc and imm u :: bool and insn br :: u32
  assumes "P_RD br = (if on then 12 else 4)" "br AND 3 = 0"
    and "unat (P_RA br) = 4 * unat (drop_bit 23 insn AND 7) + j" "j < 4"
  defines "b \<equiv> (if imm then (if u then P_UIMM insn else P_SIMM insn) else get_gpr c (P_RB insn))"
  shows "gen_bc (gen_cmp c insn imm u) br pc = (gen_cmp c insn imm u,
    if cmp_result u (get_gpr c (P_RA insn)) b j = on then (pc - 4) + sext16 (br AND 0xFFFC) else pc)"
  using and_3_split [OF assms(2)] gen_cmp_bit [OF assms(4), of c insn imm u]
  by (simp add: gen_bc_def bc_taken_bit [OF assms(1)] assms(3) b_def)

end
