(* ===== verification/Bit_Lists.thy ===== *)
theory Bit_Lists
  imports Bench_Harness
begin

text \<open>
  Words as bit lists, for evaluating long stretches of the harness's generator \<open>lcg\<close> by
  rewriting: addition and multiplication of bit lists, the generator on them, and the
  remainder by 100 the kernels' instruction picker takes.
\<close>

section \<open>Words as bit lists\<close>

text \<open>Bit lists, least significant bit first.\<close>

primrec nv :: "bool list \<Rightarrow> nat" where
  "nv [] = 0"
| "nv (b # bs) = of_bool b + 2 * nv bs"

fun badd :: "bool list \<Rightarrow> bool list \<Rightarrow> bool \<Rightarrow> bool list" where
  "badd (x # xs) (y # ys) c = ((x \<noteq> y) \<noteq> c) # badd xs ys (x \<and> y \<or> c \<and> (x \<or> y))"
| "badd _ _ c = []"

lemma badd_rules:
  "badd [] ys c = []"
  "badd (False # xs) (False # ys) False = False # badd xs ys False"
  "badd (True # xs) (False # ys) False = True # badd xs ys False"
  "badd (False # xs) (True # ys) False = True # badd xs ys False"
  "badd (True # xs) (True # ys) False = False # badd xs ys True"
  "badd (False # xs) (False # ys) True = True # badd xs ys False"
  "badd (True # xs) (False # ys) True = False # badd xs ys True"
  "badd (False # xs) (True # ys) True = False # badd xs ys True"
  "badd (True # xs) (True # ys) True = True # badd xs ys True"
  by simp_all

primrec zeros :: "bool list \<Rightarrow> bool list" where
  "zeros [] = []"
| "zeros (x # xs) = False # zeros xs"

lemma zeros [simp]: "length (zeros xs) = length xs" "nv (zeros xs) = 0"
  by (induction xs) simp_all

fun bmul :: "bool list \<Rightarrow> bool list \<Rightarrow> bool list" where
  "bmul [] s = zeros s"
| "bmul (False # cs) s = False # bmul cs s"
| "bmul (True # cs) s = badd s (False # bmul cs s) False"

lemma mod_double: "(of_bool b + 2 * t) mod (2 * m) = of_bool b + 2 * (t mod m)" for t m :: nat
  by (cases b) (simp_all add: mod_mult2_eq)

lemma length_badd [simp]: "length (badd xs ys c) = min (length xs) (length ys)"
  by (induction xs ys c rule: badd.induct) auto

lemma nv_badd:
  "length xs \<le> length ys \<Longrightarrow> nv (badd xs ys c) = (nv xs + nv ys + of_bool c) mod 2 ^ length xs"
proof (induction xs ys c rule: badd.induct)
  case (1 x xs y ys c)
  let ?s = "(x \<noteq> y) \<noteq> c" and ?c = "x \<and> y \<or> c \<and> (x \<or> y)"
  have "nv (x # xs) + nv (y # ys) + of_bool c = of_bool ?s + 2 * (nv xs + nv ys + of_bool ?c)"
    by (cases x; cases y; cases c) simp_all
  moreover have "nv (badd (x # xs) (y # ys) c) = of_bool ?s + 2 * nv (badd xs ys ?c)" by simp
  ultimately show ?case
    using 1 by (simp only: mod_double length_Cons power_Suc Suc_le_mono)
qed auto

lemma length_bmul: "length s \<le> length (bmul cs s)"
  by (induction cs s rule: bmul.induct) auto

lemma nv_bmul: "nv (bmul cs s) mod 2 ^ length s = nv cs * nv s mod 2 ^ length s"
proof (induction cs s rule: bmul.induct)
  case (2 cs s)
  have "nv (bmul (False # cs) s) mod 2 ^ length s = 2 * (nv (bmul cs s) mod 2 ^ length s) mod 2 ^ length s"
    by (simp add: mod_mult_right_eq)
  also have "\<dots> = nv (False # cs) * nv s mod 2 ^ length s"
    unfolding 2 by (simp add: mod_mult_right_eq mult.assoc)
  finally show ?case .
next
  case (3 cs s)
  have red: "(x + 2 * (y mod m)) mod m = (x + 2 * y) mod m" for x y m :: nat
    by (metis mod_add_right_eq mod_mult_right_eq)
  have "nv (bmul (True # cs) s) = (nv s + 2 * nv (bmul cs s)) mod 2 ^ length s"
    using length_bmul [of s cs] by (simp add: nv_badd)
  also have "\<dots> = (nv s + 2 * (nv cs * nv s mod 2 ^ length s)) mod 2 ^ length s"
    unfolding 3 [symmetric] red ..
  also have "\<dots> = nv (True # cs) * nv s mod 2 ^ length s"
    unfolding red by (simp add: algebra_simps)
  finally show ?case by simp
qed simp

lemma nv_less: "nv bs < 2 ^ length bs"
  by (induction bs) auto

section \<open>The generator\<close>

definition lcg_mul :: "bool list" where
  "lcg_mul = [True, False, True, True, False, False, False, False, False, True, True, False, False, True,
     True, False, True, False, False, True, True]"

definition lcg_add :: "bool list" where
  "lcg_add = [True, True, True, True, True, False, True, False, True, True, False, False, True, True, True,
     True, False, True, True, True, False, True, True, False, False, False, True, True, True, True, False, False]"

definition lcg_bits :: "bool list \<Rightarrow> bool list" where
  "lcg_bits s = badd lcg_add (bmul lcg_mul s) False"

lemma of_nat_mod: "of_nat (x mod 2 ^ 32) = (of_nat x :: u32)"
  by (simp add: word_unat_eq_iff unat_of_nat take_bit_eq_mod)

lemma lcg_bits:
  assumes "length s = 32"
  shows "length (lcg_bits s) = 32" "of_nat (nv (lcg_bits s)) = lcg (of_nat (nv s))"
proof -
  have len: "length lcg_add = 32" "nv lcg_add = 1013904223" "nv lcg_mul = 1664525"
    by (simp_all add: lcg_add_def lcg_mul_def)
  show "length (lcg_bits s) = 32"
    using length_bmul [of s lcg_mul] assms by (simp add: lcg_bits_def len)
  have "nv (lcg_bits s) = (nv lcg_add + nv (bmul lcg_mul s)) mod 2 ^ 32"
    using length_bmul [of s lcg_mul] assms by (simp add: lcg_bits_def nv_badd len(1))
  also have "\<dots> = (nv lcg_add + nv (bmul lcg_mul s) mod 2 ^ 32) mod 2 ^ 32"
    by (simp only: mod_simps)
  also have "nv (bmul lcg_mul s) mod 2 ^ 32 = 1664525 * nv s mod 2 ^ 32"
    using nv_bmul [of lcg_mul s] assms by (simp add: len)
  also have "(nv lcg_add + 1664525 * nv s mod 2 ^ 32) mod 2 ^ 32 = (1013904223 + 1664525 * nv s) mod 2 ^ 32"
    by (simp only: mod_simps len)
  finally have "of_nat (nv (lcg_bits s)) = (of_nat ((1013904223 + 1664525 * nv s) mod 2 ^ 32) :: u32)"
    by (rule arg_cong)
  also have "\<dots> = of_nat (1013904223 + 1664525 * nv s)"
    by (rule of_nat_mod)
  finally show "of_nat (nv (lcg_bits s)) = lcg (of_nat (nv s))"
    by (simp add: lcg_def mult.commute)
qed

text \<open>The remainder by 100: a sum of the remainders of the powers of two, then subtractions.\<close>

fun wsum :: "int list \<Rightarrow> bool list \<Rightarrow> int \<Rightarrow> int" where
  "wsum (w # ws) (True # bs) acc = wsum ws bs (acc + w)"
| "wsum (w # ws) (False # bs) acc = wsum ws bs acc"
| "wsum _ _ acc = acc"

definition weights :: "int list" where
  "weights = [1, 2, 4, 8, 16, 32, 64, 28, 56, 12, 24, 48, 96, 92, 84, 68, 36, 72, 44, 88, 76, 52, 4, 8, 16, 32, 64, 28, 56, 12, 24, 48]"

definition red :: "int \<Rightarrow> int \<Rightarrow> int" where
  "red m x = (if m \<le> x then x - m else x)"

definition mod100 :: "bool list \<Rightarrow> int" where
  "mod100 bs = red 100 (red 200 (red 400 (red 800 (wsum weights bs 0))))"

lemma wsum_eq:
  "length ws = length bs \<Longrightarrow> (\<forall>i < length ws. ws ! i mod 100 = 2 ^ (k + i) mod 100) \<Longrightarrow>
    wsum ws bs acc mod 100 = (acc + 2 ^ k * int (nv bs)) mod 100"
proof (induction ws bs acc arbitrary: k rule: wsum.induct)
  case (1 w ws bs acc)
  have w: "w mod 100 = 2 ^ k mod 100" using 1(3) by fastforce
  have "\<forall>i < length ws. ws ! i mod 100 = 2 ^ (Suc k + i) mod 100" using 1(3) by fastforce
  then have "wsum ws bs (acc + w) mod 100 = (acc + w + 2 ^ Suc k * int (nv bs)) mod 100"
    by (intro 1(1)) (use 1(2) in simp_all)
  also have "\<dots> = (acc + 2 ^ k + 2 ^ Suc k * int (nv bs)) mod 100"
    by (intro mod_add_cong w refl)
  finally show ?case by (simp add: algebra_simps)
next
  case (2 w ws bs acc)
  have "\<forall>i < length ws. ws ! i mod 100 = 2 ^ (Suc k + i) mod 100" using 2(3) by fastforce
  then have "wsum ws bs acc mod 100 = (acc + 2 ^ Suc k * int (nv bs)) mod 100"
    by (intro 2(1)) (use 2(2) in simp_all)
  then show ?case by (simp add: algebra_simps)
qed auto

lemma wsum_bound: "(\<forall>w\<in>set ws. 0 \<le> w) \<Longrightarrow> 0 \<le> acc \<Longrightarrow> 0 \<le> wsum ws bs acc \<and> wsum ws bs acc \<le> acc + sum_list ws"
proof (induction ws bs acc rule: wsum.induct)
  case (1 w ws bs acc)
  then have "0 \<le> wsum ws bs (acc + w) \<and> wsum ws bs (acc + w) \<le> acc + w + sum_list ws" by simp
  then show ?case by simp
qed (auto intro: sum_list_nonneg)

lemma red_mod: "100 dvd m \<Longrightarrow> red m x mod 100 = x mod 100"
  by (auto simp: red_def mod_eq_dvd_iff)

lemma red_bound: "0 \<le> x \<Longrightarrow> x < 2 * m \<Longrightarrow> 0 \<le> red m x \<and> red m x < m"
  by (simp add: red_def)

lemma mod100:
  assumes "length bs = 32"
  shows "mod100 bs = int (nv bs) mod 100"
proof -
  have i: "i < 32 \<Longrightarrow> weights ! i mod 100 = 2 ^ i mod 100" for i
  proof -
    have "\<forall>i\<in>set [0..<32]. weights ! i mod 100 = 2 ^ i mod 100"
      by (simp add: weights_def upt_rec)
    then show "i < 32 \<Longrightarrow> weights ! i mod 100 = 2 ^ i mod 100" by simp
  qed
  define x where "x = wsum weights bs 0"
  have x: "x mod 100 = int (nv bs) mod 100"
    using wsum_eq [of weights bs 0 0] i assms by (simp add: x_def weights_def)
  have "0 \<le> x \<and> x < 1600"
    using wsum_bound [of weights 0 bs] by (simp add: x_def weights_def)
  then have "0 \<le> mod100 bs \<and> mod100 bs < 100"
    unfolding mod100_def x_def [symmetric] using red_bound by simp
  moreover have "mod100 bs mod 100 = x mod 100"
    unfolding mod100_def x_def [symmetric] by (simp add: red_mod)
  ultimately show ?thesis using x by simp
qed

end
