(* ===== verification/M68K_Walk.thy ===== *)
theory M68K_Walk
  imports Bit_Lists
begin

text \<open>
  Where the instructions of the generated kernel of \<open>src/m68k/bench_main.c\<close> start: the
  lengths \<open>emit_kernel_stress\<close> picks, the states of the generator and the word indices,
  evaluated for all but the last two of the 8192 instructions. No 32-bit immediate of the
  stream straddles a page, which would stop the predecoding backends.
\<close>

section \<open>The lengths of the stream's instructions\<close>

text \<open>
  One step: \<open>force_short\<close>, the generator's state, the index of the next word after
  \<open>CODE_BASE\<close> and whether no 32-bit immediate so far straddled a page.
\<close>

definition page_ends :: "int set" where
  "page_ends = {2046, 4094, 6142, 8190, 10238}"

type_synonym 's walk = "bool \<times> 's \<times> int \<times> bool"

definition walk_emit :: "('s \<Rightarrow> 's) \<Rightarrow> int \<Rightarrow> 's \<Rightarrow> int \<Rightarrow> bool \<Rightarrow> 's walk" where
  "walk_emit gen pick r p ok =
    (if pick < 40 then (False, r, p + 1, ok)
     else if pick < 65 then (False, r, p + 2, ok)
     else if pick < 70 then (False, gen (gen r), p + 3, ok \<and> p \<notin> page_ends)
     else if pick < 76 then (False, r, p + 1, ok)
     else if pick < 80 then (False, gen (gen r), p + 3, ok \<and> p \<notin> page_ends)
     else (84 \<le> pick, r, p + 1, ok))"

definition walk_step :: "u32 walk \<Rightarrow> u32 walk" where
  "walk_step = (\<lambda>(fs, seed, p, ok). let r = lcg seed
     in walk_emit lcg (if fs then int (unat r) mod 40 else int (unat r) mod 100) r p ok)"

fun bit_next :: "bool \<Rightarrow> bool list \<Rightarrow> int \<Rightarrow> bool \<Rightarrow> bool list walk" where
  "bit_next True r p ok = (False, r, p + 1, ok)"
| "bit_next False r p ok = walk_emit lcg_bits (mod100 r) r p ok"

fun bit_step :: "bool list walk \<Rightarrow> bool list walk" where
  "bit_step (fs, s, p, ok) = bit_next fs (lcg_bits s) p ok"

definition bits_word :: "bool list \<Rightarrow> u32" where "bits_word bs = of_nat (nv bs)"

fun walk_rel :: "bool list walk \<Rightarrow> u32 walk \<Rightarrow> bool" where
  "walk_rel (fs, s, p, ok) w \<longleftrightarrow> length s = 32 \<and> w = (fs, bits_word s, p, ok)"

lemma unat_bits_word: "length s = 32 \<Longrightarrow> unat (bits_word s) = nv s"
  using nv_less [of s] by (simp add: bits_word_def unat_of_nat take_bit_nat_eq_self)

lemma walk_step_bits: "walk_rel b w \<Longrightarrow> walk_rel (bit_step b) (walk_step w)"
proof -
  assume "walk_rel b w"
  then obtain fs s p ok where b: "b = (fs, s, p, ok)" "length s = 32" "w = (fs, bits_word s, p, ok)"
    by (cases b) auto
  have gen: "length (lcg_bits t) = 32 \<and> bits_word (lcg_bits t) = lcg (bits_word t)" if "length t = 32" for t
    using lcg_bits [OF that] by (simp add: bits_word_def)
  have pick: "mod100 (lcg_bits s) = int (unat (lcg (bits_word s))) mod 100"
    using mod100 [of "lcg_bits s"] gen [OF b(2)] unat_bits_word [of "lcg_bits s"] by simp
  have "int (unat (lcg (bits_word s))) mod 40 < 40" by simp
  then show ?thesis
    using gen [OF b(2)] gen [of "lcg_bits s"] gen [of "lcg_bits (lcg_bits s)"] pick
    by (cases fs) (simp_all add: b walk_step_def walk_emit_def Let_def)
qed

primrec walk :: "nat \<Rightarrow> u32 walk \<Rightarrow> u32 walk" where
  "walk 0 w = w"
| "walk (Suc n) w = walk n (walk_step w)"

lemma walk_add: "walk (m + n) w = walk n (walk m w)"
  by (induction m arbitrary: w) simp_all

text \<open>\<open>twice d\<close> takes \<open>2 ^ d\<close> steps.\<close>

primrec twice :: "nat \<Rightarrow> bool list walk \<Rightarrow> bool list walk" where
  "twice 0 b = bit_step b"
| "twice (Suc d) b = twice d (twice d b)"

lemma walk_twice: "walk_rel b w \<Longrightarrow> walk_rel (twice d b) (walk (2 ^ d) w)"
proof (induction d arbitrary: b w)
  case 0
  then show ?case by (simp add: walk_step_bits)
next
  case (Suc d)
  then have "walk_rel (twice d (twice d b)) (walk (2 ^ d) (walk (2 ^ d) w))" by blast
  then show ?case by (simp add: mult_2 walk_add)
qed

text \<open>The generator's states the stream passes through, every 2048 instructions.\<close>

definition seed0 :: "bool list" where
  "seed0 = [False, True, False, False, True, False, True, True, False, True, False, True, False, True,
     False, False, False, True, True, True, True, False, False, False, True, True, True, True,
     False, True, False, True]"
definition seed1 :: "bool list" where
  "seed1 = [False, True, True, False, False, True, True, False, False, True, True, False, False, False,
     True, False, True, False, False, True, False, False, True, False, True, True, False, False,
     False, False, False, True]"
definition seed2 :: "bool list" where
  "seed2 = [False, True, False, True, False, False, False, False, False, False, False, False, False, False,
     True, True, True, True, True, True, True, True, True, False, True, True, True, False,
     False, True, False, False]"
definition seed3 :: "bool list" where
  "seed3 = [False, False, False, False, False, True, True, False, True, True, False, True, True, True,
     False, False, False, False, False, True, False, False, True, False, True, False, True, True,
     False, False, True, False]"
definition seed4 :: "bool list" where
  "seed4 = [False, True, False, True, True, False, False, False, False, False, True, True, False, False,
     False, True, True, True, False, True, True, True, False, False, False, False, False, True,
     True, False, True, True]"

lemma seeds: "bits_word seed0 = 0xAF1E2AD2" "bits_word seed4 = 0xD83B8C1A" "length seed0 = 32"
  by (simp_all add: bits_word_def seed0_def seed4_def)

lemma twice_numeral: "twice (numeral k) b = twice (pred_numeral k) (twice (pred_numeral k) b)"
    "twice 1 b = bit_step (bit_step b)"
  by (simp_all add: numeral_eq_Suc)

lemmas walk_eval = twice_numeral twice.simps bit_step.simps bit_next.simps lcg_bits_def lcg_mul_def
  lcg_add_def bmul.simps zeros.simps badd_rules walk_emit_def mod100_def red_def weights_def wsum.simps
  pred_numeral_simps BitM.simps insert_iff empty_iff arith_simps rel_simps numeral_One
  page_ends_def add_numeral_special diff_numeral_special diff_numeral_simps sub_num_simps if_True if_False simp_thms

lemma walk0: "twice 11 (False, seed0, 30, True) = (False, seed1, 2860, True)"
  by (simp only: walk_eval seed0_def seed1_def cong: if_weak_cong)

lemma walk1: "twice 11 (False, seed1, 2860, True) = (False, seed2, 5697, True)"
  by (simp only: walk_eval seed1_def seed2_def cong: if_weak_cong)

lemma walk2: "twice 11 (False, seed2, 5697, True) = (False, seed3, 8489, True)"
  by (simp only: walk_eval seed2_def seed3_def cong: if_weak_cong)

lemma walk3: "twice 1 (twice 2 (twice 3 (twice 4 (twice 5 (twice 6 (twice 7 (twice 8 (twice 9
    (twice 10 (False, seed3, 8489, True)))))))))) = (False, seed4, 11282, True)"
  by (simp only: walk_eval seed3_def seed4_def cong: if_weak_cong)

text \<open>All of the stream but its last two instructions.\<close>

lemma stress_walk: "walk 8190 (False, 0xAF1E2AD2, 30, True) = (False, 0xD83B8C1A, 11282, True)"
proof -
  let ?w = "(False, bits_word seed0, 30, True)"
  have "walk_rel (False, seed0, 30, True) ?w" by (simp add: seeds)
  from walk_twice [OF this, of 11] have "walk_rel (False, seed1, 2860, True) (walk 2048 ?w)"
    unfolding walk0 by simp
  from walk_twice [OF this, of 11] have "walk_rel (False, seed2, 5697, True) (walk 4096 ?w)"
    unfolding walk1 walk_add [symmetric] by simp
  from walk_twice [OF this, of 11] have "walk_rel (False, seed3, 8489, True) (walk 6144 ?w)"
    unfolding walk2 walk_add [symmetric] by simp
  note w = walk_twice [OF this, of 10]
  note w = walk_twice [OF w, of 9]
  note w = walk_twice [OF w, of 8]
  note w = walk_twice [OF w, of 7]
  note w = walk_twice [OF w, of 6]
  note w = walk_twice [OF w, of 5]
  note w = walk_twice [OF w, of 4]
  note w = walk_twice [OF w, of 3]
  note w = walk_twice [OF w, of 2]
  note w = walk_twice [OF w, of 1]
  have "walk_rel (False, seed4, 11282, True) (walk 8190 ?w)"
    using w unfolding walk3 walk_add [symmetric] by simp
  then show ?thesis by (simp add: seeds)
qed

end
