(* ===== verification/M68K_Ops.thy ===== *)
theory M68K_Ops
  imports Guest_Memory
begin

text \<open>
  \<open>src/m68k/m68k_bench.h\<close> and \<open>src/m68k/m68k_ops.h\<close>: the 68000-subset state, the
  condition-code helpers and condition evaluation, shared by the three M68K backends; and
  what the helpers mean: the flags of an addition, subtraction and comparison, and the
  relations the conditions decide after a comparison.
\<close>

section \<open>State\<close>

record m68k =
  regs :: "u32 list"    \<comment> \<open>D0-D7, A0-A7\<close>
  m68k_pc :: u32        \<comment> \<open>field \<open>pc\<close>: current at sprint boundaries only\<close>
  m68k_n :: u32         \<comment> \<open>CCR N, Z, V, C and X as 0/1\<close>
  m68k_z :: u32
  m68k_v :: u32
  m68k_cf :: u32
  m68k_x :: u32

text \<open>The diagnostic of \<open>bench_main.c\<close>: it prints the opcode and \<open>m->pc\<close> and exits.\<close>

definition m68k_illegal :: "m68k \<Rightarrow> u32 \<Rightarrow> 'a outcome" where
  "m68k_illegal m opcode = Inl (Illegal (opcode AND 0xFFFF) (m68k_pc m))"

definition get_reg :: "m68k \<Rightarrow> u32 \<Rightarrow> u32" where
  "get_reg m r = regs m ! unat r"

definition set_reg :: "m68k \<Rightarrow> u32 \<Rightarrow> u32 \<Rightarrow> m68k" where
  "set_reg m r v = m\<lparr>regs := (regs m)[unat r := v]\<rparr>"

section \<open>Condition-code helpers\<close>

definition cc_nz_l :: "m68k \<Rightarrow> u32 \<Rightarrow> m68k" where
  "cc_nz_l m r = m\<lparr>m68k_n := drop_bit 31 r, m68k_z := c_bool (r = 0), m68k_v := 0, m68k_cf := 0\<rparr>"

definition cc_nz_w :: "m68k \<Rightarrow> u16 \<Rightarrow> m68k" where
  "cc_nz_w m r = m\<lparr>m68k_n := ucast (drop_bit 15 r), m68k_z := c_bool (r = 0), m68k_v := 0, m68k_cf := 0\<rparr>"

definition cc_nz_b :: "m68k \<Rightarrow> u8 \<Rightarrow> m68k" where
  "cc_nz_b m r = m\<lparr>m68k_n := ucast (drop_bit 7 r), m68k_z := c_bool (r = 0), m68k_v := 0, m68k_cf := 0\<rparr>"

definition cc_add_l :: "m68k \<Rightarrow> u32 \<Rightarrow> u32 \<Rightarrow> u32 \<Rightarrow> m68k" where
  "cc_add_l m s d r =
    (let m = m\<lparr>m68k_cf := c_bool (r < s)\<rparr>
     in m\<lparr>m68k_x := m68k_cf m, m68k_v := drop_bit 31 ((s XOR r) AND (d XOR r)),
          m68k_n := drop_bit 31 r, m68k_z := c_bool (r = 0)\<rparr>)"

definition cc_sub_l :: "m68k \<Rightarrow> u32 \<Rightarrow> u32 \<Rightarrow> u32 \<Rightarrow> m68k" where
  "cc_sub_l m s d r =
    (let m = m\<lparr>m68k_cf := c_bool (s > d)\<rparr>
     in m\<lparr>m68k_x := m68k_cf m, m68k_v := drop_bit 31 ((d XOR s) AND (d XOR r)),
          m68k_n := drop_bit 31 r, m68k_z := c_bool (r = 0)\<rparr>)"

definition cc_cmp_l :: "m68k \<Rightarrow> u32 \<Rightarrow> u32 \<Rightarrow> u32 \<Rightarrow> m68k" where
  "cc_cmp_l m s d r =
    m\<lparr>m68k_cf := c_bool (s > d), m68k_v := drop_bit 31 ((d XOR s) AND (d XOR r)),
      m68k_n := drop_bit 31 r, m68k_z := c_bool (r = 0)\<rparr>"

section \<open>Conditions\<close>

datatype m68k_cc = CC | CS | NE | EQ | PL | MI | GE | LT | GT | LE

definition M68K_CONDS :: "(u32 \<times> m68k_cc) list" where
  "M68K_CONDS = [(4, CC), (5, CS), (6, NE), (7, EQ), (10, PL), (11, MI), (12, GE), (13, LT),
     (14, GT), (15, LE)]"

fun cond_expr :: "m68k_cc \<Rightarrow> m68k \<Rightarrow> bool" where
  "cond_expr CC m = (m68k_cf m = 0)"
| "cond_expr CS m = (m68k_cf m \<noteq> 0)"
| "cond_expr NE m = (m68k_z m = 0)"
| "cond_expr EQ m = (m68k_z m \<noteq> 0)"
| "cond_expr PL m = (m68k_n m = 0)"
| "cond_expr MI m = (m68k_n m \<noteq> 0)"
| "cond_expr GE m = (m68k_n m = m68k_v m)"
| "cond_expr LT m = (m68k_n m \<noteq> m68k_v m)"
| "cond_expr GT m = (m68k_z m = 0 \<and> m68k_n m = m68k_v m)"
| "cond_expr LE m = (m68k_z m \<noteq> 0 \<or> m68k_n m \<noteq> m68k_v m)"

definition m68k_cond :: "m68k \<Rightarrow> u32 \<Rightarrow> bool" where
  "m68k_cond m cond = (case map_of M68K_CONDS cond of Some cc \<Rightarrow> cond_expr cc m | None \<Rightarrow> False)"

section \<open>What the flags mean\<close>

lemma sign_bit: "drop_bit 31 (r :: u32) = c_bool (bit r 31)"
proof (rule bit_word_eqI)
  fix n assume "n < LENGTH(32)"
  then show "bit (drop_bit 31 r) n = bit (c_bool (bit r 31)) n"
    by (cases "n = 0") (auto simp: c_bool_def bit_simps dest: bit_imp_le_length)
qed

lemma bit_31: "bit (r :: u32) 31 \<longleftrightarrow> sint r < 0"
  using bit_last_iff [of r] by simp

lemma sint_range: "- 2147483648 \<le> sint (r :: u32) \<and> sint r < 2147483648"
  using sint_greater_eq [of r] sint_less [of r] by simp

lemma sint_wrap:
  "sint (a + b :: u32) = (sint a + sint b + 2147483648) mod 4294967296 - 2147483648"
  "sint (a - b :: u32) = (sint a - sint b + 2147483648) mod 4294967296 - 2147483648"
  by (simp_all add: sint_word_ariths signed_take_bit_eq_take_bit_shift take_bit_eq_mod)

lemma wrap_cases:
  fixes x :: int
  assumes "- 4294967296 \<le> x" "x < 4294967296"
  shows "(x + 2147483648) mod 4294967296 - 2147483648 =
    (if x < - 2147483648 then x + 4294967296 else if 2147483648 \<le> x then x - 4294967296 else x)"
proof -
  consider "x < - 2147483648" | "- 2147483648 \<le> x" "x < 2147483648" | "2147483648 \<le> x" by linarith
  then show ?thesis
  proof cases
    case 1
    then have "(x + 2147483648) mod 4294967296 = (x + 2147483648 + 4294967296) mod 4294967296"
      by (simp only: mod_add_self2)
    also have "\<dots> = x + 2147483648 + 4294967296"
      using 1 assms by (intro mod_pos_pos_trivial) linarith+
    finally show ?thesis using 1 by simp
  next
    case 2
    then show ?thesis by simp
  next
    case 3
    then have "(x + 2147483648) mod 4294967296 = (x + 2147483648 - 4294967296) mod 4294967296"
      by (simp only: minus_mod_self2)
    also have "\<dots> = x + 2147483648 - 4294967296"
      using 3 assms by (intro mod_pos_pos_trivial) linarith+
    finally show ?thesis using 3 by simp
  qed
qed

lemma add_overflow:
  fixes s d :: u32
  defines "r \<equiv> d + s"
  shows "drop_bit 31 ((s XOR r) AND (d XOR r)) = c_bool (sint r \<noteq> sint d + sint s)"
proof -
  have "bit ((s XOR r) AND (d XOR r)) 31 \<longleftrightarrow> sint r \<noteq> sint d + sint s"
    using sint_range [of s] sint_range [of d] wrap_cases [of "sint d + sint s"]
    unfolding bit_and_iff bit_xor_iff r_def unfolding bit_31 sint_wrap
    by (auto split: if_splits)
  then show ?thesis unfolding sign_bit by simp
qed

lemma sub_overflow:
  fixes s d :: u32
  defines "r \<equiv> d - s"
  shows "drop_bit 31 ((d XOR s) AND (d XOR r)) = c_bool (sint r \<noteq> sint d - sint s)"
proof -
  have "bit ((d XOR s) AND (d XOR r)) 31 \<longleftrightarrow> sint r \<noteq> sint d - sint s"
    using sint_range [of s] sint_range [of d] wrap_cases [of "sint d - sint s"]
    unfolding bit_and_iff bit_xor_iff r_def unfolding bit_31 sint_wrap
    by (auto split: if_splits)
  then show ?thesis unfolding sign_bit by simp
qed

lemma add_carry: "(d + s :: u32) < s \<longleftrightarrow> 2 ^ 32 \<le> unat d + unat s"
proof -
  have "unat (d + s) = (unat d + unat s) mod 4294967296"
    by (simp add: unat_word_ariths)
  then show ?thesis
    using unat_u32_less [of d] unat_u32_less [of s]
    by (cases "unat d + unat s < 4294967296") (auto simp: word_less_nat_alt le_mod_geq)
qed

lemma cc_add_l_meaning:
  "cc_add_l m s d (d + s) =
    m\<lparr>m68k_n := c_bool (sint (d + s) < 0), m68k_z := c_bool (d + s = 0),
      m68k_v := c_bool (sint (d + s) \<noteq> sint d + sint s), m68k_cf := c_bool (2 ^ 32 \<le> unat d + unat s),
      m68k_x := c_bool (2 ^ 32 \<le> unat d + unat s)\<rparr>"
  unfolding cc_add_l_def Let_def add_overflow add_carry unfolding sign_bit bit_31 by simp

lemma cc_cmp_l_meaning:
  "cc_cmp_l m s d (d - s) =
    m\<lparr>m68k_n := c_bool (sint (d - s) < 0), m68k_z := c_bool (d = s),
      m68k_v := c_bool (sint (d - s) \<noteq> sint d - sint s), m68k_cf := c_bool (unat d < unat s)\<rparr>"
  unfolding cc_cmp_l_def sub_overflow unfolding sign_bit bit_31 by (simp add: word_less_nat_alt)

lemma cc_sub_l_meaning:
  "cc_sub_l m s d (d - s) = (cc_cmp_l m s d (d - s))\<lparr>m68k_x := c_bool (unat d < unat s)\<rparr>"
  by (simp add: cc_sub_l_def cc_cmp_l_def Let_def word_less_nat_alt)

text \<open>The conditions after a comparison.\<close>

lemma cond_after_cmp:
  fixes s d :: u32 and m :: m68k
  defines "m' \<equiv> cc_cmp_l m s d (d - s)"
  shows "cond_expr EQ m' \<longleftrightarrow> d = s" "cond_expr NE m' \<longleftrightarrow> d \<noteq> s"
    "cond_expr CS m' \<longleftrightarrow> unat d < unat s" "cond_expr CC m' \<longleftrightarrow> unat s \<le> unat d"
    "cond_expr LT m' \<longleftrightarrow> sint d < sint s" "cond_expr GE m' \<longleftrightarrow> sint s \<le> sint d"
    "cond_expr LE m' \<longleftrightarrow> sint d \<le> sint s" "cond_expr GT m' \<longleftrightarrow> sint s < sint d"
proof -
  show "cond_expr EQ m' \<longleftrightarrow> d = s" "cond_expr NE m' \<longleftrightarrow> d \<noteq> s"
    "cond_expr CS m' \<longleftrightarrow> unat d < unat s" "cond_expr CC m' \<longleftrightarrow> unat s \<le> unat d"
    by (auto simp: m'_def cc_cmp_l_meaning)
  have lt: "(sint (d - s) < 0) \<noteq> (sint (d - s) \<noteq> sint d - sint s) \<longleftrightarrow> sint d < sint s"
    using sint_range [of s] sint_range [of d] wrap_cases [of "sint d - sint s"]
    unfolding sint_wrap by (auto split: if_splits)
  have eq: "d = s \<longleftrightarrow> sint d = sint s" by (auto intro: signed_word_eqI)
  show "cond_expr LT m' \<longleftrightarrow> sint d < sint s" "cond_expr GE m' \<longleftrightarrow> sint s \<le> sint d"
    "cond_expr LE m' \<longleftrightarrow> sint d \<le> sint s" "cond_expr GT m' \<longleftrightarrow> sint s < sint d"
    using lt eq by (auto simp: m'_def cc_cmp_l_meaning)
qed

end
