(* ===== verification/M68K_Switch.thy ===== *)
theory M68K_Switch
  imports M68K_Ops Sprint
begin

text \<open>
  M68K backend A, \<open>src/m68k/m68k_switch.c\<close>: the big-switch interpreter that decodes each
  16-bit opcode at run time, with one definition per group of the outer switch. A group
  takes and returns the locals of the loop; \<open>pc\<close> is already past the opcode word, and
  \<open>op\<close> is the opcode promoted to 32 bits.
\<close>

section \<open>Fetch helpers and sized access\<close>

type_synonym m68k_local = "m68k \<times> mem_env \<times> u32"

definition f16 :: "mem_env \<Rightarrow> u32 \<Rightarrow> u16 outcome" where
  "f16 e a = memory_read_uint16 e a"

definition f32 :: "mem_env \<Rightarrow> u32 \<Rightarrow> u32 outcome" where
  "f32 e a = memory_read_uint32 e a"

text \<open>\<open>(uint32_t)(int32_t)(int16_t)f16(pc)\<close>\<close>

definition f16_sext :: "mem_env \<Rightarrow> u32 \<Rightarrow> u32 outcome" where
  "f16_sext e a = bindE (f16 e a) (\<lambda>w. Inr (scast w))"

text \<open>\<open>size == 4 ? f32(a) : size == 2 ? f16(a) : memory_read_uint8(a)\<close>\<close>

definition read_sized :: "mem_env \<Rightarrow> u32 \<Rightarrow> u32 \<Rightarrow> u32 outcome" where
  "read_sized e a sz =
    (if sz = 4 then f32 e a
     else if sz = 2 then bindE (f16 e a) (\<lambda>v. Inr (ucast v))
     else bindE (memory_read_uint8 e a) (\<lambda>v. Inr (ucast v)))"

definition write_sized :: "mem_env \<Rightarrow> u32 \<Rightarrow> u32 \<Rightarrow> u32 \<Rightarrow> mem_env outcome" where
  "write_sized e a sz val =
    (if sz = 4 then memory_write_uint32 e a val
     else if sz = 2 then memory_write_uint16 e a (ucast val)
     else memory_write_uint8 e a (ucast val))"

definition cc_nz_sized :: "m68k \<Rightarrow> u32 \<Rightarrow> u32 \<Rightarrow> m68k" where
  "cc_nz_sized m sz val =
    (if sz = 4 then cc_nz_l m val
     else if sz = 2 then cc_nz_w m (ucast val) else cc_nz_b m (ucast val))"

section \<open>Opcode groups\<close>

definition sw_cmpi :: "u32 \<Rightarrow> m68k_local \<Rightarrow> m68k_local outcome" where
  "sw_cmpi op = (\<lambda>(m, e, pc).
    if op AND 0xFFF8 = 0x0C80
    then bindE (f32 e pc) (\<lambda>s.
      let d = get_reg m (op AND 7)
      in Inr (cc_cmp_l m s d (d - s), e, pc + 4))
    else m68k_illegal m op)"

text \<open>MOVE: the source operand, by EA mode, and its side effects.\<close>

definition move_src :: "u32 \<Rightarrow> u32 \<Rightarrow> m68k_local \<Rightarrow> (u32 \<times> m68k_local) outcome" where
  "move_src op sz = (\<lambda>(m, e, pc).
    let sm = drop_bit 3 op AND 7; sr = op AND 7
    in if sm = 0 then Inr (get_reg m sr, m, e, pc)
       else if sm = 3
       then (let a = get_reg m (8 + sr)
             in bindE (read_sized e a sz) (\<lambda>val.
                Inr (val, set_reg m (8 + sr) (a + sz), e, pc)))
       else if sm = 5
       then bindE (f16_sext e pc) (\<lambda>d16.
              let a = get_reg m (8 + sr) + d16
              in bindE (read_sized e a sz) (\<lambda>val. Inr (val, m, e, pc + 2)))
       else if sm = 7 \<and> sr = 4
       then (if sz = 4 then bindE (f32 e pc) (\<lambda>val. Inr (val, m, e, pc + 4))
             else bindE (f16 e pc) (\<lambda>val. Inr (ucast val, m, e, pc + 2)))
       else m68k_illegal m op)"

text \<open>Writing the destination; \<open>True\<close> when the condition codes are set afterwards.\<close>

definition move_dst :: "u32 \<Rightarrow> u32 \<Rightarrow> u32 \<Rightarrow> m68k_local \<Rightarrow> (bool \<times> m68k_local) outcome" where
  "move_dst op sz val = (\<lambda>(m, e, pc).
    let dm = drop_bit 6 op AND 7; dr = drop_bit 9 op AND 7
    in if dm = 0
       then Inr (True,
         (if sz = 4 then set_reg m dr val
          else if sz = 2 then set_reg m dr ((get_reg m dr AND 0xFFFF0000) OR (val AND 0xFFFF))
          else set_reg m dr ((get_reg m dr AND 0xFFFFFF00) OR (val AND 0xFF))), e, pc)
       else if dm = 1 then Inr (False, set_reg m (8 + dr) val, e, pc)
       else if dm = 3
       then (let a = get_reg m (8 + dr)
             in bindE (write_sized e a sz val) (\<lambda>e.
                Inr (True, set_reg m (8 + dr) (a + sz), e, pc)))
       else if dm = 5
       then bindE (f16_sext e pc) (\<lambda>d16.
              let a = get_reg m (8 + dr) + d16
              in bindE (write_sized e a sz val) (\<lambda>e. Inr (True, m, e, pc + 2)))
       else m68k_illegal m op)"

definition sw_move :: "u32 \<Rightarrow> m68k_local \<Rightarrow> m68k_local outcome" where
  "sw_move op s =
    (let sz = (if drop_bit 12 op = 2 then 4 else if drop_bit 12 op = 3 then 2 else 1)
     in bindE (move_src op sz s) (\<lambda>(val, s).
        bindE (move_dst op sz val s) (\<lambda>(flags, m, e, pc).
        Inr (if flags then cc_nz_sized m sz val else m, e, pc))))"

definition sw_misc :: "u32 \<Rightarrow> m68k_local \<Rightarrow> m68k_local outcome" where
  "sw_misc op = (\<lambda>(m, e, pc).
    if op AND 0xFFC0 = 0x4A80 \<and> drop_bit 3 op AND 7 = 0
    then Inr (cc_nz_l m (get_reg m (op AND 7)), e, pc)
    else if op AND 0xFFC0 = 0x4A40 \<and> drop_bit 3 op AND 7 = 0
    then Inr (cc_nz_w m (ucast (get_reg m (op AND 7))), e, pc)
    else if op AND 0xFFC0 = 0x4A00 \<and> drop_bit 3 op AND 7 = 0
    then Inr (cc_nz_b m (ucast (get_reg m (op AND 7))), e, pc)
    else if op AND 0xF1F8 = 0x41E8
    then bindE (f16_sext e pc) (\<lambda>d16.
      Inr (set_reg m (8 + (drop_bit 9 op AND 7)) (get_reg m (8 + (op AND 7)) + d16), e, pc + 2))
    else if op = 0x4E71 then Inr (m, e, pc)
    else m68k_illegal m op)"

definition sw_dbcc :: "u32 \<Rightarrow> m68k_local \<Rightarrow> m68k_local outcome" where
  "sw_dbcc op = (\<lambda>(m, e, pc).
    let cond = drop_bit 8 op AND 0xF; rn = op AND 7
    in bindE (f16_sext e pc) (\<lambda>d16.
       let target = pc + d16; pc = pc + 2;
           cnd = (if cond = 0 then True else if cond = 1 then False else m68k_cond m cond)
       in if \<not> cnd
          then (let w = ucast (get_reg m rn - 1) :: u16;
                    m = set_reg m rn ((get_reg m rn AND 0xFFFF0000) OR ucast w)
                in Inr (m, e, if w \<noteq> 0xFFFF then target else pc))
          else Inr (m, e, pc)))"

definition sw_addq :: "u32 \<Rightarrow> m68k_local \<Rightarrow> m68k_local outcome" where
  "sw_addq op = (\<lambda>(m, e, pc).
    if op AND 0xF0F8 = 0x50C8 then sw_dbcc op (m, e, pc)
    else if drop_bit 6 op AND 3 = 2
    then (let q = drop_bit 9 op AND 7; q = (if q \<noteq> 0 then q else 8);
              mode = drop_bit 3 op AND 7; rn = op AND 7
          in if mode = 0
             then (let d = get_reg m rn
                   in if op AND 0x0100 \<noteq> 0
                      then (let r = d - q in Inr (cc_sub_l (set_reg m rn r) q d r, e, pc))
                      else (let r = d + q in Inr (cc_add_l (set_reg m rn r) q d r, e, pc)))
             else if mode = 1 \<and> op AND 0x0100 = 0
             then Inr (set_reg m (8 + rn) (get_reg m (8 + rn) + q), e, pc)
             else m68k_illegal m op)
    else m68k_illegal m op)"

definition sw_bcc :: "u32 \<Rightarrow> m68k_local \<Rightarrow> m68k_local outcome" where
  "sw_bcc op = (\<lambda>(m, e, pc).
    let cond = drop_bit 8 op AND 0xF; d8 = sext8 (op AND 0xFF)
    in bindE (if d8 = 0 then bindE (f16_sext e pc) (\<lambda>d16. Inr (pc + d16, pc + 2))
              else Inr (pc + d8, pc)) (\<lambda>(target, pc).
       if cond = 1 then m68k_illegal m op
       else Inr (m, e, if cond = 0 \<or> m68k_cond m cond then target else pc)))"

definition sw_moveq :: "u32 \<Rightarrow> m68k_local \<Rightarrow> m68k_local outcome" where
  "sw_moveq op = (\<lambda>(m, e, pc).
    let r = sext8 (op AND 0xFF)
    in Inr (cc_nz_l (set_reg m (drop_bit 9 op AND 7) r) r, e, pc))"

text \<open>The register-to-register groups 8, 9, B, C and D.\<close>

definition sw_or :: "u32 \<Rightarrow> m68k_local \<Rightarrow> m68k_local outcome" where
  "sw_or op = (\<lambda>(m, e, pc).
    if op AND 0x01F8 = 0x0080
    then (let dn = drop_bit 9 op AND 7; r = get_reg m dn OR get_reg m (op AND 7)
          in Inr (cc_nz_l (set_reg m dn r) r, e, pc))
    else m68k_illegal m op)"

definition sw_sub :: "u32 \<Rightarrow> m68k_local \<Rightarrow> m68k_local outcome" where
  "sw_sub op = (\<lambda>(m, e, pc).
    if op AND 0x01F8 = 0x0080
    then (let dn = drop_bit 9 op AND 7; s = get_reg m (op AND 7); d = get_reg m dn; r = d - s
          in Inr (cc_sub_l (set_reg m dn r) s d r, e, pc))
    else m68k_illegal m op)"

definition sw_cmp_eor :: "u32 \<Rightarrow> m68k_local \<Rightarrow> m68k_local outcome" where
  "sw_cmp_eor op = (\<lambda>(m, e, pc).
    if op AND 0x01F8 = 0x0080
    then (let s = get_reg m (op AND 7); d = get_reg m (drop_bit 9 op AND 7)
          in Inr (cc_cmp_l m s d (d - s), e, pc))
    else if op AND 0x01F8 = 0x0180
    then (let r = get_reg m (op AND 7) XOR get_reg m (drop_bit 9 op AND 7)
          in Inr (cc_nz_l (set_reg m (op AND 7) r) r, e, pc))
    else m68k_illegal m op)"

definition sw_and :: "u32 \<Rightarrow> m68k_local \<Rightarrow> m68k_local outcome" where
  "sw_and op = (\<lambda>(m, e, pc).
    if op AND 0x01F8 = 0x0080
    then (let dn = drop_bit 9 op AND 7; r = get_reg m dn AND get_reg m (op AND 7)
          in Inr (cc_nz_l (set_reg m dn r) r, e, pc))
    else m68k_illegal m op)"

definition sw_add :: "u32 \<Rightarrow> m68k_local \<Rightarrow> m68k_local outcome" where
  "sw_add op = (\<lambda>(m, e, pc).
    if op AND 0x01F8 = 0x0080
    then (let dn = drop_bit 9 op AND 7; s = get_reg m (op AND 7); d = get_reg m dn; r = d + s
          in Inr (cc_add_l (set_reg m dn r) s d r, e, pc))
    else m68k_illegal m op)"

definition sw_shift :: "u32 \<Rightarrow> m68k_local \<Rightarrow> m68k_local outcome" where
  "sw_shift op = (\<lambda>(m, e, pc).
    if drop_bit 6 op AND 3 = 2 \<and> drop_bit 3 op AND 7 = 1
    then (let q = drop_bit 9 op AND 7; q = (if q \<noteq> 0 then q else 8);
              rn = op AND 7; val = get_reg m rn;
              (r, cf) = (if op AND 0x0100 \<noteq> 0
                         then (push_bit (unat q) val, drop_bit (unat (32 - q)) val AND 1)
                         else (drop_bit (unat q) val, drop_bit (unat (q - 1)) val AND 1));
              m = (set_reg m rn r)\<lparr>m68k_cf := cf, m68k_x := cf, m68k_n := drop_bit 31 r,
                     m68k_z := c_bool (r = 0), m68k_v := 0\<rparr>
          in Inr (m, e, pc))
    else m68k_illegal m op)"

section \<open>The loop\<close>

definition m68k_dispatch :: "u32 \<Rightarrow> m68k_local \<Rightarrow> m68k_local outcome" where
  "m68k_dispatch op s =
    (let g = drop_bit 12 op
     in if g = 0x0 then sw_cmpi op s
        else if g = 0x1 \<or> g = 0x2 \<or> g = 0x3 then sw_move op s
        else if g = 0x4 then sw_misc op s
        else if g = 0x5 then sw_addq op s
        else if g = 0x6 then sw_bcc op s
        else if g = 0x7 then sw_moveq op s
        else if g = 0x8 then sw_or op s
        else if g = 0x9 then sw_sub op s
        else if g = 0xB then sw_cmp_eor op s
        else if g = 0xC then sw_and op s
        else if g = 0xD then sw_add op s
        else if g = 0xE then sw_shift op s
        else m68k_illegal (fst s) op)"

definition m68k_step :: "m68k_local \<Rightarrow> m68k_local outcome" where
  "m68k_step = (\<lambda>(m, e, pc).
    bindE (f16 e pc) (\<lambda>op. m68k_dispatch (ucast op) (m, e, pc + 2)))"

definition m68k_run_switch :: "m68k \<Rightarrow> mem_env \<Rightarrow> u32 \<Rightarrow> (m68k \<times> mem_env) outcome" where
  "m68k_run_switch m e budget =
    bindE (sprint m68k_step (unat budget) (m, e, m68k_pc m))
      (\<lambda>(m, e, pc). Inr (m\<lparr>m68k_pc := pc\<rparr>, e))"

end
