(* ===== verification/M68K_Predecode.thy ===== *)
theory M68K_Predecode
  imports M68K_Switch
begin

text \<open>
  M68K backends B and C, \<open>src/m68k/m68k_pd_impl.h\<close>, included by \<open>m68k_pd.c\<close> and, with
  \<open>M68K_ELIDE\<close>, by \<open>m68k_pd_elide.c\<close>: one table entry per 16-bit word, decoded by a
  linear sweep before the run; in the second build a pass over the table retargets
  instructions whose flags are overwritten at once to twins that do not compute them. The
  preprocessor flag is the parameter \<open>elide\<close>.
\<close>

section \<open>Handler ids\<close>

datatype m68k_el =
    MOVEQ | MV_L_IMM_DN | MV_W_IMM_DN | MV_L_DD | MV_L_ANP_DN | MV_L_DN_ANP | MV_L_D16_DN |
    MV_L_DN_D16 | MV_W_D16_DN | MV_W_DN_D16 | MV_B_D16_DN | MV_B_DN_D16 | ADD_L_DD |
    SUB_L_DD | ADDQ_L_DN | SUBQ_L_DN | AND_L_DD | OR_L_DD | EOR_L_DD | LSL_L_IMM | LSR_L_IMM

definition M68K_ELIDABLE :: "m68k_el list" where
  "M68K_ELIDABLE =
    [MOVEQ, MV_L_IMM_DN, MV_W_IMM_DN, MV_L_DD, MV_L_ANP_DN, MV_L_DN_ANP, MV_L_D16_DN,
     MV_L_DN_D16, MV_W_D16_DN, MV_W_DN_D16, MV_B_D16_DN, MV_B_DN_D16, ADD_L_DD, SUB_L_DD,
     ADDQ_L_DN, SUBQ_L_DN, AND_L_DD, OR_L_DD, EOR_L_DD, LSL_L_IMM, LSR_L_IMM]"

datatype m68k_pf = CMP_L_DD | CMPI_L_DN | TST_L_DN | TST_W_DN | TST_B_DN

definition M68K_PUREFLAG :: "m68k_pf list" where
  "M68K_PUREFLAG = [CMP_L_DD, CMPI_L_DN, TST_L_DN, TST_W_DN, TST_B_DN]"

definition M68K_BCC :: "m68k_cc list" where
  "M68K_BCC = [CC, CS, NE, EQ, PL, MI, GE, LT, GT, LE]"

text \<open>\<open>MI_##nm\<close>, \<open>MI_##nm##_NF\<close> of an elidable \<open>nm\<close> are \<open>MI_EL nm\<close>, \<open>MI_NF nm\<close>; a
  pure-flag id is \<open>MI_PF nm\<close> and a conditional branch \<open>MI_Bcc cc\<close>.\<close>

datatype m68k_id =
    MI_ILLEGAL | MI_FILLER | MI_NOP1 | MI_NOP2 | MI_NOP3 | MI_EL m68k_el | MI_NF m68k_el |
    MI_PF m68k_pf | MI_MOVEA_L_IMM | MI_ADDQ_L_AN | MI_LEA_D16 | MI_NOP | MI_BRA | MI_DBRA |
    MI_Bcc m68k_cc

text \<open>The ids in the order of the C enumeration; \<open>id + 1\<close> is the next one.\<close>

definition mi_enum :: "m68k_id list" where
  "mi_enum = [MI_ILLEGAL, MI_FILLER, MI_NOP1, MI_NOP2, MI_NOP3]
     @ concat (map (\<lambda>nm. [MI_EL nm, MI_NF nm]) M68K_ELIDABLE)
     @ map MI_PF M68K_PUREFLAG
     @ [MI_MOVEA_L_IMM, MI_ADDQ_L_AN, MI_LEA_D16, MI_NOP, MI_BRA, MI_DBRA]
     @ map MI_Bcc M68K_BCC"

definition mi_number :: "m68k_id \<Rightarrow> nat" where
  "mi_number i = length (takeWhile (\<lambda>j. j \<noteq> i) mi_enum)"

definition mi_next :: "m68k_id \<Rightarrow> m68k_id" where
  "mi_next i = mi_enum ! (mi_number i + 1)"

section \<open>Entries and decoding\<close>

record m68k_ent =
  mi_id :: m68k_id
  mi_a :: u8
  mi_b :: u8
  mi_c :: u32

definition DR_OFF :: "u32 \<Rightarrow> u8" where "DR_OFF n = ucast (n * 4)"
definition AR_OFF :: "u32 \<Rightarrow> u8" where "AR_OFF n = ucast (32 + n * 4)"

definition m68k_ent_of :: "m68k_id \<Rightarrow> u8 \<Rightarrow> u8 \<Rightarrow> u32 \<Rightarrow> m68k_ent" where
  "m68k_ent_of i a b c = \<lparr>mi_id = i, mi_a = a, mi_b = b, mi_c = c\<rparr>"

text \<open>The entry every decode starts from.\<close>

abbreviation m68k_blank :: "u32 \<Rightarrow> m68k_ent" where
  "m68k_blank op \<equiv> m68k_ent_of MI_ILLEGAL 0 0 op"

text \<open>\<open>memory_read_uint16(addr + 2)\<close> sign-extended.\<close>

definition ext_d16 :: "mem_env \<Rightarrow> u32 \<Rightarrow> u32 outcome" where
  "ext_d16 e addr = bindE (memory_read_uint16 e (addr + 2)) (\<lambda>w. Inr (scast w))"

definition mpd_move :: "mem_env \<Rightarrow> u32 \<Rightarrow> u32 \<Rightarrow> (m68k_ent \<times> nat) outcome" where
  "mpd_move e addr op =
    (let dr = drop_bit 9 op AND 7; sr = op AND 7; szc = drop_bit 12 op;
         sm = drop_bit 3 op AND 7; dm = drop_bit 6 op AND 7
     in if szc = 2 \<and> dm = 1 \<and> sm = 7 \<and> sr = 4
        then bindE (memory_read_uint32 e (addr + 2)) (\<lambda>imm.
          Inr (m68k_ent_of MI_MOVEA_L_IMM (AR_OFF dr) 0 imm, 3))
        else if szc = 2 \<and> sm = 7 \<and> sr = 4 \<and> dm = 0
        then bindE (memory_read_uint32 e (addr + 2)) (\<lambda>imm.
          Inr (m68k_ent_of (MI_EL MV_L_IMM_DN) (DR_OFF dr) 0 imm, 3))
        else if szc = 3 \<and> sm = 7 \<and> sr = 4 \<and> dm = 0
        then bindE (memory_read_uint16 e (addr + 2)) (\<lambda>imm.
          Inr (m68k_ent_of (MI_EL MV_W_IMM_DN) (DR_OFF dr) 0 (ucast imm), 2))
        else if szc = 2 \<and> sm = 0 \<and> dm = 0
        then Inr (m68k_ent_of (MI_EL MV_L_DD) (DR_OFF dr) (DR_OFF sr) op, 1)
        else if szc = 2 \<and> sm = 3 \<and> dm = 0
        then Inr (m68k_ent_of (MI_EL MV_L_ANP_DN) (DR_OFF dr) (AR_OFF sr) op, 1)
        else if szc = 2 \<and> sm = 0 \<and> dm = 3
        then Inr (m68k_ent_of (MI_EL MV_L_DN_ANP) (DR_OFF sr) (AR_OFF dr) op, 1)
        else if sm = 5 \<and> dm = 0
        then bindE (ext_d16 e addr) (\<lambda>d16. Inr (m68k_ent_of
          (MI_EL (if szc = 2 then MV_L_D16_DN else if szc = 3 then MV_W_D16_DN else MV_B_D16_DN))
          (DR_OFF dr) (AR_OFF sr) d16, 2))
        else if sm = 0 \<and> dm = 5
        then bindE (ext_d16 e addr) (\<lambda>d16. Inr (m68k_ent_of
          (MI_EL (if szc = 2 then MV_L_DN_D16 else if szc = 3 then MV_W_DN_D16 else MV_B_DN_D16))
          (DR_OFF sr) (AR_OFF dr) d16, 2))
        else Inr (m68k_blank op, 1))"

definition mpd_misc :: "mem_env \<Rightarrow> u32 \<Rightarrow> u32 \<Rightarrow> (m68k_ent \<times> nat) outcome" where
  "mpd_misc e addr op =
    (let dr = drop_bit 9 op AND 7; sr = op AND 7
     in if op AND 0xFFC0 = 0x4A80 \<and> drop_bit 3 op AND 7 = 0
        then Inr (m68k_ent_of (MI_PF TST_L_DN) (DR_OFF sr) 0 op, 1)
        else if op AND 0xFFC0 = 0x4A40 \<and> drop_bit 3 op AND 7 = 0
        then Inr (m68k_ent_of (MI_PF TST_W_DN) (DR_OFF sr) 0 op, 1)
        else if op AND 0xFFC0 = 0x4A00 \<and> drop_bit 3 op AND 7 = 0
        then Inr (m68k_ent_of (MI_PF TST_B_DN) (DR_OFF sr) 0 op, 1)
        else if op AND 0xF1F8 = 0x41E8
        then bindE (ext_d16 e addr) (\<lambda>d16.
          Inr (m68k_ent_of MI_LEA_D16 (AR_OFF dr) (AR_OFF sr) d16, 2))
        else if op = 0x4E71 then Inr (m68k_ent_of MI_NOP 0 0 op, 1)
        else Inr (m68k_blank op, 1))"

definition mpd_addq :: "mem_env \<Rightarrow> u32 \<Rightarrow> u32 \<Rightarrow> (m68k_ent \<times> nat) outcome" where
  "mpd_addq e addr op =
    (let dr = drop_bit 9 op AND 7; sr = op AND 7
     in if op AND 0xF0F8 = 0x50C8
        then (if drop_bit 8 op AND 0xF \<noteq> 1 then Inr (m68k_blank op, 1)
              else bindE (ext_d16 e addr) (\<lambda>d16.
                Inr (m68k_ent_of MI_DBRA 0 (DR_OFF sr) (drop_bit 1 (addr + 2 + d16)), 2)))
        else if drop_bit 6 op AND 3 = 2
        then (let q = (if dr \<noteq> 0 then dr else 8); mode = drop_bit 3 op AND 7
              in if mode = 0
                 then Inr (m68k_ent_of (MI_EL (if op AND 0x0100 \<noteq> 0 then SUBQ_L_DN else ADDQ_L_DN))
                   (DR_OFF sr) (ucast q) op, 1)
                 else if mode = 1 \<and> op AND 0x0100 = 0
                 then Inr (m68k_ent_of MI_ADDQ_L_AN (AR_OFF sr) (ucast q) op, 1)
                 else Inr (m68k_blank op, 1))
        else Inr (m68k_blank op, 1))"

text \<open>The table \<open>bcc_id\<close>: \<open>BRA\<close> at 0, the conditions of \<open>M68K_CONDS\<close>, else no branch.\<close>

definition bcc_id :: "u32 \<Rightarrow> m68k_id option" where
  "bcc_id cond = (if cond = 0 then Some MI_BRA
     else if cond = 4 then Some (MI_Bcc CC) else if cond = 5 then Some (MI_Bcc CS)
     else if cond = 6 then Some (MI_Bcc NE) else if cond = 7 then Some (MI_Bcc EQ)
     else if cond = 10 then Some (MI_Bcc PL) else if cond = 11 then Some (MI_Bcc MI)
     else if cond = 12 then Some (MI_Bcc GE) else if cond = 13 then Some (MI_Bcc LT)
     else if cond = 14 then Some (MI_Bcc GT) else if cond = 15 then Some (MI_Bcc LE)
     else None)"

definition mpd_bcc :: "mem_env \<Rightarrow> u32 \<Rightarrow> u32 \<Rightarrow> (m68k_ent \<times> nat) outcome" where
  "mpd_bcc e addr op =
    (let cond = drop_bit 8 op AND 0xF; d8 = sext8 (op AND 0xFF);
         len = (if d8 = 0 then 2 else 1)
     in bindE (if d8 = 0 then bindE (ext_d16 e addr) (\<lambda>d16. Inr (addr + 2 + d16))
               else Inr (addr + 2 + d8)) (\<lambda>target.
        if cond = 1 then Inr (m68k_blank op, 1)
        else (case bcc_id cond of
                None \<Rightarrow> Inr (m68k_blank op, 1)
              | Some i \<Rightarrow> Inr (m68k_ent_of i (of_nat len) 0 (drop_bit 1 target), len))))"

text \<open>A register-to-register instruction: \<open>a\<close> is the destination, \<open>b\<close> the source.\<close>

definition mpd_rr :: "m68k_id \<Rightarrow> u32 \<Rightarrow> u32 \<Rightarrow> u32 \<Rightarrow> (m68k_ent \<times> nat) outcome" where
  "mpd_rr i dst src op = Inr (m68k_ent_of i (DR_OFF dst) (DR_OFF src) op, 1)"

definition mpd_decode :: "mem_env \<Rightarrow> u32 \<Rightarrow> (m68k_ent \<times> nat) outcome" where
  "mpd_decode e addr =
    bindE (memory_read_uint16 e addr) (\<lambda>op16.
    let op = ucast op16; dr = drop_bit 9 op AND 7; sr = op AND 7; g = drop_bit 12 op;
        blank = Inr (m68k_blank op, 1)
    in if g = 0x0
       then (if op AND 0xFFF8 = 0x0C80
             then bindE (memory_read_uint32 e (addr + 2)) (\<lambda>imm.
               Inr (m68k_ent_of (MI_PF CMPI_L_DN) (DR_OFF sr) 0 imm, 3))
             else blank)
       else if g = 0x1 \<or> g = 0x2 \<or> g = 0x3 then mpd_move e addr op
       else if g = 0x4 then mpd_misc e addr op
       else if g = 0x5 then mpd_addq e addr op
       else if g = 0x6 then mpd_bcc e addr op
       else if g = 0x7 then Inr (m68k_ent_of (MI_EL MOVEQ) (DR_OFF dr) 0 (sext8 (op AND 0xFF)), 1)
       else if g = 0x8
       then (if op AND 0x01F8 = 0x0080 then mpd_rr (MI_EL OR_L_DD) dr sr op else blank)
       else if g = 0x9
       then (if op AND 0x01F8 = 0x0080 then mpd_rr (MI_EL SUB_L_DD) dr sr op else blank)
       else if g = 0xB
       then (if op AND 0x01F8 = 0x0080 then mpd_rr (MI_PF CMP_L_DD) dr sr op
             else if op AND 0x01F8 = 0x0180 then mpd_rr (MI_EL EOR_L_DD) sr dr op else blank)
       else if g = 0xC
       then (if op AND 0x01F8 = 0x0080 then mpd_rr (MI_EL AND_L_DD) dr sr op else blank)
       else if g = 0xD
       then (if op AND 0x01F8 = 0x0080 then mpd_rr (MI_EL ADD_L_DD) dr sr op else blank)
       else if g = 0xE
       then (if drop_bit 6 op AND 3 = 2 \<and> drop_bit 3 op AND 7 = 1
             then Inr (m68k_ent_of (MI_EL (if op AND 0x0100 \<noteq> 0 then LSL_L_IMM else LSR_L_IMM))
               (DR_OFF sr) (ucast (if dr \<noteq> 0 then dr else 8)) op, 1)
             else blank)
       else blank)"

section \<open>The table\<close>

definition MPD_REGION_BYTES :: nat where "MPD_REGION_BYTES = 256 * 1024"
definition MPD_ENTRIES :: nat where "MPD_ENTRIES = MPD_REGION_BYTES div 2"

lemmas mpd_region = MPD_REGION_BYTES_def MPD_ENTRIES_def

text \<open>The static arrays \<open>MPD_TAB\<close> and \<open>MPD_LEN\<close> (the latter only with \<open>M68K_ELIDE\<close>).\<close>

type_synonym mpd_tables = "m68k_ent list \<times> nat list"

text \<open>\<open>for (w = 1; w < len; w++) MPD_TAB[i + w].id = MI_FILLER\<close>: the other fields keep
  what an earlier decode left in them.\<close>

definition mpd_filler :: "m68k_ent list \<Rightarrow> nat \<Rightarrow> m68k_ent list outcome" where
  "mpd_filler tab j =
    bindE (array_get tab j) (\<lambda>e. array_set tab j (e\<lparr>mi_id := MI_FILLER\<rparr>))"

definition mpd_fillers :: "nat \<Rightarrow> nat \<Rightarrow> m68k_ent list \<Rightarrow> m68k_ent list outcome" where
  "mpd_fillers i len tab =
    (if len = 3 then bindE (mpd_filler tab (i + 1)) (\<lambda>tab. mpd_filler tab (i + 2))
     else if len = 2 then mpd_filler tab (i + 1) else Inr tab)"

definition mpd_enter :: "bool \<Rightarrow> nat \<Rightarrow> m68k_ent \<times> nat \<Rightarrow> mpd_tables \<Rightarrow> mpd_tables outcome" where
  "mpd_enter elide i = (\<lambda>(ent, len) (tab, lens).
    bindE (array_set tab i ent) (\<lambda>tab.
    bindE (if elide then array_set lens i len else Inr lens) (\<lambda>lens.
    bindE (mpd_fillers i len tab) (\<lambda>tab. Inr (tab, lens)))))"

text \<open>The sweep. The length a decode returns is 1, 2 or 3 (\<open>mpd_decode_len\<close>); the guard
  on 0 only serves the termination argument.\<close>

function mpd_sweep :: "bool \<Rightarrow> mem_env \<Rightarrow> nat \<Rightarrow> mpd_tables \<Rightarrow> mpd_tables outcome" where
  "mpd_sweep elide g addr t =
    (if addr < MPD_REGION_BYTES
     then bindE (mpd_decode g (of_nat addr)) (\<lambda>(ent, len).
          bindE (mpd_enter elide (addr div 2) (ent, len) t) (\<lambda>t.
          if len = 0 then Inl Undefined else mpd_sweep elide g (addr + len * 2) t))
     else Inr t)"
  by pat_completeness auto
termination
  by (relation "measure (\<lambda>(elide, g, addr, t). MPD_REGION_BYTES - addr)") auto

declare mpd_sweep.simps [simp del]

section \<open>Flag liveness\<close>

fun mpd_writes_all_nzvc :: "m68k_id \<Rightarrow> bool" where
  "mpd_writes_all_nzvc (MI_EL nm) = True"
| "mpd_writes_all_nzvc (MI_PF nm) = True"
| "mpd_writes_all_nzvc _ = False"

fun mpd_is_elidable :: "m68k_id \<Rightarrow> bool" where
  "mpd_is_elidable (MI_EL nm) = True"
| "mpd_is_elidable _ = False"

definition mpd_elided :: "m68k_id \<Rightarrow> m68k_id" where
  "mpd_elided i =
    (if mpd_is_elidable i then mi_next i
     else if i = MI_PF CMP_L_DD \<or> i = MI_PF TST_L_DN \<or> i = MI_PF TST_W_DN \<or> i = MI_PF TST_B_DN
     then MI_NOP1
     else if i = MI_PF CMPI_L_DN then MI_NOP3 else i)"

text \<open>The pass. Where a length were 0 the C loop would not advance; it is a loop the
  standard lets the compiler assume to terminate, so the model treats it as undefined.
  After a sweep this does not happen (\<open>mpd_elide_pass_Inr\<close>).\<close>

function mpd_elide_pass :: "nat list \<Rightarrow> nat \<Rightarrow> m68k_ent list \<Rightarrow> m68k_ent list outcome" where
  "mpd_elide_pass lens idx tab =
    (if idx < MPD_ENTRIES
     then bindE (array_get lens idx) (\<lambda>len.
       let succ = idx + len
       in if succ \<ge> MPD_ENTRIES then Inr tab
          else bindE (array_get tab idx) (\<lambda>cur. bindE (array_get tab succ) (\<lambda>nxt.
            bindE (if mpd_writes_all_nzvc (mi_id nxt)
                   then array_set tab idx (cur\<lparr>mi_id := mpd_elided (mi_id cur)\<rparr>) else Inr tab) (\<lambda>tab.
            if len = 0 then Inl Undefined else mpd_elide_pass lens succ tab))))
     else Inr tab)"
  by pat_completeness auto
termination
  by (relation "measure (\<lambda>(lens, idx, tab). MPD_ENTRIES - idx)") auto

declare mpd_elide_pass.simps [simp del]

section \<open>Handlers\<close>

text \<open>
  \<open>REGO(m, off)\<close> reads the state as an array of words from \<open>regs\<close> on. The decoder
  writes register offsets 0 to 60 only (\<open>mpd_decode_ent_ok\<close>), so the fields further on
  and misaligned offsets need no model.
\<close>

definition ra :: "m68k_ent \<Rightarrow> m68k \<Rightarrow> u32" where "ra e m = regs m ! (unat (mi_a e) div 4)"
definition rb :: "m68k_ent \<Rightarrow> m68k \<Rightarrow> u32" where "rb e m = regs m ! (unat (mi_b e) div 4)"

definition to_ra :: "m68k_ent \<Rightarrow> m68k \<Rightarrow> u32 \<Rightarrow> m68k" where
  "to_ra e m v = m\<lparr>regs := (regs m)[unat (mi_a e) div 4 := v]\<rparr>"

definition to_rb :: "m68k_ent \<Rightarrow> m68k \<Rightarrow> u32 \<Rightarrow> m68k" where
  "to_rb e m v = m\<lparr>regs := (regs m)[unat (mi_b e) div 4 := v]\<rparr>"

definition cc_if :: "bool \<Rightarrow> (m68k \<Rightarrow> 'r \<Rightarrow> m68k) \<Rightarrow> 'r \<Rightarrow> m68k \<Rightarrow> m68k" where
  "cc_if FL cc r m = (if FL then cc m r else m)"

definition shift_flags :: "bool \<Rightarrow> u32 \<Rightarrow> m68k \<Rightarrow> m68k" where
  "shift_flags FL r m = (if FL then m\<lparr>m68k_cf := m68k_x m, m68k_n := drop_bit 31 r,
     m68k_z := c_bool (r = 0), m68k_v := 0\<rparr> else m)"

text \<open>\<open>HPAIR(nm, LEN, body)\<close>: the body with \<open>FL\<close> set or clear, and the length in words.\<close>

fun el_body :: "m68k_el \<Rightarrow> bool \<Rightarrow> m68k_ent \<Rightarrow> m68k \<Rightarrow> mem_env \<Rightarrow> (m68k \<times> mem_env) outcome" where
  "el_body MOVEQ FL e m g =
     (let r = mi_c e
      in Inr (cc_if FL cc_nz_l r (to_ra e m r), g))"
| "el_body MV_L_IMM_DN FL e m g =
     (Inr (cc_if FL cc_nz_l (mi_c e) (to_ra e m (mi_c e)), g))"
| "el_body MV_W_IMM_DN FL e m g =
     (Inr (cc_if FL cc_nz_w (ucast (mi_c e))
        (to_ra e m ((ra e m AND 0xFFFF0000) OR (mi_c e AND 0xFFFF))), g))"
| "el_body MV_L_DD FL e m g =
     (let r = rb e m
      in Inr (cc_if FL cc_nz_l r (to_ra e m r), g))"
| "el_body MV_L_ANP_DN FL e m g =
     (let a = rb e m
      in bindE (memory_read_uint32 g a) (\<lambda>r.
         Inr (cc_if FL cc_nz_l r (to_ra e (to_rb e m (a + 4)) r), g)))"
| "el_body MV_L_DN_ANP FL e m g =
     (let a = rb e m; r = ra e m
      in bindE (memory_write_uint32 g a r) (\<lambda>g.
         Inr (cc_if FL cc_nz_l r (to_rb e m (a + 4)), g)))"
| "el_body MV_L_D16_DN FL e m g =
     (bindE (memory_read_uint32 g (rb e m + mi_c e)) (\<lambda>r.
      Inr (cc_if FL cc_nz_l r (to_ra e m r), g)))"
| "el_body MV_L_DN_D16 FL e m g =
     (let r = ra e m
      in bindE (memory_write_uint32 g (rb e m + mi_c e) r) (\<lambda>g. Inr (cc_if FL cc_nz_l r m, g)))"
| "el_body MV_W_D16_DN FL e m g =
     (bindE (memory_read_uint16 g (rb e m + mi_c e)) (\<lambda>r.
      Inr (cc_if FL cc_nz_w r (to_ra e m ((ra e m AND 0xFFFF0000) OR ucast r)), g)))"
| "el_body MV_W_DN_D16 FL e m g =
     (let r = ucast (ra e m)
      in bindE (memory_write_uint16 g (rb e m + mi_c e) r) (\<lambda>g. Inr (cc_if FL cc_nz_w r m, g)))"
| "el_body MV_B_D16_DN FL e m g =
     (bindE (memory_read_uint8 g (rb e m + mi_c e)) (\<lambda>r.
      Inr (cc_if FL cc_nz_b r (to_ra e m ((ra e m AND 0xFFFFFF00) OR ucast r)), g)))"
| "el_body MV_B_DN_D16 FL e m g =
     (let r = ucast (ra e m)
      in bindE (memory_write_uint8 g (rb e m + mi_c e) r) (\<lambda>g. Inr (cc_if FL cc_nz_b r m, g)))"
| "el_body ADD_L_DD FL e m g =
     (let s = rb e m; d = ra e m; r = d + s; m = to_ra e m r
      in Inr (if FL then cc_add_l m s d r else m\<lparr>m68k_x := c_bool (r < s)\<rparr>, g))"
| "el_body SUB_L_DD FL e m g =
     (let s = rb e m; d = ra e m; r = d - s; m = to_ra e m r
      in Inr (if FL then cc_sub_l m s d r else m\<lparr>m68k_x := c_bool (s > d)\<rparr>, g))"
| "el_body ADDQ_L_DN FL e m g =
     (let s = ucast (mi_b e); d = ra e m; r = d + s; m = to_ra e m r
      in Inr (if FL then cc_add_l m s d r else m\<lparr>m68k_x := c_bool (r < s)\<rparr>, g))"
| "el_body SUBQ_L_DN FL e m g =
     (let s = ucast (mi_b e); d = ra e m; r = d - s; m = to_ra e m r
      in Inr (if FL then cc_sub_l m s d r else m\<lparr>m68k_x := c_bool (s > d)\<rparr>, g))"
| "el_body AND_L_DD FL e m g =
     (let r = ra e m AND rb e m
      in Inr (cc_if FL cc_nz_l r (to_ra e m r), g))"
| "el_body OR_L_DD FL e m g =
     (let r = ra e m OR rb e m
      in Inr (cc_if FL cc_nz_l r (to_ra e m r), g))"
| "el_body EOR_L_DD FL e m g =
     (let r = ra e m XOR rb e m
      in Inr (cc_if FL cc_nz_l r (to_ra e m r), g))"
| "el_body LSL_L_IMM FL e m g =
     (let val = ra e m; q = ucast (mi_b e) :: u32; r = push_bit (unat q) val
      in Inr (shift_flags FL r ((to_ra e m r)\<lparr>m68k_x := drop_bit (unat (32 - q)) val AND 1\<rparr>), g))"
| "el_body LSR_L_IMM FL e m g =
     (let val = ra e m; q = ucast (mi_b e) :: u32; r = drop_bit (unat q) val
      in Inr (shift_flags FL r ((to_ra e m r)\<lparr>m68k_x := drop_bit (unat (q - 1)) val AND 1\<rparr>), g))"

fun el_len :: "m68k_el \<Rightarrow> nat" where
  "el_len MOVEQ = 1"
| "el_len MV_L_IMM_DN = 3"
| "el_len MV_W_IMM_DN = 2"
| "el_len MV_L_DD = 1"
| "el_len MV_L_ANP_DN = 1"
| "el_len MV_L_DN_ANP = 1"
| "el_len MV_L_D16_DN = 2"
| "el_len MV_L_DN_D16 = 2"
| "el_len MV_W_D16_DN = 2"
| "el_len MV_W_DN_D16 = 2"
| "el_len MV_B_D16_DN = 2"
| "el_len MV_B_DN_D16 = 2"
| "el_len ADD_L_DD = 1"
| "el_len SUB_L_DD = 1"
| "el_len ADDQ_L_DN = 1"
| "el_len SUBQ_L_DN = 1"
| "el_len AND_L_DD = 1"
| "el_len OR_L_DD = 1"
| "el_len EOR_L_DD = 1"
| "el_len LSL_L_IMM = 1"
| "el_len LSR_L_IMM = 1"

text \<open>The loop's locals: CPU state, guest memory and the entry pointer as an index.\<close>

type_synonym mpd_local = "m68k \<times> mem_env \<times> nat"

fun mpd_handler :: "m68k_id \<Rightarrow> m68k_ent \<Rightarrow> mpd_local \<Rightarrow> mpd_local outcome" where
  "mpd_handler (MI_EL nm) e (m, g, cur) =
     bindE (el_body nm True e m g) (\<lambda>(m, g). Inr (m, g, cur + el_len nm))"
| "mpd_handler (MI_NF nm) e (m, g, cur) =
     bindE (el_body nm False e m g) (\<lambda>(m, g). Inr (m, g, cur + el_len nm))"
| "mpd_handler (MI_PF CMP_L_DD) e (m, g, cur) =
     (let s = rb e m; d = ra e m in Inr (cc_cmp_l m s d (d - s), g, cur + 1))"
| "mpd_handler (MI_PF CMPI_L_DN) e (m, g, cur) =
     (let d = ra e m in Inr (cc_cmp_l m (mi_c e) d (d - mi_c e), g, cur + 3))"
| "mpd_handler (MI_PF TST_L_DN) e (m, g, cur) = Inr (cc_nz_l m (ra e m), g, cur + 1)"
| "mpd_handler (MI_PF TST_W_DN) e (m, g, cur) = Inr (cc_nz_w m (ucast (ra e m)), g, cur + 1)"
| "mpd_handler (MI_PF TST_B_DN) e (m, g, cur) = Inr (cc_nz_b m (ucast (ra e m)), g, cur + 1)"
| "mpd_handler MI_MOVEA_L_IMM e (m, g, cur) = Inr (to_ra e m (mi_c e), g, cur + 3)"
| "mpd_handler MI_ADDQ_L_AN e (m, g, cur) = Inr (to_ra e m (ra e m + ucast (mi_b e)), g, cur + 1)"
| "mpd_handler MI_LEA_D16 e (m, g, cur) = Inr (to_ra e m (rb e m + mi_c e), g, cur + 2)"
| "mpd_handler MI_NOP e (m, g, cur) = Inr (m, g, cur + 1)"
| "mpd_handler MI_NOP1 e (m, g, cur) = Inr (m, g, cur + 1)"
| "mpd_handler MI_NOP2 e (m, g, cur) = Inr (m, g, cur + 2)"
| "mpd_handler MI_NOP3 e (m, g, cur) = Inr (m, g, cur + 3)"
| "mpd_handler MI_BRA e (m, g, cur) = Inr (m, g, unat (mi_c e))"
| "mpd_handler MI_DBRA e (m, g, cur) =
     (let r = rb e m; w = ucast (r - 1) :: u16; m = to_rb e m ((r AND 0xFFFF0000) OR ucast w)
      in Inr (m, g, if w \<noteq> 0xFFFF then unat (mi_c e) else cur + 2))"
| "mpd_handler (MI_Bcc cc) e (m, g, cur) =
     Inr (m, g, if cond_expr cc m then unat (mi_c e) else cur + unat (mi_a e))"
| "mpd_handler MI_ILLEGAL e (m, g, cur) =
     m68k_illegal (m\<lparr>m68k_pc := push_bit 1 (of_nat cur)\<rparr>) (mi_c e)"
| "mpd_handler MI_FILLER e (m, g, cur) =
     m68k_illegal (m\<lparr>m68k_pc := push_bit 1 (of_nat cur)\<rparr>) (mi_c e)"

definition mpd_step :: "m68k_ent list \<Rightarrow> mpd_local \<Rightarrow> mpd_local outcome" where
  "mpd_step tab = (\<lambda>(m, g, cur).
    bindE (array_get tab cur) (\<lambda>e. mpd_handler (mi_id e) e (m, g, cur)))"

definition m68k_run_mpd ::
    "bool \<Rightarrow> mpd_tables \<Rightarrow> m68k \<Rightarrow> mem_env \<Rightarrow> u32 \<Rightarrow> (m68k \<times> mem_env \<times> mpd_tables) outcome" where
  "m68k_run_mpd elide t m g budget =
    bindE (mpd_sweep elide g 0 t) (\<lambda>(tab, lens).
    bindE (if elide then mpd_elide_pass lens 0 tab else Inr tab) (\<lambda>tab.
    bindE (sprint (mpd_step tab) (unat budget) (m, g, unat (drop_bit 1 (m68k_pc m))))
      (\<lambda>(m, g, cur). Inr (m\<lparr>m68k_pc := push_bit 1 (of_nat cur)\<rparr>, g, tab, lens))))"

definition m68k_run_pd ::
    "mpd_tables \<Rightarrow> m68k \<Rightarrow> mem_env \<Rightarrow> u32 \<Rightarrow> (m68k \<times> mem_env \<times> mpd_tables) outcome" where
  "m68k_run_pd = m68k_run_mpd False"

definition m68k_run_pd_elide ::
    "mpd_tables \<Rightarrow> m68k \<Rightarrow> mem_env \<Rightarrow> u32 \<Rightarrow> (m68k \<times> mem_env \<times> mpd_tables) outcome" where
  "m68k_run_pd_elide = m68k_run_mpd True"

end
