(* ===== verification/M68K_Tables.thy ===== *)
theory M68K_Tables
  imports M68K_Predecode
begin

text \<open>
  What the table of the predecoding M68K backends holds: the lengths and register offsets
  of decoded entries, the addresses a linear sweep visits, the entries it leaves there, when
  it returns at all, and what the flag-elision pass of \<open>m68k_pd_elide.c\<close> makes of them.
\<close>

section \<open>Entries\<close>

lemma ent_of [simp]:
  "mi_id (m68k_ent_of i a b c) = i" "mi_a (m68k_ent_of i a b c) = a"
  "mi_b (m68k_ent_of i a b c) = b" "mi_c (m68k_ent_of i a b c) = c"
  by (simp_all add: m68k_ent_of_def)

text \<open>The branches of a decoder, without the conditions that were false.\<close>

lemma if_branch:
  "(if P then x else y) = r \<Longrightarrow> (P \<Longrightarrow> x = r \<Longrightarrow> Q) \<Longrightarrow> (y = r \<Longrightarrow> Q) \<Longrightarrow> Q"
  by (auto split: if_splits)

definition reg_offset :: "u8 \<Rightarrow> bool" where
  "reg_offset x \<longleftrightarrow> 4 dvd unat x \<and> unat x \<le> 60"

lemma unat_reg_offset:
  assumes "unat r < 8"
  shows "unat (DR_OFF r) = 4 * unat r" "unat (AR_OFF r) = 32 + 4 * unat r"
proof -
  have "unat (r * 4) = 4 * unat r" "unat (32 + r * 4) = 32 + 4 * unat r"
    using assms by (simp_all add: unat_word_ariths)
  then show "unat (DR_OFF r) = 4 * unat r" "unat (AR_OFF r) = 32 + 4 * unat r"
    using assms by (simp_all add: DR_OFF_def AR_OFF_def unsigned_ucast_eq take_bit_nat_eq_self)
qed

lemma reg_offset [simp]:
  "unat r < 8 \<Longrightarrow> reg_offset (DR_OFF r)" "unat r < 8 \<Longrightarrow> reg_offset (AR_OFF r)" "reg_offset 0"
  by (auto simp: reg_offset_def unat_reg_offset)

text \<open>Which of the two fields are register offsets: not the length a branch keeps in
  \<open>a\<close>, nor the quick value an ADDQ, SUBQ or shift keeps in \<open>b\<close>.\<close>

fun offset_a :: "m68k_id \<Rightarrow> bool" where
  "offset_a MI_BRA = False"
| "offset_a (MI_Bcc cc) = False"
| "offset_a _ = True"

fun offset_b :: "m68k_id \<Rightarrow> bool" where
  "offset_b MI_ADDQ_L_AN = False"
| "offset_b (MI_EL nm) = (nm \<notin> {ADDQ_L_DN, SUBQ_L_DN, LSL_L_IMM, LSR_L_IMM})"
| "offset_b _ = True"

text \<open>The lengths of the entries the decoder writes. A branch is 1 or 2 words long and keeps its
  length in \<open>a\<close>; the flag-free, no-op and filler ids are written by other passes.\<close>

fun len_ok :: "m68k_id \<Rightarrow> nat \<Rightarrow> bool" where
  "len_ok (MI_EL nm) len = (len = el_len nm)"
| "len_ok (MI_PF nm) len = (len = (if nm = CMPI_L_DN then 3 else 1))"
| "len_ok MI_MOVEA_L_IMM len = (len = 3)"
| "len_ok MI_ADDQ_L_AN len = (len = 1)"
| "len_ok MI_LEA_D16 len = (len = 2)"
| "len_ok MI_NOP len = (len = 1)"
| "len_ok MI_DBRA len = (len = 2)"
| "len_ok MI_ILLEGAL len = (len = 1)"
| "len_ok MI_BRA len = (len \<in> {1, 2})"
| "len_ok (MI_Bcc cc) len = (len \<in> {1, 2})"
| "len_ok _ len = False"

definition ent_ok :: "m68k_ent \<times> nat \<Rightarrow> bool" where
  "ent_ok = (\<lambda>(e, len). len_ok (mi_id e) len \<and> (if offset_a (mi_id e) then reg_offset (mi_a e)
     else unat (mi_a e) = len) \<and> (offset_b (mi_id e) \<longrightarrow> reg_offset (mi_b e)))"

lemma ent_ok_of [simp]:
  "ent_ok (m68k_ent_of i a b c, len) \<longleftrightarrow> len_ok i len \<and>
     (if offset_a i then reg_offset a else unat a = len) \<and> (offset_b i \<longrightarrow> reg_offset b)"
  by (simp add: ent_ok_def)

lemma bcc_id_branch:
  "bcc_id cond = Some i \<Longrightarrow> \<not> offset_a i \<and> offset_b i \<and> len_ok i len = (len \<in> {1, 2})"
  by (auto simp: bcc_id_def split: if_splits)

lemma ent_ok_bcc: "mpd_bcc g pc op = Inr el \<Longrightarrow> ent_ok el"
  using bcc_id_branch [of "drop_bit 8 op AND 0xF"] unfolding mpd_bcc_def Let_def bindE_Inr_iff
  by (elim exE conjE, cases "bcc_id (drop_bit 8 op AND 0xF)"; cases "sext8 (op AND 0xFF) = 0")
    (auto elim!: if_branch simp: bindE_Inr_iff ext_d16_def)

lemma ent_ok_groups:
  "mpd_move g pc op = Inr el \<Longrightarrow> ent_ok el" "mpd_misc g pc op = Inr el \<Longrightarrow> ent_ok el"
  "mpd_addq g pc op = Inr el \<Longrightarrow> ent_ok el"
  unfolding mpd_move_def mpd_misc_def mpd_addq_def Let_def bindE_Inr_iff
  by (auto elim!: if_branch simp: bindE_Inr_iff ext_d16_def and_7_less)

lemma mpd_decode_ent_ok: "mpd_decode g pc = Inr el \<Longrightarrow> ent_ok el"
  unfolding mpd_decode_def Let_def bindE_Inr_iff
  apply (elim exE conjE if_branch)
  apply (auto simp: ent_ok_groups ent_ok_bcc mpd_rr_def bindE_Inr_iff) 
  apply (auto simp: and_7_less) 
  done

lemma el_len_bounds: "el_len nm \<in> {1, 2, 3}"
  by (cases nm) auto

lemma len_ok_bounds: "len_ok i len \<Longrightarrow> len \<in> {1, 2, 3}"
  using el_len_bounds by (cases "(i, len)" rule: len_ok.cases) (auto split: if_splits)

text \<open>A handler goes on after the words its instruction takes, or to the target of a branch.\<close>

definition branch_id :: "m68k_id \<Rightarrow> bool" where
  "branch_id i \<longleftrightarrow> i \<in> {MI_BRA, MI_DBRA} \<union> range MI_Bcc"

lemma mpd_handler_next:
  assumes "ent_ok (e, len)" "mpd_handler (mi_id e) e (m, g, cur) = Inr (m', g', cur')"
  shows "cur' = cur + len \<or> branch_id (mi_id e) \<and> cur' = unat (mi_c e)"
proof (cases "mi_id e")
  case (MI_PF p)
  with assms show ?thesis
    by (cases p) (auto simp: ent_ok_def Let_def)
qed (use assms in \<open>auto simp: ent_ok_def branch_id_def bindE_Inr_iff m68k_illegal_def Let_def
  split: if_splits\<close>)

text \<open>A branch is two words long exactly when the low byte of its first word is 0.\<close>

lemma ucast_scast8: "(ucast (scast (w :: u8) :: u32) :: u8) = w"
  by (rule bit_word_eqI) (auto simp: bit_simps)

lemma low_byte: "(ucast (ucast (op :: u16) AND 0xFF :: u32) :: u8) = ucast op"
proof -
  have "0xFF = (mask 8 :: u32)" by (simp add: mask_eq_exp_minus_1)
  show ?thesis unfolding \<open>0xFF = mask 8\<close> by (intro bit_word_eqI) (auto simp: bit_simps)
qed

lemma sext8_zero: "sext8 (ucast (op :: u16) AND 0xFF) = 0 \<longleftrightarrow> (ucast op :: u8) = 0"
  unfolding sext8_def low_byte by (metis ucast_scast8 scast_0 unsigned_0)

lemma mpd_decode_branch_len:
  assumes "mpd_decode g pc = Inr (e, len)"
  shows "\<exists>op. memory_read_uint16 g pc = Inr op \<and>
    (offset_a (mi_id e) \<or> len = (if (ucast op :: u8) = 0 then 2 else 1))"
proof -
  have groups: "mpd_move g pc w = Inr (e, len) \<Longrightarrow> offset_a (mi_id e)"
    "mpd_misc g pc w = Inr (e, len) \<Longrightarrow> offset_a (mi_id e)"
    "mpd_addq g pc w = Inr (e, len) \<Longrightarrow> offset_a (mi_id e)" for w
    unfolding mpd_move_def mpd_misc_def mpd_addq_def Let_def bindE_Inr_iff
    by (auto elim!: if_branch simp: bindE_Inr_iff ext_d16_def)
  have bcc: "mpd_bcc g pc w = Inr (e, len) \<Longrightarrow>
       offset_a (mi_id e) \<or> len = (if sext8 (w AND 0xFF) = 0 then 2 else 1)" for w
    unfolding mpd_bcc_def Let_def bindE_Inr_iff
    by (elim exE conjE, cases "bcc_id (drop_bit 8 w AND 0xF)"; cases "sext8 (w AND 0xFF) = 0")
      (auto elim!: if_branch simp: bindE_Inr_iff ext_d16_def)
  show ?thesis
    using assms unfolding mpd_decode_def Let_def bindE_Inr_iff
    apply (elim exE conjE)
    apply (rule exI, rule conjI, assumption)
    apply (elim if_branch)
    apply (auto simp: groups dest!: bcc simp: mpd_rr_def bindE_Inr_iff sext8_zero)
    done
qed

lemma mpd_decode_len: "mpd_decode g pc = Inr (e, len) \<Longrightarrow> len \<in> {1, 2, 3}"
  using mpd_decode_ent_ok [of g pc "(e, len)"] len_ok_bounds by (auto simp: ent_ok_def)

section \<open>The sweep\<close>

text \<open>\<open>mpd_reach g a b\<close>: a linear sweep that is at byte address \<open>a\<close> gets to \<open>b\<close>.\<close>

inductive mpd_reach :: "mem_env \<Rightarrow> nat \<Rightarrow> nat \<Rightarrow> bool" for g where
  here: "mpd_reach g a a"
| step: "mpd_reach g a c" if "a < MPD_REGION_BYTES" "mpd_decode g (of_nat a) = Inr (ent, len)"
    "mpd_reach g (a + len * 2) c"

inductive_cases mpd_reachE: "mpd_reach g a b"

lemma mpd_reach_trans: "mpd_reach g a b \<Longrightarrow> mpd_reach g b c \<Longrightarrow> mpd_reach g a c"
  by (induction rule: mpd_reach.induct) (auto intro: mpd_reach.step)

lemma mpd_reach_ge: "mpd_reach g a b \<Longrightarrow> a \<le> b"
  by (induction rule: mpd_reach.induct) auto

lemma mpd_reach_even: "mpd_reach g a b \<Longrightarrow> even a = even b"
  by (induction rule: mpd_reach.induct) auto

lemma mpd_reach_next:
  assumes "mpd_reach g a b" "b < MPD_REGION_BYTES" "mpd_decode g (of_nat b) = Inr (ent, len)"
  shows "mpd_reach g a (b + len * 2)"
  using assms mpd_reach_trans [OF assms(1)] by (blast intro: mpd_reach.intros)

text \<open>What \<open>mpd_enter\<close> writes.\<close>

lemma mpd_enter_Inr:
  assumes "mpd_enter elide i (ent, len) (tab, lens) = Inr (tab', lens')" "len \<in> {1, 2, 3}"
  shows "length tab' = length tab" "length lens' = length lens" "i < length tab" "tab' ! i = ent"
    "elide \<Longrightarrow> i < length lens \<and> lens' ! i = len"
    "j < i \<Longrightarrow> tab' ! j = tab ! j \<and> lens' ! j = lens ! j"
  using assms
  by (auto simp: mpd_enter_def bindE_Inr_iff array_set_def array_get_def mpd_fillers_def
    mpd_filler_def split: if_splits)

lemma mpd_sweep_Inr:
  assumes "mpd_sweep elide g addr t = Inr t'" "even addr"
  shows "length (fst t') = length (fst t) \<and> length (snd t') = length (snd t) \<and>
    (\<forall>j < addr div 2. fst t' ! j = fst t ! j \<and> snd t' ! j = snd t ! j) \<and>
    (\<forall>a. mpd_reach g addr a \<longrightarrow> a < MPD_REGION_BYTES \<longrightarrow>
      (\<exists>ent len. mpd_decode g (of_nat a) = Inr (ent, len) \<and> a div 2 < length (fst t) \<and>
         fst t' ! (a div 2) = ent \<and> (elide \<longrightarrow> a div 2 < length (snd t) \<and> snd t' ! (a div 2) = len)))"
  using assms
proof (induction elide g addr t rule: mpd_sweep.induct)
  case (1 elide g addr t)
  show ?case
  proof (cases "addr < MPD_REGION_BYTES")
    case False
    with 1 show ?thesis
      by (auto simp: mpd_sweep.simps [of _ _ addr] dest: mpd_reach_ge)
  next
    case True
    obtain tab lens where t: "t = (tab, lens)" by (cases t)
    from True "1.prems"(1) obtain ent len tab1 lens1 where step:
        "mpd_decode g (of_nat addr) = Inr (ent, len)"
        "mpd_enter elide (addr div 2) (ent, len) (tab, lens) = Inr (tab1, lens1)"
        "len \<noteq> 0" "mpd_sweep elide g (addr + len * 2) (tab1, lens1) = Inr t'"
      by (subst (asm) mpd_sweep.simps) (auto simp: t bindE_Inr_iff split: if_splits)
    note len = mpd_decode_len [OF step(1)]
    note entered = mpd_enter_Inr [OF step(2) len]
    note IH = "1.IH" [OF True step(1) refl _ step(3), of "(tab1, lens1)", unfolded t, OF step(2,4)]
    have even: "even (addr + len * 2)" using "1.prems"(2) by simp
    have IHs: "length (fst t') = length tab1" "length (snd t') = length lens1"
        "\<And>j. j < (addr + len * 2) div 2 \<Longrightarrow> fst t' ! j = tab1 ! j \<and> snd t' ! j = lens1 ! j"
        "\<And>a. mpd_reach g (addr + len * 2) a \<Longrightarrow> a < MPD_REGION_BYTES \<Longrightarrow>
          \<exists>ent len. mpd_decode g (of_nat a) = Inr (ent, len) \<and> a div 2 < length tab1 \<and>
            fst t' ! (a div 2) = ent \<and> (elide \<longrightarrow> a div 2 < length lens1 \<and> snd t' ! (a div 2) = len)"
      using IH [OF even] by auto
    have j: "j < (addr + len * 2) div 2" if "j \<le> addr div 2" for j
      using that step(3) by linarith
    have here: "fst t' ! (addr div 2) = ent \<and> (elide \<longrightarrow> addr div 2 < length lens \<and> snd t' ! (addr div 2) = len)"
      using IHs(3) [OF j [OF order_refl]] entered by simp
    show ?thesis
    proof (intro conjI allI impI)
      fix a assume reach: "mpd_reach g addr a" and a: "a < MPD_REGION_BYTES"
      from reach consider "a = addr" | "mpd_reach g (addr + len * 2) a"
        by (rule mpd_reachE) (simp_all add: step(1))
      then show "\<exists>ent len. mpd_decode g (of_nat a) = Inr (ent, len) \<and> a div 2 < length (fst t) \<and>
         fst t' ! (a div 2) = ent \<and> (elide \<longrightarrow> a div 2 < length (snd t) \<and> snd t' ! (a div 2) = len)"
      proof cases
        case 1
        then show ?thesis using here step(1) entered(3) by (simp add: t)
      next
        case 2
        from IHs(4) [OF this a] show ?thesis
          unfolding entered(1,2) by (simp add: t)
      qed
    next
      fix i assume "i < addr div 2"
      then show "fst t' ! i = fst t ! i" "snd t' ! i = snd t ! i"
        using IHs(3) [OF j] entered(6) by (simp_all add: t)
    qed (simp_all add: t IHs(1,2) entered(1,2))
  qed
qed

section \<open>When the sweep returns\<close>

definition aligned2 :: "u32 \<Rightarrow> bool" where
  "aligned2 a \<longleftrightarrow> a AND 1 = 0"

lemma aligned2_even: "aligned2 a \<longleftrightarrow> even a"
  by (simp add: aligned2_def and_one_eq even_iff_mod_2_eq_zero)

lemma aligned2_dvd_nat: "aligned2 a \<longleftrightarrow> 2 dvd unat a"
  using and_mask_dvd_nat [of 1 a] by (simp add: aligned2_def mask_eq_exp_minus_1)

lemma aligned2_in_page:
  assumes "aligned2 a" shows "in_page 2 a"
proof -
  obtain k where k: "unat a = 2 * k"
    using assms by (auto simp: aligned2_dvd_nat)
  have "unat (a AND 0xFFF) = unat a mod 4096"
    using unat_and_mask_mod [of a 12] by (simp add: mask_eq_exp_minus_1)
  moreover have "unat a mod 4096 = 2 * (k mod 2048)"
    using mod_mult_mult1 [of 2 k 2048] by (simp add: k)
  then have "unat a mod 4096 \<le> 4094" by simp
  ultimately show ?thesis
    by (simp add: in_page_def page_geometry word_le_nat_alt)
qed

lemma aligned2_masked: "aligned2 a \<Longrightarrow> aligned2 (masked g a)"
  by (simp add: aligned2_even masked_def even_and_iff)

lemma aligned2_fetch:
  "wf_env g \<Longrightarrow> aligned2 a \<Longrightarrow> memory_read_uint16 g a = Inr (be16 (ram_at g) (masked g a))"
  by (simp add: memory_read_uint16_flat aligned2_in_page aligned2_masked)

text \<open>The only trap of the decoder: a 32-bit immediate that straddles a page.\<close>

lemma groups_no_trap:
  assumes "wf_env g" "aligned2 a"
  shows "mpd_misc g a op \<noteq> Inl e" "mpd_addq g a op \<noteq> Inl e" "mpd_bcc g a op \<noteq> Inl e"
    "mpd_move g a op = Inl e \<Longrightarrow> e = SlowPath Read32 (masked g (a + 2))"
    "mpd_move g a op = Inl e \<Longrightarrow> \<not> in_page 4 (masked g (a + 2))"
proof -
  have "aligned2 (a + 2)" using assms(2) by (simp add: aligned2_even)
  with assms(1) have "\<exists>d. ext_d16 g a = Inr d" "\<exists>w. memory_read_uint16 g (a + 2) = Inr w"
    by (auto simp: ext_d16_def aligned2_fetch)
  then show "mpd_misc g a op \<noteq> Inl e" "mpd_addq g a op \<noteq> Inl e" "mpd_bcc g a op \<noteq> Inl e"
    "mpd_move g a op = Inl e \<Longrightarrow> e = SlowPath Read32 (masked g (a + 2))"
    "mpd_move g a op = Inl e \<Longrightarrow> \<not> in_page 4 (masked g (a + 2))"
    using memory_read_uint32_flat [OF assms(1), of "a + 2"]
    by (auto simp: mpd_misc_def mpd_addq_def mpd_bcc_def mpd_move_def Let_def bindE_Inl_iff
      split: option.splits if_splits)
qed

lemma mpd_decode_trap:
  assumes "wf_env g" "aligned2 a" "mpd_decode g a = Inl e"
  shows "e = SlowPath Read32 (masked g (a + 2)) \<and> \<not> in_page 4 (masked g (a + 2))"
  using assms(3) groups_no_trap [OF assms(1,2)] memory_read_uint32_flat [OF assms(1), of "a + 2"]
  unfolding mpd_decode_def aligned2_fetch [OF assms(1,2)] mpd_rr_def Let_def
  by (simp add: bindE_Inl_iff split: if_splits)

text \<open>Every instruction the sweep meets decodes and ends inside the region.\<close>

definition mpd_fits :: "mem_env \<Rightarrow> nat \<Rightarrow> bool" where
  "mpd_fits g addr \<longleftrightarrow> (\<forall>a. mpd_reach g addr a \<longrightarrow> a < MPD_REGION_BYTES \<longrightarrow>
     (\<exists>ent len. mpd_decode g (of_nat a) = Inr (ent, len) \<and> a + len * 2 \<le> MPD_REGION_BYTES))"

lemma mpd_enter_total:
  assumes "len \<in> {1, 2, 3}" "i + len \<le> length tab" "elide \<Longrightarrow> i < length lens"
  shows "\<exists>t'. mpd_enter elide i (ent, len) (tab, lens) = Inr t'"
  using assms by (auto simp: mpd_enter_def mpd_fillers_def mpd_filler_def)

lemma mpd_sweep_total:
  assumes "mpd_fits g addr" "even addr" "length (fst t) = MPD_ENTRIES"
    "elide \<Longrightarrow> length (snd t) = MPD_ENTRIES"
  shows "\<exists>t'. mpd_sweep elide g addr t = Inr t'"
  using assms
proof (induction elide g addr t rule: mpd_sweep.induct)
  case (1 elide g addr t)
  obtain tab lens where t: "t = (tab, lens)" by (cases t)
  show ?case
  proof (cases "addr < MPD_REGION_BYTES")
    case True
    then obtain ent len where step: "mpd_decode g (of_nat addr) = Inr (ent, len)"
        "addr + len * 2 \<le> MPD_REGION_BYTES"
      using "1.prems"(1) mpd_reach.here by (force simp: mpd_fits_def)
    note len = mpd_decode_len [OF step(1)]
    have "addr div 2 + len \<le> MPD_ENTRIES"
      using step(2) "1.prems"(2) by (auto simp: mpd_region)
    then obtain tab1 lens1 where entered: "mpd_enter elide (addr div 2) (ent, len) (tab, lens) = Inr (tab1, lens1)"
      using mpd_enter_total [OF len, of "addr div 2" tab elide lens ent] "1.prems"(3,4) len
      by (fastforce simp: t)
    have fits: "mpd_fits g (addr + len * 2)"
      using "1.prems"(1) mpd_reach.step [OF True step(1)] by (simp add: mpd_fits_def)
    have "len \<noteq> 0" using len by auto
    from "1.IH" [OF True step(1) refl _ this fits, of "(tab1, lens1)"] entered mpd_enter_Inr(1,2) [OF entered len]
      "1.prems"(2-4)
    obtain t' where "mpd_sweep elide g (addr + len * 2) (tab1, lens1) = Inr t'" by (auto simp: t)
    with True step(1) entered \<open>len \<noteq> 0\<close> show ?thesis
      by (subst mpd_sweep.simps) (simp add: t)
  qed (simp add: mpd_sweep.simps [of _ _ addr])
qed

section \<open>The pass over the table\<close>

text \<open>What the pass makes of the entry \<open>ent\<close> of the instruction at \<open>a\<close>, \<open>len\<close> words long.\<close>

definition elide_ent :: "mem_env \<Rightarrow> nat \<Rightarrow> m68k_ent \<times> nat \<Rightarrow> m68k_ent" where
  "elide_ent g a = (\<lambda>(ent, len).
     let nxt = a + len * 2
     in if nxt < MPD_REGION_BYTES \<and> (case mpd_decode g (of_nat nxt) of Inl e \<Rightarrow> False
          | Inr (e, l) \<Rightarrow> mpd_writes_all_nzvc (mi_id e))
        then ent\<lparr>mi_id := mpd_elided (mi_id ent)\<rparr> else ent)"

text \<open>A table and lengths as the sweep from \<open>addr\<close> leaves them.\<close>

definition mpd_table_of :: "mem_env \<Rightarrow> nat \<Rightarrow> mpd_tables \<Rightarrow> bool" where
  "mpd_table_of g addr = (\<lambda>(tab, lens). \<forall>a. mpd_reach g addr a \<longrightarrow> a < MPD_REGION_BYTES \<longrightarrow>
     a div 2 < length tab \<and> a div 2 < length lens \<and>
     mpd_decode g (of_nat a) = Inr (tab ! (a div 2), lens ! (a div 2)))"

lemma mpd_elide_pass_Inr:
  assumes "mpd_table_of g (2 * idx) (tab, lens)"
  shows "\<exists>tab'. mpd_elide_pass lens idx tab = Inr tab' \<and> length tab' = length tab \<and>
    (\<forall>j < idx. tab' ! j = tab ! j) \<and>
    (\<forall>a el. mpd_reach g (2 * idx) a \<longrightarrow> a < MPD_REGION_BYTES \<longrightarrow> mpd_decode g (of_nat a) = Inr el \<longrightarrow>
       tab' ! (a div 2) = elide_ent g a el)"
  using assms
proof (induction lens idx tab rule: mpd_elide_pass.induct)
  case (1 lens idx tab)
  show ?case
  proof (cases "idx < MPD_ENTRIES")
    case False
    then show ?thesis
      by (auto simp: mpd_elide_pass.simps [of _ idx] mpd_region dest: mpd_reach_ge)
  next
    case True
    have here: "idx < length tab" "idx < length lens" "mpd_decode g (of_nat (2 * idx)) = Inr (tab ! idx, lens ! idx)"
      using "1.prems" True mpd_reach.here [of g "2 * idx"] by (auto simp: mpd_table_of_def mpd_region)
    define len where "len = lens ! idx"
    have len: "len \<in> {1, 2, 3}"
      using mpd_decode_len [OF here(3)] by (simp add: len_def)
    have decode: "mpd_decode g (of_nat (2 * idx)) = Inr (tab ! idx, len)"
      using here(3) by (simp add: len_def)
    have next_reach: "mpd_reach g (2 * idx) a \<longleftrightarrow> a = 2 * idx \<or> mpd_reach g (2 * (idx + len)) a" for a
    proof
      show "a = 2 * idx \<or> mpd_reach g (2 * (idx + len)) a" if "mpd_reach g (2 * idx) a"
        using that by (rule mpd_reachE) (use decode in \<open>auto simp: algebra_simps\<close>)
      show "mpd_reach g (2 * idx) a" if "a = 2 * idx \<or> mpd_reach g (2 * (idx + len)) a"
        using that True mpd_reach.step [OF _ decode] mpd_reach.here [of g]
        by (auto simp: mpd_region algebra_simps)
    qed
    show ?thesis
    proof (cases "MPD_ENTRIES \<le> idx + len")
      case end': True
      then have "mpd_elide_pass lens idx tab = Inr tab"
        using True here by (subst mpd_elide_pass.simps) (simp add: len_def)
      moreover have "a = 2 * idx" if "mpd_reach g (2 * idx) a" "a < MPD_REGION_BYTES" for a
        using that end' mpd_reach_ge [of g "2 * (idx + len)" a] by (auto simp: next_reach mpd_region)
      moreover have "elide_ent g (2 * idx) (tab ! idx, len) = tab ! idx"
        using end' by (simp add: elide_ent_def mpd_region)
      ultimately show ?thesis
        using decode by fastforce
    next
      case False
      define tab1 where "tab1 = (if mpd_writes_all_nzvc (mi_id (tab ! (idx + len)))
        then tab[idx := (tab ! idx)\<lparr>mi_id := mpd_elided (mi_id (tab ! idx))\<rparr>] else tab)"
      have nxt: "idx + len < length tab"
          "mpd_decode g (of_nat (2 * (idx + len))) = Inr (tab ! (idx + len), lens ! (idx + len))"
        using "1.prems" False next_reach [of "2 * (idx + len)"] mpd_reach.here [of g]
        by (auto simp: mpd_table_of_def mpd_region)
      then have ent: "tab1 ! idx = elide_ent g (2 * idx) (tab ! idx, len)"
        using False here(1) decode by (simp add: elide_ent_def tab1_def mpd_region algebra_simps)
      have other: "tab1 ! j = tab ! j" if "j \<noteq> idx" for j
        using that by (simp add: tab1_def)
      have step: "mpd_elide_pass lens idx tab = mpd_elide_pass lens (idx + len) tab1"
        using True False here nxt(1) len
        by (subst mpd_elide_pass.simps) (auto simp: len_def tab1_def)
      have "a div 2 \<noteq> idx" if "mpd_reach g (2 * (idx + len)) a" for a
        using mpd_reach_ge [OF that] len by auto
      then have table: "mpd_table_of g (2 * (idx + len)) (tab1, lens)"
        using "1.prems" by (auto simp: mpd_table_of_def next_reach other) (simp add: tab1_def)
      have get: "array_get lens idx = Inr len" "array_get tab idx = Inr (tab ! idx)"
          "array_get tab (idx + len) = Inr (tab ! (idx + len))"
          "(if mpd_writes_all_nzvc (mi_id (tab ! (idx + len)))
            then array_set tab idx ((tab ! idx)\<lparr>mi_id := mpd_elided (mi_id (tab ! idx))\<rparr>)
            else Inr tab) = Inr tab1"
        using here(1,2) nxt(1) by (simp_all add: len_def tab1_def)
      have "len \<noteq> 0" using len by auto
      then obtain tab' where tab': "mpd_elide_pass lens (idx + len) tab1 = Inr tab'" "length tab' = length tab1"
          "\<forall>j < idx + len. tab' ! j = tab1 ! j"
          "\<forall>a el. mpd_reach g (2 * (idx + len)) a \<longrightarrow> a < MPD_REGION_BYTES \<longrightarrow>
             mpd_decode g (of_nat a) = Inr el \<longrightarrow> tab' ! (a div 2) = elide_ent g a el"
        using "1.IH" [OF True get(1) refl False get(2-4) _ table] by blast
      have "length tab1 = length tab" by (simp add: tab1_def)
      moreover have "tab' ! idx = elide_ent g (2 * idx) (tab ! idx, len)"
        using tab'(3) \<open>len \<noteq> 0\<close> ent by simp
      ultimately show ?thesis
        using tab' decode other unfolding step by (auto simp: next_reach)
    qed
  qed
qed

lemma mpd_sweep_table_of: "mpd_sweep True g 0 t = Inr t' \<Longrightarrow> mpd_table_of g 0 t'"
  using mpd_sweep_Inr [of True g 0 t t']
  by (cases t') (fastforce simp: mpd_table_of_def)

end
