(* ===== verification/M68K_Agree.thy ===== *)
theory M68K_Agree
  imports M68K_Tables
begin

text \<open>
  M68K backend B against backend A: on an entry that is not illegal the handlers of
  \<open>m68k_pd_impl.h\<close> do what the big switch of \<open>m68k_switch.c\<close> does, group by group, and
  so do the runs.
\<close>

section \<open>Entries and instructions\<close>

lemma reg_off:
  assumes "unat r < 8"
  shows "unat (DR_OFF r) div 4 = unat r" "unat (AR_OFF r) div 4 = unat (8 + r)"
  using assms by (simp_all add: unat_reg_offset unat_word_ariths)

text \<open>\<open>REGO\<close> of an offset the decoder writes is a register.\<close>

lemma rego [simp]:
  "unat r < 8 \<Longrightarrow> ra (m68k_ent_of i (DR_OFF r) b c) m = get_reg m r"
  "unat r < 8 \<Longrightarrow> ra (m68k_ent_of i (AR_OFF r) b c) m = get_reg m (8 + r)"
  "unat r < 8 \<Longrightarrow> rb (m68k_ent_of i a (DR_OFF r) c) m = get_reg m r"
  "unat r < 8 \<Longrightarrow> rb (m68k_ent_of i a (AR_OFF r) c) m = get_reg m (8 + r)"
  "unat r < 8 \<Longrightarrow> to_ra (m68k_ent_of i (DR_OFF r) b c) m v = set_reg m r v"
  "unat r < 8 \<Longrightarrow> to_ra (m68k_ent_of i (AR_OFF r) b c) m v = set_reg m (8 + r) v"
  "unat r < 8 \<Longrightarrow> to_rb (m68k_ent_of i a (DR_OFF r) c) m v = set_reg m r v"
  "unat r < 8 \<Longrightarrow> to_rb (m68k_ent_of i a (AR_OFF r) c) m v = set_reg m (8 + r) v"
  by (simp_all add: ra_def rb_def to_ra_def to_rb_def get_reg_def set_reg_def reg_off)

definition entry_index :: "u32 \<Rightarrow> nat" where "entry_index pc = unat (drop_bit 1 pc)"

lemma entry_index_adv:
  assumes "unat pc < MPD_REGION_BYTES"
  shows "entry_index (pc + 2) = entry_index pc + 1" "entry_index (pc + 4) = entry_index pc + 2" "entry_index (pc + 6) = entry_index pc + 3"
    "entry_index (2 + pc) = entry_index pc + 1" "entry_index (4 + pc) = entry_index pc + 2" "entry_index (6 + pc) = entry_index pc + 3"
  using assms by (simp_all add: entry_index_def unat_drop_bit_div unat_word_ariths mpd_region)

lemma entry_index_fold: "unat (drop_bit 1 a) = entry_index a" "unat (drop_bit (Suc 0) a) = entry_index a"
  by (simp_all add: entry_index_def)

text \<open>What an iteration of the predecoded loop must do, given the iteration of the switch.\<close>

definition to_mpd :: "m68k_local outcome \<Rightarrow> mpd_local outcome" where
  "to_mpd x = bindE x (\<lambda>(m, g, pc). Inr (m, g, entry_index pc))"

lemma to_mpd_simps [simp]:
  "to_mpd (Inr (m, g, pc)) = Inr (m, g, entry_index pc)" "to_mpd (Inl t) = Inl t"
  "to_mpd (bindE x f) = bindE x (\<lambda>v. to_mpd (f v))"
  by (simp_all add: to_mpd_def bindE_assoc)

definition entry_ok :: "m68k_ent \<times> nat \<Rightarrow> m68k_local \<Rightarrow> m68k_local outcome \<Rightarrow> bool" where
  "entry_ok el s r \<longleftrightarrow> mi_id (fst el) = MI_ILLEGAL \<or>
    (case s of (m, g, pc) \<Rightarrow> mpd_handler (mi_id (fst el)) (fst el) (m, g, entry_index pc) = to_mpd r)"

lemmas group_simps = entry_ok_def Let_def and_7_less entry_index_adv entry_index_fold cc_if_def mpd_rr_def

lemma group_rr:
  assumes "unat pc < MPD_REGION_BYTES"
  shows
   "op AND 0x01F8 = 0x0080 \<Longrightarrow> mpd_rr (MI_EL OR_L_DD) (drop_bit 9 op AND 7) (op AND 7) op = Inr el \<Longrightarrow>
      entry_ok el (m, g, pc) (sw_or op (m, g, pc + 2))"
   "op AND 0x01F8 = 0x0080 \<Longrightarrow> mpd_rr (MI_EL SUB_L_DD) (drop_bit 9 op AND 7) (op AND 7) op = Inr el \<Longrightarrow>
      entry_ok el (m, g, pc) (sw_sub op (m, g, pc + 2))"
   "op AND 0x01F8 = 0x0080 \<Longrightarrow> mpd_rr (MI_PF CMP_L_DD) (drop_bit 9 op AND 7) (op AND 7) op = Inr el \<Longrightarrow>
      entry_ok el (m, g, pc) (sw_cmp_eor op (m, g, pc + 2))"
   "op AND 0x01F8 = 0x0180 \<Longrightarrow> mpd_rr (MI_EL EOR_L_DD) (op AND 7) (drop_bit 9 op AND 7) op = Inr el \<Longrightarrow>
      entry_ok el (m, g, pc) (sw_cmp_eor op (m, g, pc + 2))"
   "op AND 0x01F8 = 0x0080 \<Longrightarrow> mpd_rr (MI_EL AND_L_DD) (drop_bit 9 op AND 7) (op AND 7) op = Inr el \<Longrightarrow>
      entry_ok el (m, g, pc) (sw_and op (m, g, pc + 2))"
   "op AND 0x01F8 = 0x0080 \<Longrightarrow> mpd_rr (MI_EL ADD_L_DD) (drop_bit 9 op AND 7) (op AND 7) op = Inr el \<Longrightarrow>
      entry_ok el (m, g, pc) (sw_add op (m, g, pc + 2))"
  using assms by (auto simp: group_simps sw_or_def sw_sub_def sw_cmp_eor_def sw_and_def sw_add_def)

lemma group_misc:
  assumes "unat pc < MPD_REGION_BYTES" "mpd_misc g pc op = Inr el"
  shows "entry_ok el (m, g, pc) (sw_misc op (m, g, pc + 2))"
  using assms
  by (auto simp: group_simps mpd_misc_def sw_misc_def f16_sext_def f16_def ext_d16_def bindE_Inr_iff split: if_splits)

lemma ucast_q:
  assumes "unat (q :: u32) \<le> 8"
  shows "ucast (ucast q :: u8) = q"
  using assms by (intro word_unat_eq_iff [THEN iffD2]) (simp add: unsigned_ucast_eq unsigned_take_bit_eq take_bit_nat_eq_self)

lemma quick: "unat (if q AND 7 \<noteq> 0 then q AND 7 else (8 :: u32)) \<le> 8"
  using and_7_less [of q] by (simp add: less_imp_le)
lemma group_addq:
  assumes "unat pc < MPD_REGION_BYTES" "mpd_addq g pc op = Inr el"
  shows "entry_ok el (m, g, pc) (sw_addq op (m, g, pc + 2))"
  using assms quick [of "drop_bit 9 op"]
  by (simp add: mpd_addq_def sw_addq_def Let_def split: if_splits)
   (auto simp: group_simps sw_dbcc_def f16_sext_def f16_def ext_d16_def 
   bindE_Inr_iff ucast_q split: if_splits)
lemma group_cmpi:
  assumes "unat pc < MPD_REGION_BYTES" "memory_read_uint32 g (pc + 2) = Inr imm" "op AND 0xFFF8 = 0x0C80"
  shows "entry_ok (m68k_ent_of (MI_PF CMPI_L_DN) (DR_OFF (op AND 7)) 0 imm, 3) (m, g, pc) (sw_cmpi op (m, g, pc + 2))"
  using assms by (simp add: group_simps sw_cmpi_def f32_def)

lemma group_moveq:
  assumes "unat pc < MPD_REGION_BYTES"
  shows "entry_ok (m68k_ent_of (MI_EL MOVEQ) (DR_OFF (drop_bit 9 op AND 7)) 0 (sext8 (op AND 0xFF)), 1)
    (m, g, pc) (sw_moveq op (m, g, pc + 2))"
  using assms by (simp add: group_simps sw_moveq_def)

lemma group_shift:
  assumes "unat pc < MPD_REGION_BYTES" "drop_bit 6 op AND 3 = 2" "drop_bit 3 op AND 7 = 1"
  shows "entry_ok (m68k_ent_of (MI_EL (if op AND 0x0100 \<noteq> 0 then LSL_L_IMM else LSR_L_IMM))
     (DR_OFF (op AND 7)) (ucast (if drop_bit 9 op AND 7 \<noteq> 0 then drop_bit 9 op AND 7 else 8)) op, 1)
    (m, g, pc) (sw_shift op (m, g, pc + 2))"
  using assms quick [of "drop_bit 9 op"]
  by (simp add: group_simps sw_shift_def ucast_q shift_flags_def set_reg_def split: if_splits)

lemma group_bcc:
  assumes "unat pc < MPD_REGION_BYTES" "mpd_bcc g pc op = Inr el"
  shows "entry_ok el (m, g, pc) (sw_bcc op (m, g, pc + 2))"
  using assms
  by (auto simp: group_simps mpd_bcc_def sw_bcc_def f16_sext_def f16_def ext_d16_def bcc_id_def
    bindE_Inr_iff m68k_cond_def M68K_CONDS_def split: if_splits)

lemma narrow:
  "(ucast (w :: u16) :: u32) AND 0xFFFF = ucast w" "(ucast (b :: u8) :: u32) AND 0xFF = ucast b"
  "(ucast (ucast w :: u32) :: u16) = w" "(ucast (ucast b :: u32) :: u8) = b"
proof -
  have "(ucast w :: u32) AND mask 16 = ucast w" "(ucast b :: u32) AND mask 8 = ucast b"
    using bit_imp_le_length [of w] bit_imp_le_length [of b]
    by (auto intro!: bit_word_eqI simp: bit_simps)
  then show "(ucast w :: u32) AND 0xFFFF = ucast w" "(ucast b :: u32) AND 0xFF = ucast b"
    by (simp_all add: mask_eq_exp_minus_1)
  show "(ucast (ucast w :: u32) :: u16) = w" "(ucast (ucast b :: u32) :: u8) = b"
    by (auto intro!: bit_word_eqI simp: bit_simps)
qed

text \<open>The forms of MOVE that the predecoder handles, as the switch executes them.\<close>

abbreviation ea_mode :: "u32 \<Rightarrow> u32 \<Rightarrow> u32 \<Rightarrow> bool" where
  "ea_mode op dm sm \<equiv> drop_bit 6 op AND 7 = dm \<and> drop_bit 3 op AND 7 = sm"

lemma sw_move_forms:
  fixes op m g pc
  defines "dr \<equiv> drop_bit 9 op AND 7" and "sr \<equiv> op AND 7" and "szc \<equiv> drop_bit 12 op"
  shows
    "szc = 2 \<Longrightarrow> ea_mode op 1 7 \<Longrightarrow> sr = 4 \<Longrightarrow> sw_move op (m, g, pc) =
      bindE (memory_read_uint32 g pc) (\<lambda>v. Inr (set_reg m (8 + dr) v, g, pc + 4))"
    "szc = 2 \<Longrightarrow> ea_mode op 0 7 \<Longrightarrow> sr = 4 \<Longrightarrow> sw_move op (m, g, pc) =
      bindE (memory_read_uint32 g pc) (\<lambda>v. Inr (cc_nz_l (set_reg m dr v) v, g, pc + 4))"
    "szc = 3 \<Longrightarrow> ea_mode op 0 7 \<Longrightarrow> sr = 4 \<Longrightarrow> sw_move op (m, g, pc) =
      bindE (memory_read_uint16 g pc) (\<lambda>w. Inr (cc_nz_w (set_reg m dr
        ((get_reg m dr AND 0xFFFF0000) OR ucast w)) w, g, pc + 2))"
    "szc = 2 \<Longrightarrow> ea_mode op 0 0 \<Longrightarrow> sw_move op (m, g, pc) =
      Inr (cc_nz_l (set_reg m dr (get_reg m sr)) (get_reg m sr), g, pc)"
    "szc = 2 \<Longrightarrow> ea_mode op 0 3 \<Longrightarrow> sw_move op (m, g, pc) =
      bindE (memory_read_uint32 g (get_reg m (8 + sr))) (\<lambda>v. Inr (cc_nz_l (set_reg
        (set_reg m (8 + sr) (get_reg m (8 + sr) + 4)) dr v) v, g, pc))"
    "szc = 2 \<Longrightarrow> ea_mode op 3 0 \<Longrightarrow> sw_move op (m, g, pc) =
      bindE (memory_write_uint32 g (get_reg m (8 + dr)) (get_reg m sr)) (\<lambda>g. Inr (cc_nz_l
        (set_reg m (8 + dr) (get_reg m (8 + dr) + 4)) (get_reg m sr), g, pc))"
  unfolding dr_def sr_def szc_def
  by (auto simp: sw_move_def move_src_def move_dst_def read_sized_def write_sized_def
    cc_nz_sized_def f16_def f32_def Let_def bindE_assoc narrow)

lemma sw_move_disp:
  fixes op m g pc
  defines "dr \<equiv> drop_bit 9 op AND 7" and "sr \<equiv> op AND 7" and "szc \<equiv> drop_bit 12 op"
    and "sz \<equiv> if drop_bit 12 op = 2 then 4 else if drop_bit 12 op = 3 then 2 else 1"
  shows
    "ea_mode op 0 5 \<Longrightarrow> sw_move op (m, g, pc) =
      bindE (memory_read_uint16 g pc) (\<lambda>d. 
      bindE (read_sized g (get_reg m (8 + sr) + scast d) sz) (\<lambda>v.
        Inr (cc_nz_sized (set_reg m dr (if sz = 4 then v
           else if sz = 2 then (get_reg m dr AND 0xFFFF0000) OR (v AND 0xFFFF)
           else (get_reg m dr AND 0xFFFFFF00) OR (v AND 0xFF))) sz v, g, pc + 2)))"
    "ea_mode op 5 0 \<Longrightarrow> sw_move op (m, g, pc) =
      bindE (memory_read_uint16 g pc) (\<lambda>d. 
      bindE (write_sized g (get_reg m (8 + dr) + scast d) sz (get_reg m sr)) (\<lambda>g.
        Inr (cc_nz_sized m sz (get_reg m sr), g, pc + 2)))"
  unfolding dr_def sr_def sz_def
  by (auto simp: sw_move_def move_src_def move_dst_def f16_sext_def f16_def Let_def
    bindE_assoc cong: if_cong)

lemma group_move:
  assumes pc: "unat pc < MPD_REGION_BYTES" and "mpd_move g pc op = Inr el"
  shows "entry_ok el (m, g, pc) (sw_move op (m, g, pc + 2))"
  using assms(2) unfolding mpd_move_def Let_def
  by (elim if_branch)
   (use pc in \<open>auto simp: group_simps sw_move_forms sw_move_disp read_sized_def write_sized_def
     cc_nz_sized_def ext_d16_def f16_def f32_def bindE_Inr_iff bindE_assoc narrow\<close>)

theorem mpd_decode_step:
  assumes "unat pc < MPD_REGION_BYTES" "mpd_decode g pc = Inr el"
  shows "entry_ok el (m, g, pc) (m68k_step (m, g, pc))"
proof -
  obtain op16 where f: "memory_read_uint16 g pc = Inr op16"
    using assms(2) by (auto simp: mpd_decode_def bindE_Inr_iff)
  define op :: u32 where "op = ucast op16"
  have step: "m68k_step (m, g, pc) = m68k_dispatch op (m, g, pc + 2)"
    by (simp add: m68k_step_def f16_def f op_def)
  have blank: "entry_ok (m68k_blank op, len) s r" for len s r by (simp add: entry_ok_def)
  note dec = assms(2) [unfolded mpd_decode_def f bindE.simps Let_def, folded op_def]
  show ?thesis
    unfolding step m68k_dispatch_def Let_def using dec
    by (elim if_branch)
      (auto simp: bindE_Inr_iff blank simp del: One_nat_def intro: group_rr [OF assms(1)]
        group_misc [OF assms(1)] group_addq [OF assms(1)] group_bcc [OF assms(1)]
        group_move [OF assms(1)] group_moveq [OF assms(1)] group_shift [OF assms(1)]
        group_cmpi [OF assms(1)])
qed

section \<open>Runs\<close>

text \<open>
  The next instruction of the switch's run is one the predecoded loop handles: it lies at
  an even address inside the region which the sweep over \<open>g0\<close> met, memory decodes there
  as \<open>g0\<close> does, and the entry is not illegal.
\<close>

definition mpd_run_ok :: "mem_env \<Rightarrow> m68k_local \<Rightarrow> bool" where
  "mpd_run_ok g0 = (\<lambda>(m, g, pc). unat pc < MPD_REGION_BYTES \<and> mpd_reach g0 0 (unat pc) \<and>
     mpd_decode g pc = mpd_decode g0 pc \<and>
     (case mpd_decode g pc of Inl e \<Rightarrow> False | Inr el \<Rightarrow> mi_id (fst el) \<noteq> MI_ILLEGAL))"

definition mpd_rel :: "m68k_local \<Rightarrow> mpd_local \<Rightarrow> bool" where
  "mpd_rel = (\<lambda>(m, g, pc) t. t = (m, g, entry_index pc))"

lemma to_mpd_rel: "y = to_mpd x \<Longrightarrow> rel_sum (=) mpd_rel x y"
  by (cases x) (auto simp: mpd_rel_def)

lemma entry_index_reach: "mpd_reach g 0 (unat pc) \<Longrightarrow> unat pc div 2 = entry_index pc"
  by (simp add: entry_index_def unat_drop_bit_div)

definition mpd_table_ok :: "mem_env \<Rightarrow> m68k_ent list \<Rightarrow> bool" where
  "mpd_table_ok g tab \<longleftrightarrow> (\<forall>a. mpd_reach g 0 a \<longrightarrow> a < MPD_REGION_BYTES \<longrightarrow>
     (\<exists>len. a div 2 < length tab \<and> mpd_decode g (of_nat a) = Inr (tab ! (a div 2), len)))"

lemma mpd_sweep_table_ok: "mpd_sweep elide g 0 (tab0, lens0) = Inr (tab, lens) \<Longrightarrow> mpd_table_ok g tab"
  using mpd_sweep_Inr [of elide g 0 "(tab0, lens0)" "(tab, lens)"]
  by (fastforce simp: mpd_table_ok_def)

interpretation pd_m68k: sprint_sim m68k_step "mpd_step tab" "\<lambda>s. mpd_table_ok g0 tab \<and> mpd_run_ok g0 s" 
    "(=)" mpd_rel for g0 tab
proof unfold_locales
  fix s t assume rel: "mpd_rel s t" and good: "mpd_table_ok g0 tab \<and> mpd_run_ok g0 s"
  obtain m g pc where s: "s = (m, g, pc)" by (cases s)
  have pc: "unat pc < MPD_REGION_BYTES" "mpd_reach g0 0 (unat pc)" "mpd_decode g pc = mpd_decode g0 pc"
    using good by (auto simp: s mpd_run_ok_def)
  obtain len where len: "entry_index pc < length tab" "mpd_decode g pc = Inr (tab ! entry_index pc, len)"
    using good pc by (fastforce simp: mpd_table_ok_def simp flip: entry_index_reach)
  with good have "mi_id (tab ! entry_index pc) \<noteq> MI_ILLEGAL"
    by (simp add: s mpd_run_ok_def)
  with mpd_decode_step [OF pc(1) len(2), of m]
  have "mpd_step tab t = to_mpd (m68k_step s)"
    using rel len(1) by (simp add: mpd_rel_def s entry_ok_def mpd_step_def)
  then show "rel_sum (=) mpd_rel (m68k_step s) (mpd_step tab t)" by (rule to_mpd_rel)
qed

text \<open>The run of the predecoded loop; it forgets bit 0 of the final pc.\<close>

lemma m68k_run_pd_eq:
  assumes "mpd_sweep False g 0 t = Inr (tab, lens)"
    and "stays (mpd_run_ok g) m68k_step (unat budget) (m, g, m68k_pc m)"
  shows "m68k_run_pd t m g budget =
    bindE (m68k_run_switch m g budget) (\<lambda>(m, g).
      Inr (m\<lparr>m68k_pc := push_bit 1 (drop_bit 1 (m68k_pc m))\<rparr>, g, tab, lens))"
proof -
  have ok: "mpd_table_ok g tab"
    using mpd_sweep_table_ok [of False g "fst t" "snd t"] assms(1) by simp
  have "rel_sum (=) mpd_rel (sprint m68k_step (unat budget) (m, g, m68k_pc m))
      (sprint (mpd_step tab) (unat budget) (m, g, entry_index (m68k_pc m)))"
    by (rule pd_m68k.sprint_sim [where ?g0.0 = g]) (use assms(2) ok in \<open>simp_all add: mpd_rel_def\<close>)
  then show ?thesis
    unfolding m68k_run_pd_def m68k_run_mpd_def m68k_run_switch_def
    by (cases "sprint m68k_step (unat budget) (m, g, m68k_pc m)")
      (auto simp: assms(1) entry_index_def mpd_rel_def rel_sum_simps elim: rel_sum.cases)
qed
end
