(* ===== verification/M68K_Elide.thy ===== *)
theory M68K_Elide
  imports M68K_Agree
begin

text \<open>
  M68K backend C, the build with \<open>M68K_ELIDE\<close>: a run over the table the elision pass
  has changed goes through the same registers, X, pc and memory as the switch's run, and
  wherever N, Z, V or C differ the next instruction overwrites all four before reading any.
\<close>

section \<open>States that differ in N, Z, V and C\<close>

definition same_but_nzvc :: "m68k \<Rightarrow> m68k \<Rightarrow> bool" where
  "same_but_nzvc m m' \<longleftrightarrow> regs m' = regs m \<and> m68k_pc m' = m68k_pc m \<and> m68k_x m' = m68k_x m"

lemma same_but_nzvcE:
  assumes "same_but_nzvc m m'"
  obtains n z v c where "m' = m\<lparr>m68k_n := n, m68k_z := z, m68k_v := v, m68k_cf := c\<rparr>"
proof -
  have "m' = m\<lparr>m68k_n := m68k_n m', m68k_z := m68k_z m', m68k_v := m68k_v m', m68k_cf := m68k_cf m'\<rparr>"
    using assms by (intro m68k.equality) (simp_all add: same_but_nzvc_def)
  then show thesis by (rule that)
qed

lemmas cc_defs = cc_nz_l_def cc_nz_w_def cc_nz_b_def cc_add_l_def cc_sub_l_def cc_cmp_l_def
  cc_if_def shift_flags_def ra_def rb_def to_ra_def to_rb_def Let_def

text \<open>An instruction that sets all four reads none of them.\<close>

lemma el_body_flags:
  assumes "same_but_nzvc m m'" shows "el_body nm True e m' g = el_body nm True e m g"
  using assms by (elim same_but_nzvcE, cases nm) (auto simp: cc_defs intro!: bindE_cong)

definition el_result :: "m68k \<times> mem_env \<Rightarrow> m68k \<times> mem_env \<Rightarrow> bool" where
  "el_result = (\<lambda>(m, g) (m', g'). same_but_nzvc m m' \<and> g' = g)"

lemma rel_bindE:
  "(\<And>v. x = Inr v \<Longrightarrow> rel_sum (=) R (f v) (h v)) \<Longrightarrow> rel_sum (=) R (bindE x f) (bindE x h)"
  by (cases x) auto

lemma el_body_elided:
  assumes "same_but_nzvc m m'"
  shows "rel_sum (=) el_result (el_body nm True e m g) (el_body nm False e m' g)"
  using assms by (elim same_but_nzvcE, cases nm)
    (auto simp: cc_defs el_result_def same_but_nzvc_def intro!: rel_bindE)

lemma mpd_elided_EL: "mpd_elided (MI_EL nm) = MI_NF nm"
  by (cases nm) (simp_all add: mpd_elided_def mi_next_def mi_number_def mi_enum_def M68K_ELIDABLE_def)

section \<open>One iteration\<close>

text \<open>The instruction of entry \<open>i\<close> sets all of N, Z, V and C: what they hold is dead.\<close>

definition flags_dead :: "mem_env \<Rightarrow> nat \<Rightarrow> bool" where
  "flags_dead g0 i \<longleftrightarrow> 2 * i < MPD_REGION_BYTES \<and>
     (case mpd_decode g0 (of_nat (2 * i)) of Inl e \<Rightarrow> False | Inr el \<Rightarrow> mpd_writes_all_nzvc (mi_id (fst el)))"

definition elide_rel :: "mem_env \<Rightarrow> m68k_local \<Rightarrow> mpd_local \<Rightarrow> bool" where
  "elide_rel g0 = (\<lambda>(m, g, pc) (m', g', i). g' = g \<and> i = entry_index pc \<and>
     (m' = m \<or> same_but_nzvc m m' \<and> flags_dead g0 i))"

definition elide_table :: "mem_env \<Rightarrow> m68k_ent list \<Rightarrow> bool" where
  "elide_table g tab \<longleftrightarrow> (\<forall>a el. mpd_reach g 0 a \<longrightarrow> a < MPD_REGION_BYTES \<longrightarrow>
     mpd_decode g (of_nat a) = Inr el \<longrightarrow> a div 2 < length tab \<and> tab ! (a div 2) = elide_ent g a el)"

text \<open>From states that agree but for dead flags.\<close>

lemma handler_dead_flags:
  assumes "same_but_nzvc m m'" "mpd_writes_all_nzvc (mi_id e)"
  shows "mpd_handler (mi_id e) e (m', g, i) = mpd_handler (mi_id e) e (m, g, i)"
proof -
  have "mpd_handler (MI_PF p) e (m', g, i) = mpd_handler (MI_PF p) e (m, g, i)" for p
    using assms(1) by (elim same_but_nzvcE, cases p) (auto simp: cc_defs)
  then show ?thesis
    using assms el_body_flags [OF assms(1)] by (cases "mi_id e") auto
qed

text \<open>Where the next instruction overwrites the flags.\<close>

definition elide_out :: "nat \<Rightarrow> mpd_local \<Rightarrow> mpd_local \<Rightarrow> bool" where
  "elide_out j = (\<lambda>(m, g, i) (m', g', i'). g' = g \<and> i = j \<and> i' = j \<and> same_but_nzvc m m')"

lemma handler_elided:
  assumes "same_but_nzvc m m'" "len_ok (mi_id e) len" "mpd_writes_all_nzvc (mi_id e)"
  shows "rel_sum (=) (elide_out (i + len)) (mpd_handler (mi_id e) e (m, g, i))
     (mpd_handler (mpd_elided (mi_id e)) (e\<lparr>mi_id := mpd_elided (mi_id e)\<rparr>) (m', g, i))"
proof (cases "mi_id e")
  case (MI_EL nm)
  have "el_body nm False (e\<lparr>mi_id := MI_NF nm\<rparr>) m' g = el_body nm False e m' g"
    by (cases nm) (simp_all add: cc_defs)
  with el_body_elided [OF assms(1), of nm e g] MI_EL assms(2) show ?thesis
    by (auto simp: mpd_elided_EL el_result_def elide_out_def elim!: rel_sum.cases)
next
  case (MI_PF p)
  with assms show ?thesis
    by (elim same_but_nzvcE, cases p)
      (auto simp: mpd_elided_def cc_defs elide_out_def same_but_nzvc_def)
qed (use assms(3) in auto)

lemma elided_other: "\<not> mpd_writes_all_nzvc i \<Longrightarrow> mpd_elided i = i"
  by (cases i) (auto simp: mpd_elided_def)

lemma elide_ent_dead:
  assumes "2 * i = a"
  shows "elide_ent g a (ent, len) =
    (if flags_dead g (i + len) then ent\<lparr>mi_id := mpd_elided (mi_id ent)\<rparr> else ent)"
  using assms by (auto simp: elide_ent_def flags_dead_def Let_def algebra_simps split: sum.split)

lemma elide_out_rel:
  "rel_sum (=) (elide_out j) (to_mpd x) y \<Longrightarrow> flags_dead g0 j \<Longrightarrow> rel_sum (=) (elide_rel g0) x y"
  by (cases x; cases y) (auto simp: elide_out_def elide_rel_def)

lemma to_mpd_elide_rel: "rel_sum (=) (elide_rel g0) x (to_mpd x)"
  by (cases x) (auto simp: elide_rel_def)

interpretation pd_elide: sprint_sim m68k_step "mpd_step tab"
    "\<lambda>s. elide_table g0 tab \<and> mpd_run_ok g0 s" "(=)" "elide_rel g0" for g0 tab
proof unfold_locales
  fix s t assume rel: "elide_rel g0 s t" and good: "elide_table g0 tab \<and> mpd_run_ok g0 s"
  obtain m g pc where s: "s = (m, g, pc)" by (cases s)
  let ?i = "entry_index pc"
  have pc: "unat pc < MPD_REGION_BYTES" "mpd_reach g0 0 (unat pc)" "mpd_decode g pc = mpd_decode g0 pc"
    using good by (auto simp: s mpd_run_ok_def)
  obtain ent len where dec: "mpd_decode g0 pc = Inr (ent, len)" "mi_id ent \<noteq> MI_ILLEGAL"
    using good by (auto simp: s mpd_run_ok_def split: sum.splits)
  obtain m' where t: "t = (m', g, ?i)" and m': "m' = m \<or> same_but_nzvc m m' \<and> flags_dead g0 ?i"
    using rel by (cases t) (auto simp: s elide_rel_def)
  have "even (unat pc)" using mpd_reach_even [OF pc(2)] by simp
  then have pc': "2 * ?i = unat pc" by (auto simp: entry_index_def unat_drop_bit_div)
  have tab: "?i < length tab" "tab ! ?i = elide_ent g0 (unat pc) (ent, len)"
    using good pc dec by (auto simp: elide_table_def simp flip: entry_index_reach)
  have sw: "mpd_handler (mi_id ent) ent (m, g, ?i) = to_mpd (m68k_step (m, g, pc))"
    using mpd_decode_step [OF pc(1), of g "(ent, len)" m] dec pc(3) by (simp add: entry_ok_def)
  have dead: "flags_dead g0 ?i \<longleftrightarrow> mpd_writes_all_nzvc (mi_id ent)"
    using pc(1) dec by (simp add: flags_dead_def pc')
  show "rel_sum (=) (elide_rel g0) (m68k_step s) (mpd_step tab t)"
  proof (cases "flags_dead g0 (?i + len) \<and> mpd_writes_all_nzvc (mi_id ent)")
    case True
    have "same_but_nzvc m m'" using m' by (auto simp: same_but_nzvc_def)
    from handler_elided [OF this _ conjunct2 [OF True], where len = len and g = g and i = ?i] True
      mpd_decode_ent_ok [OF dec(1)] tab
    have "rel_sum (=) (elide_out (?i + len)) (to_mpd (m68k_step s)) (mpd_step tab t)"
      by (simp add: ent_ok_def elide_ent_dead [OF pc'] mpd_step_def t s flip: sw)
    then show ?thesis
      using True by (intro elide_out_rel) auto
  next
    case False
    then have "tab ! ?i = ent"
      using tab(2) elided_other by (auto simp: elide_ent_dead [OF pc'])
    then have "mpd_step tab t = to_mpd (m68k_step s)"
      using tab(1) m' handler_dead_flags [of m m' ent g ?i]
      by (auto simp: mpd_step_def t s dead simp flip: sw)
    then show ?thesis by (simp add: to_mpd_elide_rel)
  qed
qed

section \<open>Runs\<close>

lemma mpd_elide_table:
  assumes "mpd_sweep True g 0 t = Inr (tab, lens)"
  shows "\<exists>tab'. mpd_elide_pass lens 0 tab = Inr tab' \<and> elide_table g tab'"
proof -
  have table: "mpd_table_of g 0 (tab, lens)"
    using mpd_sweep_table_of [OF assms] .
  then obtain tab' where "mpd_elide_pass lens 0 tab = Inr tab'" "length tab' = length tab"
      "\<forall>a el. mpd_reach g 0 a \<longrightarrow> a < MPD_REGION_BYTES \<longrightarrow> mpd_decode g (of_nat a) = Inr el \<longrightarrow>
        tab' ! (a div 2) = elide_ent g a el"
    using mpd_elide_pass_Inr [of g 0 tab lens] by auto
  with table show ?thesis by (auto simp: elide_table_def mpd_table_of_def)
qed

text \<open>
  The outcome of the elided run against the switch's: the same trap, or the same memory,
  registers, X and pc (but for its bit 0), and the same N, Z, V and C unless the run ended
  just before an instruction that overwrites them.
\<close>

definition elide_result :: "mem_env \<Rightarrow> m68k \<times> mem_env \<Rightarrow> m68k \<times> mem_env \<times> mpd_tables \<Rightarrow> bool" where
  "elide_result g0 = (\<lambda>(m, g) (m', g', t). g' = g \<and>
     (let m = m\<lparr>m68k_pc := push_bit 1 (drop_bit 1 (m68k_pc m))\<rparr>
      in m' = m \<or> same_but_nzvc m m' \<and> flags_dead g0 (entry_index (m68k_pc m))))"

lemma m68k_run_pd_elide_rel:
  assumes "mpd_sweep True g 0 t = Inr (tab, lens)"
    and "stays (mpd_run_ok g) m68k_step (unat budget) (m, g, m68k_pc m)"
  shows "rel_sum (=) (elide_result g) (m68k_run_switch m g budget) (m68k_run_pd_elide t m g budget)"
proof -
  obtain tab' where tab': "mpd_elide_pass lens 0 tab = Inr tab'" "elide_table g tab'"
    using mpd_elide_table [OF assms(1)] by blast
  have "rel_sum (=) (elide_rel g) (sprint m68k_step (unat budget) (m, g, m68k_pc m))
      (sprint (mpd_step tab') (unat budget) (m, g, entry_index (m68k_pc m)))"
    by (rule pd_elide.sprint_sim) (use assms(2) tab'(2) in \<open>simp_all add: elide_rel_def\<close>)
  moreover have "entry_index (push_bit 1 (drop_bit 1 a)) = entry_index a" for a
  proof -
    have "drop_bit 1 (push_bit 1 (drop_bit 1 a)) = drop_bit 1 a"
      by (rule bit_word_eqI) (auto simp: bit_simps simp del: push_bit_Suc One_nat_def dest: bit_imp_le_length)
    then show ?thesis by (simp only: entry_index_def)
  qed
  ultimately show ?thesis
    unfolding m68k_run_pd_elide_def m68k_run_mpd_def m68k_run_switch_def
    by (cases "sprint m68k_step (unat budget) (m, g, m68k_pc m)")
      (auto simp: assms(1) tab'(1) elide_rel_def elide_result_def entry_index_def same_but_nzvc_def
        Let_def elim!: rel_sum.cases)
qed
end
