(* ===== verification/M68K_Harness.thy ===== *)
theory M68K_Harness
  imports M68K_Predecode Bench_Harness
begin

text \<open>
  \<open>src/m68k/bench_main.c\<close>: the mini assembler, the three kernels, the set-up of a run, the
  state hash with and without the condition codes and the main loop with its self check.
  The diagnostics, the clock and the figures printed are not modelled. Names the PowerPC
  harness uses too carry the prefix \<open>m68k_\<close>, the assembler macros the prefix \<open>asm_\<close>.
\<close>

section \<open>Mini assembler\<close>

text \<open>Guest memory and \<open>g_pc\<close>, the guest address the next \<open>ew\<close> lands at.\<close>

type_synonym m68k_asm = "mem_env \<times> u32"

definition ew :: "u16 \<Rightarrow> m68k_asm \<Rightarrow> m68k_asm" where
  "ew w = (\<lambda>(m, g_pc). (poke16 m g_pc w, g_pc + 2))"

text \<open>The arithmetic of a macro is that of \<open>int\<close> or \<open>uint32_t\<close>; \<open>ew\<close> converts the
  result to \<open>uint16_t\<close>.\<close>

definition ew32 :: "u32 \<Rightarrow> m68k_asm \<Rightarrow> m68k_asm" where
  "ew32 w = ew (ucast w)"

definition asm_MOVEQ :: "u32 \<Rightarrow> u32 \<Rightarrow> m68k_asm \<Rightarrow> m68k_asm" where
  "asm_MOVEQ dn imm = ew32 (0x7000 OR push_bit 9 dn OR (imm AND 0xFF))"

text \<open>
  The macros with a 32-bit immediate evaluate their argument twice, once for each half.
  The models take both values: for a constant they are the same, for the argument
  \<open>lcg(&seed)\<close> of the stress kernel they are two successive generator values.
\<close>

definition ew_imm32 :: "u32 \<Rightarrow> u32 \<Rightarrow> m68k_asm \<Rightarrow> m68k_asm" where
  "ew_imm32 imm1 imm2 s = ew32 imm2 (ew32 (drop_bit 16 imm1) s)"

definition asm_MOVE_L_IMM_DN :: "u32 \<Rightarrow> u32 \<Rightarrow> u32 \<Rightarrow> m68k_asm \<Rightarrow> m68k_asm" where
  "asm_MOVE_L_IMM_DN dn imm1 imm2 s = ew_imm32 imm1 imm2 (ew32 (0x203C OR push_bit 9 dn) s)"
definition asm_MOVE_W_IMM_DN :: "u32 \<Rightarrow> u32 \<Rightarrow> m68k_asm \<Rightarrow> m68k_asm" where
  "asm_MOVE_W_IMM_DN dn imm s = ew32 imm (ew32 (0x303C OR push_bit 9 dn) s)"
definition asm_MOVEA_L_IMM :: "u32 \<Rightarrow> u32 \<Rightarrow> u32 \<Rightarrow> m68k_asm \<Rightarrow> m68k_asm" where
  "asm_MOVEA_L_IMM an imm1 imm2 s = ew_imm32 imm1 imm2 (ew32 (0x207C OR push_bit 9 an) s)"
definition asm_MOVE_L_DD :: "u32 \<Rightarrow> u32 \<Rightarrow> m68k_asm \<Rightarrow> m68k_asm" where
  "asm_MOVE_L_DD dst src = ew32 (0x2000 OR push_bit 9 dst OR src)"
definition asm_MOVE_L_ANP_DN :: "u32 \<Rightarrow> u32 \<Rightarrow> m68k_asm \<Rightarrow> m68k_asm" where
  "asm_MOVE_L_ANP_DN dn an = ew32 (0x2018 OR push_bit 9 dn OR an)"
definition asm_MOVE_L_DN_ANP :: "u32 \<Rightarrow> u32 \<Rightarrow> m68k_asm \<Rightarrow> m68k_asm" where
  "asm_MOVE_L_DN_ANP an dn = ew32 (0x20C0 OR push_bit 9 an OR dn)"

text \<open>The displacement forms: opcode word, then the displacement.\<close>

definition ew_disp :: "u32 \<Rightarrow> u32 \<Rightarrow> m68k_asm \<Rightarrow> m68k_asm" where
  "ew_disp op d s = ew32 d (ew32 op s)"

definition asm_MOVE_L_D16_DN :: "u32 \<Rightarrow> u32 \<Rightarrow> u32 \<Rightarrow> m68k_asm \<Rightarrow> m68k_asm" where
  "asm_MOVE_L_D16_DN dn an d = ew_disp (0x2028 OR push_bit 9 dn OR an) d"
definition asm_MOVE_L_DN_D16 :: "u32 \<Rightarrow> u32 \<Rightarrow> u32 \<Rightarrow> m68k_asm \<Rightarrow> m68k_asm" where
  "asm_MOVE_L_DN_D16 an d dn = ew_disp (0x2140 OR push_bit 9 an OR dn) d"
definition asm_MOVE_W_D16_DN :: "u32 \<Rightarrow> u32 \<Rightarrow> u32 \<Rightarrow> m68k_asm \<Rightarrow> m68k_asm" where
  "asm_MOVE_W_D16_DN dn an d = ew_disp (0x3028 OR push_bit 9 dn OR an) d"
definition asm_MOVE_W_DN_D16 :: "u32 \<Rightarrow> u32 \<Rightarrow> u32 \<Rightarrow> m68k_asm \<Rightarrow> m68k_asm" where
  "asm_MOVE_W_DN_D16 an d dn = ew_disp (0x3140 OR push_bit 9 an OR dn) d"
definition asm_MOVE_B_D16_DN :: "u32 \<Rightarrow> u32 \<Rightarrow> u32 \<Rightarrow> m68k_asm \<Rightarrow> m68k_asm" where
  "asm_MOVE_B_D16_DN dn an d = ew_disp (0x1028 OR push_bit 9 dn OR an) d"
definition asm_MOVE_B_DN_D16 :: "u32 \<Rightarrow> u32 \<Rightarrow> u32 \<Rightarrow> m68k_asm \<Rightarrow> m68k_asm" where
  "asm_MOVE_B_DN_D16 an d dn = ew_disp (0x1140 OR push_bit 9 an OR dn) d"
definition asm_ADD_L_DD :: "u32 \<Rightarrow> u32 \<Rightarrow> m68k_asm \<Rightarrow> m68k_asm" where
  "asm_ADD_L_DD dst src = ew32 (0xD080 OR push_bit 9 dst OR src)"
definition asm_SUB_L_DD :: "u32 \<Rightarrow> u32 \<Rightarrow> m68k_asm \<Rightarrow> m68k_asm" where
  "asm_SUB_L_DD dst src = ew32 (0x9080 OR push_bit 9 dst OR src)"
definition asm_CMP_L_DD :: "u32 \<Rightarrow> u32 \<Rightarrow> m68k_asm \<Rightarrow> m68k_asm" where
  "asm_CMP_L_DD dn src = ew32 (0xB080 OR push_bit 9 dn OR src)"
definition asm_EOR_L_DD :: "u32 \<Rightarrow> u32 \<Rightarrow> m68k_asm \<Rightarrow> m68k_asm" where
  "asm_EOR_L_DD dst dn = ew32 (0xB180 OR push_bit 9 dn OR dst)"
definition asm_AND_L_DD :: "u32 \<Rightarrow> u32 \<Rightarrow> m68k_asm \<Rightarrow> m68k_asm" where
  "asm_AND_L_DD dst src = ew32 (0xC080 OR push_bit 9 dst OR src)"
definition asm_OR_L_DD :: "u32 \<Rightarrow> u32 \<Rightarrow> m68k_asm \<Rightarrow> m68k_asm" where
  "asm_OR_L_DD dst src = ew32 (0x8080 OR push_bit 9 dst OR src)"
definition asm_ADDQ_L_DN :: "u32 \<Rightarrow> u32 \<Rightarrow> m68k_asm \<Rightarrow> m68k_asm" where
  "asm_ADDQ_L_DN q dn = ew32 (0x5080 OR push_bit 9 (q AND 7) OR dn)"
definition asm_ADDQ_L_AN :: "u32 \<Rightarrow> u32 \<Rightarrow> m68k_asm \<Rightarrow> m68k_asm" where
  "asm_ADDQ_L_AN q an = ew32 (0x5088 OR push_bit 9 (q AND 7) OR an)"
definition asm_SUBQ_L_DN :: "u32 \<Rightarrow> u32 \<Rightarrow> m68k_asm \<Rightarrow> m68k_asm" where
  "asm_SUBQ_L_DN q dn = ew32 (0x5180 OR push_bit 9 (q AND 7) OR dn)"
definition asm_CMPI_L_DN :: "u32 \<Rightarrow> u32 \<Rightarrow> u32 \<Rightarrow> m68k_asm \<Rightarrow> m68k_asm" where
  "asm_CMPI_L_DN imm1 imm2 dn s = ew_imm32 imm1 imm2 (ew32 (0x0C80 OR dn) s)"
definition asm_TST_L_DN :: "u32 \<Rightarrow> m68k_asm \<Rightarrow> m68k_asm" where
  "asm_TST_L_DN dn = ew32 (0x4A80 OR dn)"
definition asm_TST_W_DN :: "u32 \<Rightarrow> m68k_asm \<Rightarrow> m68k_asm" where
  "asm_TST_W_DN dn = ew32 (0x4A40 OR dn)"
definition asm_TST_B_DN :: "u32 \<Rightarrow> m68k_asm \<Rightarrow> m68k_asm" where
  "asm_TST_B_DN dn = ew32 (0x4A00 OR dn)"
definition asm_LSL_L :: "u32 \<Rightarrow> u32 \<Rightarrow> m68k_asm \<Rightarrow> m68k_asm" where
  "asm_LSL_L q dn = ew32 (0xE188 OR push_bit 9 (q AND 7) OR dn)"
definition asm_LSR_L :: "u32 \<Rightarrow> u32 \<Rightarrow> m68k_asm \<Rightarrow> m68k_asm" where
  "asm_LSR_L q dn = ew32 (0xE088 OR push_bit 9 (q AND 7) OR dn)"
definition asm_LEA_D16 :: "u32 \<Rightarrow> u32 \<Rightarrow> u32 \<Rightarrow> m68k_asm \<Rightarrow> m68k_asm" where
  "asm_LEA_D16 dst src d = ew_disp (0x41E8 OR push_bit 9 dst OR src) d"
definition asm_NOP :: "m68k_asm \<Rightarrow> m68k_asm" where
  "asm_NOP = ew32 0x4E71"

text \<open>The branches take absolute targets; \<open>(uint8_t)\<close> keeps the low 8 bits.\<close>

definition asm_BRA_B :: "u32 \<Rightarrow> m68k_asm \<Rightarrow> m68k_asm" where
  "asm_BRA_B target s = ew32 (0x6000 OR take_bit 8 (target - (snd s + 2))) s"
definition asm_BRA_W :: "u32 \<Rightarrow> m68k_asm \<Rightarrow> m68k_asm" where
  "asm_BRA_W target s = (let s = ew32 0x6000 s in ew32 (target - snd s) s)"
definition asm_BCC_B :: "u32 \<Rightarrow> u32 \<Rightarrow> m68k_asm \<Rightarrow> m68k_asm" where
  "asm_BCC_B cond target s =
    ew32 (0x6000 OR push_bit 8 cond OR take_bit 8 (target - (snd s + 2))) s"
definition asm_DBRA :: "u32 \<Rightarrow> u32 \<Rightarrow> m68k_asm \<Rightarrow> m68k_asm" where
  "asm_DBRA dn target s = (let s = ew32 (0x51C8 OR dn) s in ew32 (target - snd s) s)"

lemmas m68k_encoders =
  asm_MOVEQ_def asm_MOVE_L_IMM_DN_def asm_MOVE_W_IMM_DN_def asm_MOVEA_L_IMM_def
  asm_MOVE_L_DD_def asm_MOVE_L_ANP_DN_def asm_MOVE_L_DN_ANP_def asm_MOVE_L_D16_DN_def
  asm_MOVE_L_DN_D16_def asm_MOVE_W_D16_DN_def asm_MOVE_W_DN_D16_def asm_MOVE_B_D16_DN_def
  asm_MOVE_B_DN_D16_def asm_ADD_L_DD_def asm_SUB_L_DD_def asm_CMP_L_DD_def asm_EOR_L_DD_def
  asm_AND_L_DD_def asm_OR_L_DD_def asm_ADDQ_L_DN_def asm_ADDQ_L_AN_def asm_SUBQ_L_DN_def
  asm_CMPI_L_DN_def asm_TST_L_DN_def asm_TST_W_DN_def asm_TST_B_DN_def asm_LSL_L_def
  asm_LSR_L_def asm_LEA_D16_def asm_NOP_def asm_BRA_B_def asm_BRA_W_def asm_BCC_B_def
  asm_DBRA_def

section \<open>The kernels\<close>

definition CC_NE :: u32 where "CC_NE = 6"
definition CC_EQ :: u32 where "CC_EQ = 7"
definition CC_PL :: u32 where "CC_PL = 10"
definition CC_MI :: u32 where "CC_MI = 11"
definition CC_GE :: u32 where "CC_GE = 12"
definition CC_LT :: u32 where "CC_LT = 13"
definition CC_GT :: u32 where "CC_GT = 14"
definition CC_LE :: u32 where "CC_LE = 15"

lemmas m68k_ccs = CC_NE_def CC_EQ_def CC_PL_def CC_MI_def CC_GE_def CC_LT_def CC_GT_def CC_LE_def

definition m68k_kernel_alu :: "m68k_asm \<Rightarrow> m68k_asm" where
  "m68k_kernel_alu s =
    (let s = asm_MOVE_L_IMM_DN 2 0x12345678 0x12345678 s;
         top = snd s;
         s = asm_MOVE_W_IMM_DN 0 0x0FFF s;
         loop = snd s;
         s = asm_ADD_L_DD 1 2 s;
         s = asm_MOVE_L_DD 3 1 s;
         s = asm_LSR_L 7 3 s;
         s = asm_EOR_L_DD 1 3 s;
         s = asm_ADDQ_L_DN 3 2 s;
         s = asm_CMP_L_DD 1 2 s;
         s = asm_BCC_B CC_GT (snd s + 2 + 2) s;
         s = asm_SUB_L_DD 1 2 s;
         s = asm_LSL_L 1 4 s;
         s = asm_DBRA 0 loop s
     in asm_BRA_B top s)"

definition m68k_kernel_mem :: "m68k_asm \<Rightarrow> m68k_asm" where
  "m68k_kernel_mem s =
    (let top = snd s;
         s = asm_MOVEA_L_IMM 0 DATA_BASE DATA_BASE s;
         s = asm_MOVEA_L_IMM 1 STORE_BASE STORE_BASE s;
         s = asm_MOVE_W_IMM_DN 0 0x0FFF s;
         loop = snd s;
         s = asm_MOVE_L_ANP_DN 1 0 s;
         s = asm_ADD_L_DD 2 1 s;
         s = asm_MOVE_L_DN_ANP 1 2 s;
         s = asm_MOVE_B_D16_DN 3 0 2 s;
         s = asm_EOR_L_DD 2 3 s;
         s = asm_DBRA 0 loop s
     in asm_BRA_W top s)"

definition M68K_STREAM_LEN :: nat where "M68K_STREAM_LEN = 8192"

text \<open>
  The body of the stream loop for the generator value \<open>r\<close>: \<open>force_short\<close> as the previous
  iteration left it, \<open>lst\<close> for the last two. It returns the new \<open>force_short\<close>, the
  generator's state and the code emitted.
\<close>

type_synonym m68k_stream = "bool \<times> u32 \<times> m68k_asm"

definition m68k_stress_insn :: "u32 \<Rightarrow> bool \<Rightarrow> m68k_stream \<Rightarrow> m68k_stream" where
  "m68k_stress_insn r lst = (\<lambda>(force_short, seed, s).
    let dn = drop_bit 8 r AND 7; dm = drop_bit 12 r AND 7;
        off = drop_bit 16 r AND 0x7FC;
        q = 1 + (drop_bit 26 r AND 7);
        pick = (if force_short then r mod 40 else r mod 100);
        v = lcg seed; v' = lcg v;
        go = (\<lambda>s. (False, seed, s))
    in if pick < 8 then go (asm_ADD_L_DD dn dm s)
       else if pick < 14 then go (asm_SUB_L_DD dn dm s)
       else if pick < 19 then go (asm_EOR_L_DD dn dm s)
       else if pick < 23 then go (asm_AND_L_DD dn dm s)
       else if pick < 26 then go (asm_OR_L_DD dn dm s)
       else if pick < 30 then go (asm_MOVE_L_DD dn dm s)
       else if pick < 33 then go (asm_MOVEQ dn ((r AND 0xFF) - 128) s)
       else if pick < 36
       then go (if r AND 0x100000 \<noteq> 0 then asm_ADDQ_L_DN q dn s else asm_SUBQ_L_DN q dn s)
       else if pick < 40
       then go (if r AND 0x100000 \<noteq> 0 then asm_LSR_L q dn s else asm_LSL_L q dn s)
       else if pick < 46 then go (asm_MOVE_L_D16_DN dn 5 off s)
       else if pick < 50 then go (asm_MOVE_W_D16_DN dn 5 off s)
       else if pick < 53 then go (asm_MOVE_B_D16_DN dn 5 off s)
       else if pick < 59 then go (asm_MOVE_L_DN_D16 6 off dn s)
       else if pick < 62 then go (asm_MOVE_W_DN_D16 6 off dn s)
       else if pick < 65 then go (asm_MOVE_B_DN_D16 6 off dn s)
       else if pick < 70 then (False, v', asm_MOVE_L_IMM_DN dn v v' s)
       else if pick < 76 then go (asm_CMP_L_DD dn dm s)
       else if pick < 80 then (False, v', asm_CMPI_L_DN v v' dn s)
       else if pick < 84 then go (asm_TST_L_DN dn s)
       else if \<not> lst
       then (True, seed,
         asm_BCC_B ([CC_EQ, CC_NE, CC_LT, CC_GE, CC_MI, CC_PL] ! unat (drop_bit 5 r mod 6))
           (snd s + 2 + 2) s)
       else go (asm_ADD_L_DD dn dm s))"

text \<open>The loop, with \<open>k\<close> instructions still to emit: \<open>i >= STREAM_LEN - 2\<close> for the last two.\<close>

primrec m68k_stress_stream :: "nat \<Rightarrow> m68k_stream \<Rightarrow> m68k_stream" where
  "m68k_stress_stream 0 t = t"
| "m68k_stress_stream (Suc k) t =
    (let (force_short, seed, s) = t; r = lcg seed
     in m68k_stress_stream k (m68k_stress_insn r (k < 2) (force_short, r, s)))"

definition m68k_stress_seed :: "u32 \<Rightarrow> u32 \<times> m68k_asm \<Rightarrow> u32 \<times> m68k_asm" where
  "m68k_stress_seed r = (\<lambda>(seed, s).
    let v = lcg seed; v' = lcg v in (v', asm_MOVE_L_IMM_DN r v v' s))"

definition m68k_kernel_stress :: "m68k_asm \<Rightarrow> m68k_asm" where
  "m68k_kernel_stress s =
    (let s = asm_MOVEA_L_IMM 5 DATA_BASE DATA_BASE s;
         s = asm_MOVEA_L_IMM 6 STORE_BASE STORE_BASE s;
         (seed, s) = fold m68k_stress_seed [0, 1, 2, 3, 4, 5, 6, 7] (0xC0FFEE02, s);
         loop = snd s;
         (force_short, seed, s) = m68k_stress_stream M68K_STREAM_LEN (False, seed, s)
     in asm_BRA_W loop s)"

section \<open>One run\<close>

definition m68k_reset :: m68k where
  "m68k_reset = \<lparr>regs = replicate 16 0, m68k_pc = 0, m68k_n = 0, m68k_z = 0, m68k_v = 0,
     m68k_cf = 0, m68k_x = 0\<rparr>"

definition m68k_setup_kernel :: "nat \<Rightarrow> mem_env \<Rightarrow> m68k \<times> mem_env" where
  "m68k_setup_kernel k g =
    (let g = fill_window (ram_memset g);
         (g, g_pc) = (if k = 0 then m68k_kernel_alu (g, CODE_BASE)
                      else if k = 1 then m68k_kernel_mem (g, CODE_BASE)
                      else m68k_kernel_stress (g, CODE_BASE))
     in (m68k_reset\<lparr>m68k_pc := CODE_BASE\<rparr>, g))"

definition m68k_state_hash :: "bool \<Rightarrow> m68k \<Rightarrow> mem_env \<Rightarrow> u64" where
  "m68k_state_hash with_flags m g = fnv_hash (map ucast (regs m) @ [ucast (m68k_pc m)]
     @ (if with_flags then [ucast (m68k_n m), ucast (m68k_z m), ucast (m68k_v m),
          ucast (m68k_cf m), ucast (m68k_x m)] else [])
     @ ram_words g)"

section \<open>The main program\<close>

text \<open>The static tables of the two predecoding builds, which persist between runs.\<close>

record m68k_tables =
  tab_pd :: mpd_tables
  tab_elide :: mpd_tables

type_synonym m68k_globals = "mem_env \<times> m68k_tables"
type_synonym m68k_run_fn = "m68k \<Rightarrow> m68k_globals \<Rightarrow> u32 \<Rightarrow> (m68k \<times> m68k_globals) outcome"

definition m68k_backends :: "m68k_run_fn list" where
  "m68k_backends =
    [\<lambda>m (g, t) n. bindE (m68k_run_switch m g n) (\<lambda>(m, g). Inr (m, g, t)),
     \<lambda>m (g, t) n. bindE (m68k_run_pd (tab_pd t) m g n) (\<lambda>(m, g, tab). Inr (m, g, t\<lparr>tab_pd := tab\<rparr>)),
     \<lambda>m (g, t) n. bindE (m68k_run_pd_elide (tab_elide t) m g n)
       (\<lambda>(m, g, tab). Inr (m, g, t\<lparr>tab_elide := tab\<rparr>))]"

definition g_exact_flags :: "bool list" where
  "g_exact_flags = [True, True, False]"

text \<open>Setting the kernel up and running each backend, with both hashes of each run. The
  warm-up and the timed repetitions are the same loop without the hashes.\<close>

primrec m68k_run_all ::
    "nat \<Rightarrow> u32 \<Rightarrow> m68k_run_fn list \<Rightarrow> m68k_globals \<Rightarrow> ((u64 \<times> u64) list \<times> m68k_globals) outcome" where
  "m68k_run_all k budget [] gl = Inr ([], gl)"
| "m68k_run_all k budget (f # fs) gl =
    (let (cpu, g) = m68k_setup_kernel k (fst gl)
     in bindE (f cpu (g, snd gl) budget) (\<lambda>(cpu, gl).
        bindE (m68k_run_all k budget fs gl) (\<lambda>(hs, gl').
        Inr ((m68k_state_hash True cpu (fst gl), m68k_state_hash False cpu (fst gl)) # hs, gl'))))"

text \<open>The first backend whose hash differs, on the hash its \<open>g_exact_flags\<close> selects.\<close>

definition m68k_diverged :: "(u64 \<times> u64) list \<Rightarrow> nat option" where
  "m68k_diverged hs = find (\<lambda>b. \<not> (if g_exact_flags ! b then fst (hs ! b) = fst (hs ! 0)
     else snd (hs ! b) = snd (hs ! 0))) [1..<length hs]"

primrec m68k_timed_reps :: "nat \<Rightarrow> nat \<Rightarrow> u32 \<Rightarrow> m68k_globals \<Rightarrow> m68k_globals outcome" where
  "m68k_timed_reps 0 k budget gl = Inr gl"
| "m68k_timed_reps (Suc r) k budget gl =
    bindE (m68k_run_all k budget m68k_backends gl) (\<lambda>(_, gl). m68k_timed_reps r k budget gl)"

definition m68k_verify_budget :: u32 where "m68k_verify_budget = 20 * 1000 * 1000"

definition m68k_bench_kernel ::
    "nat \<Rightarrow> u32 \<Rightarrow> nat \<Rightarrow> m68k_globals \<Rightarrow> (nat option \<times> m68k_globals) outcome" where
  "m68k_bench_kernel k bench_budget reps gl =
    bindE (m68k_run_all k m68k_verify_budget m68k_backends gl) (\<lambda>(hs, gl).
      case m68k_diverged hs of Some b \<Rightarrow> Inr (Some b, gl)
      | None \<Rightarrow>
          bindE (m68k_run_all k (bench_budget div 2) m68k_backends gl) (\<lambda>(_, gl).
          bindE (m68k_timed_reps reps k bench_budget gl) (\<lambda>gl. Inr (None, gl))))"

primrec m68k_bench_kernels :: "nat list \<Rightarrow> u32 \<Rightarrow> nat \<Rightarrow> m68k_globals \<Rightarrow> int outcome" where
  "m68k_bench_kernels [] bench_budget reps gl = Inr 0"
| "m68k_bench_kernels (k # ks) bench_budget reps gl =
    bindE (m68k_bench_kernel k bench_budget reps gl) (\<lambda>(bad, gl).
    case bad of Some b \<Rightarrow> Inr 1 | None \<Rightarrow> m68k_bench_kernels ks bench_budget reps gl)"

text \<open>\<open>main\<close>: its exit status, as for the PowerPC harness.\<close>

definition m68k_bench_main :: "u32 \<Rightarrow> nat \<Rightarrow> u64 \<times> u64 \<times> u64 \<Rightarrow> m68k_globals \<Rightarrow> int outcome" where
  "m68k_bench_main bench_budget reps blocks = (\<lambda>(g, t).
    bindE (mem_env_init RAM_SIZE blocks g)
      (\<lambda>g. m68k_bench_kernels [0, 1, 2] bench_budget reps (g, t)))"

end
