(* ===== verification/M68K_Kernels.thy ===== *)
theory M68K_Kernels
  imports M68K_Elide M68K_Harness
begin

text \<open>
  The first two kernels of \<open>src/m68k/bench_main.c\<close> as lists of instructions: the words
  assembled into memory, the sweep over them, and for each kernel the states a run goes
  through. Each is an interpretation of \<open>sprint_progress\<close>: a run of any length returns
  and every instruction of it is one on which the three backends agree.
\<close>

section \<open>Words assembled into memory\<close>

definition m68k_words :: "u16 list \<Rightarrow> mem_env \<Rightarrow> bool" where
  "m68k_words ws g \<longleftrightarrow> (\<forall>i < length ws. be16 (ram_at g) (CODE_BASE + 2 * of_nat i) = ws ! i)"

text \<open>Below the data windows, RAM is zero outside the code.\<close>

definition m68k_rest :: "nat \<Rightarrow> mem_env \<Rightarrow> bool" where
  "m68k_rest len g \<longleftrightarrow> (\<forall>x. unat x < 0x1000 \<or> 0x1000 + 2 * len \<le> unat x \<and> unat x < 0x100000 \<longrightarrow> ram_at g x = 0)"

lemma put16_other:
  assumes "unat (a :: u32) + 2 \<le> 0x100000" "unat x < unat a \<or> unat a + 2 \<le> unat x"
  shows "put16 f a v x = f x"
proof -
  have "unat (a + 1) = unat a + 1"
    using assms(1) by (simp add: unat_word_ariths)
  then have "x \<noteq> a" "x \<noteq> a + 1" using assms(2) by auto
  then show ?thesis by (simp add: put16_def)
qed

lemma be16_cong: "f a = h a \<Longrightarrow> f (a + 1) = h (a + 1) \<Longrightarrow> be16 f a = be16 h a"
  by (simp add: be16_def)

lemma ews:
  assumes "fold ew ws (g, a) = (g', a')" "aligned2 a" "unat a + 2 * length ws \<le> 0x100000"
    and "bench_env g"
  shows "a' = a + 2 * of_nat (length ws) \<and> bench_env g' \<and> ram_memset g' = ram_memset g
    \<and> (\<forall>x. unat x < unat a \<or> unat a + 2 * length ws \<le> unat x \<longrightarrow> ram_at g' x = ram_at g x)
    \<and> (\<forall>i < length ws. be16 (ram_at g') (a + 2 * of_nat i) = ws ! i)"
  using assms
proof (induction ws arbitrary: g a)
  case Nil
  then show ?case by simp
next
  case (Cons w ws)
  let ?g = "poke16 g a w"
  have al: "aligned2 (a + 2)"
    using Cons.prems(2) by (simp add: aligned2_even)
  have a2: "unat (a + 2) = unat a + 2"
    using Cons.prems(3) by (simp add: unat_word_ariths)
  have ram: "ram_at ?g = put16 (ram_at g) a w"
    using Cons.prems(2) by (simp add: ram_at_poke16 aligned2_in_page)
  have set: "ram_memset ?g = ram_memset g"
    using Cons.prems(3) by (intro ram_memset_pokes) (simp add: layout)
  have IH: "a' = a + 2 + 2 * of_nat (length ws) \<and> bench_env g' \<and> ram_memset g' = ram_memset ?g
    \<and> (\<forall>x. unat x < unat (a + 2) \<or> unat (a + 2) + 2 * length ws \<le> unat x \<longrightarrow> ram_at g' x = ram_at ?g x)
    \<and> (\<forall>i < length ws. be16 (ram_at g') (a + 2 + 2 * of_nat i) = ws ! i)"
    using Cons.prems a2 al by (intro Cons.IH) (simp_all add: ew_def)
  have frame: "ram_at g' x = ram_at g x"
    if "unat x < unat a \<or> unat a + 2 * length (w # ws) \<le> unat x" for x
  proof -
    have "unat x < unat (a + 2) \<or> unat (a + 2) + 2 * length ws \<le> unat x"
      using that by (auto simp: a2)
    with IH have "ram_at g' x = put16 (ram_at g) a w x" by (auto simp: ram)
    also have "\<dots> = ram_at g x"
      using that Cons.prems(3) by (intro put16_other) auto
    finally show ?thesis .
  qed
  have "unat (a + 1) = unat a + 1"
    using Cons.prems(3) by (simp add: unat_word_ariths)
  then have "be16 (ram_at g') a = be16 (ram_at ?g) a"
    using IH a2 by (intro be16_cong) simp_all
  then have first: "be16 (ram_at g') a = w" by (simp add: ram)
  have "be16 (ram_at g') (a + 2 * of_nat i) = (w # ws) ! i" if "i < length (w # ws)" for i
  proof (cases i)
    case 0
    with first show ?thesis by simp
  next
    case (Suc k)
    have "a + 2 * of_nat i = a + 2 + 2 * of_nat k"
      by (simp add: Suc algebra_simps)
    with IH that Suc show ?thesis by (simp add: add.assoc)
  qed
  with IH frame set show ?case by (simp add: algebra_simps)
qed

section \<open>Code in memory\<close>

text \<open>An environment of the harness that holds the instructions \<open>ins\<close>, and zeros around them.\<close>

definition m68k_code :: "u16 list list \<Rightarrow> mem_env \<Rightarrow> bool" where
  "m68k_code ins g \<longleftrightarrow> bench_env g \<and> length (concat ins) \<le> 0x8000 \<and> m68k_words (concat ins) g \<and>
     m68k_rest (length (concat ins)) g"

text \<open>The word index and address of an instruction.\<close>

definition word_of :: "u16 list list \<Rightarrow> nat \<Rightarrow> nat" where
  "word_of ins i = length (concat (take i ins))"

definition addr_of :: "u16 list list \<Rightarrow> nat \<Rightarrow> u32" where
  "addr_of ins i = CODE_BASE + 2 * of_nat (word_of ins i)"

lemma word_of_Suc: "i < length ins \<Longrightarrow> word_of ins (Suc i) = word_of ins i + length (ins ! i)"
  by (simp add: word_of_def take_Suc_conv_app_nth)

lemma word_of_le: "word_of ins i \<le> length (concat ins)"
  by (metis word_of_def append_take_drop_id concat_append length_append le_add1)

lemma concat_nth_instr:
  assumes "i < length ins" "j < length (ins ! i)"
  shows "concat ins ! (word_of ins i + j) = ins ! i ! j" "word_of ins i + j < length (concat ins)"
proof -
  have split: "ins = take i ins @ (ins ! i) # drop (Suc i) ins"
    using assms(1) by (rule id_take_nth_drop)
  have "concat ins = concat (take i ins) @ (ins ! i) @ concat (drop (Suc i) ins)"
    by (subst split) simp
  with assms(2) show "concat ins ! (word_of ins i + j) = ins ! i ! j" "word_of ins i + j < length (concat ins)"
    by (simp_all add: word_of_def nth_append)
qed

lemma bench_read16:
  assumes "bench_env g" "aligned2 a" "unat a < unat RAM_SIZE"
  shows "memory_read_uint16 g a = Inr (be16 (ram_at g) a)"
  using assms by (simp add: bench_masked bench_env_def aligned2_fetch)

lemma code_word_addr:
  assumes "k < 0x9000"
  shows "unat (CODE_BASE + 2 * of_nat k) = 0x1000 + 2 * k" "aligned2 (CODE_BASE + 2 * of_nat k)"
proof -
  show "unat (CODE_BASE + 2 * of_nat k) = 0x1000 + 2 * k"
    using assms by (simp add: layout unat_word_ariths unat_of_nat)
  then show "aligned2 (CODE_BASE + 2 * of_nat k)" by (simp add: aligned2_dvd_nat)
qed

lemma code_fetch:
  assumes "m68k_code ins g" "i < length ins" "j < length (ins ! i)"
  shows "memory_read_uint16 g (addr_of ins i + 2 * of_nat j) = Inr (ins ! i ! j)"
proof -
  define k where "k = word_of ins i + j"
  have k: "k < length (concat ins)" "concat ins ! k = ins ! i ! j"
    using concat_nth_instr [OF assms(2,3)] by (simp_all add: k_def)
  then have "k < 0x9000" using assms(1) by (simp add: m68k_code_def)
  note addr = code_word_addr [OF this]
  have "memory_read_uint16 g (CODE_BASE + 2 * of_nat k) = Inr (be16 (ram_at g) (CODE_BASE + 2 * of_nat k))"
    using assms(1) addr \<open>k < 0x9000\<close> by (intro bench_read16) (simp_all add: m68k_code_def layout)
  moreover have "be16 (ram_at g) (CODE_BASE + 2 * of_nat k) = ins ! i ! j"
    using assms(1) k by (simp add: m68k_code_def m68k_words_def)
  moreover have "addr_of ins i + 2 * of_nat j = CODE_BASE + 2 * of_nat k"
    by (simp add: addr_of_def k_def algebra_simps)
  ultimately show ?thesis by simp
qed

definition imm32 :: "u16 \<Rightarrow> u16 \<Rightarrow> u32" where
  "imm32 h l = push_bit 16 (ucast h) OR ucast l"

lemma be32_halves: "be32 f a = imm32 (be16 f a) (be16 f (a + 2))"
proof -
  have "push_bit 16 (ucast (be16 f a)) = (push_bit 24 (ucast (f a)) OR push_bit 16 (ucast (f (a + 1))) :: u32)"
    by (rule bit_word_eqI) (auto simp: be16_def bit_simps dest: bit_imp_le_length)
  moreover have "ucast (be16 f (a + 2)) = (push_bit 8 (ucast (f (a + 2))) OR ucast (f (a + 3)) :: u32)"
    by (rule bit_word_eqI) (auto simp: be16_def bit_simps add.assoc dest: bit_imp_le_length)
  ultimately show ?thesis by (simp add: be32_def imm32_def or.assoc)
qed

lemma code_fetch32:
  assumes "m68k_code ins g" "i < length ins" "length (ins ! i) = 3" "in_page 4 (addr_of ins i + 2)"
  shows "memory_read_uint32 g (addr_of ins i + 2) = Inr (imm32 (ins ! i ! 1) (ins ! i ! 2))"
proof -
  let ?a = "addr_of ins i + 2"
  have env: "bench_env g" "wf_env g" using assms(1) by (auto simp: m68k_code_def bench_env_def)
  have "word_of ins i + 2 < length (concat ins)"
    using concat_nth_instr(2) [OF assms(2), of 2] assms(3) by simp
  then have k: "word_of ins i + 2 < 0x8000" using assms(1) by (simp add: m68k_code_def)
  have a: "addr_of ins i + 2 * of_nat j = CODE_BASE + 2 * of_nat (word_of ins i + j)" for j
    by (simp add: addr_of_def algebra_simps)
  have unat: "unat (addr_of ins i + 2 * of_nat j) = 0x1000 + 2 * (word_of ins i + j)"
      "aligned2 (addr_of ins i + 2 * of_nat j)" if "j < 3" for j
    unfolding a using code_word_addr [of "word_of ins i + j"] that k by simp_all
  have half: "be16 (ram_at g) (addr_of ins i + 2 * of_nat j) = ins ! i ! j" if "j < 3" for j
  proof -
    have "memory_read_uint16 g (addr_of ins i + 2 * of_nat j)
        = Inr (be16 (ram_at g) (addr_of ins i + 2 * of_nat j))"
      using unat [OF that] k that by (intro bench_read16 env) (simp_all add: layout)
    moreover have "memory_read_uint16 g (addr_of ins i + 2 * of_nat j) = Inr (ins ! i ! j)"
      using that assms(3) by (intro code_fetch assms) simp
    ultimately show ?thesis by simp
  qed
  have "unat ?a < unat RAM_SIZE" using unat [of 1] k by (simp add: layout)
  then have "masked g ?a = ?a" using env(1) by (simp add: bench_masked)
  then show ?thesis
    using half [of 1] half [of 2] assms(4)
    by (simp add: memory_read_uint32_flat env be32_halves add.assoc)
qed

lemma zero_decode:
  assumes "m68k_code ins g" "aligned2 a"
    and "unat a < 0x1000 \<or> 0x1000 + 2 * length (concat ins) \<le> unat a \<and> unat a < MPD_REGION_BYTES"
  shows "mpd_decode g a = Inr (m68k_blank 0, 1)"
proof -
  have "even (unat a)" using assms(2) by (simp add: aligned2_dvd_nat)
  then have "unat a < 0x1000 \<Longrightarrow> unat a + 1 < 0x1000" by presburger
  moreover have "unat (a + 1) = unat a + 1"
    using assms(3) by (auto simp: unat_word_ariths mpd_region)
  ultimately have "be16 (ram_at g) a = 0"
    using assms by (auto simp: m68k_code_def m68k_rest_def be16_def mpd_region)
  moreover have "memory_read_uint16 g a = Inr (be16 (ram_at g) a)"
    using assms by (intro bench_read16) (auto simp: m68k_code_def layout mpd_region)
  ultimately show ?thesis by (simp add: mpd_decode_def Let_def)
qed

section \<open>The sweep over a kernel\<close>

text \<open>Every instruction of the kernel decodes to a legal entry, with its own length.\<close>

definition m68k_sweeps :: "u16 list list \<Rightarrow> mem_env \<Rightarrow> bool" where
  "m68k_sweeps ins g \<longleftrightarrow> m68k_code ins g \<and>
     (\<forall>i < length ins. \<exists>ent. mpd_decode g (addr_of ins i) = Inr (ent, length (ins ! i)) \<and>
        mi_id ent \<noteq> MI_ILLEGAL)"

lemma mpd_reach_closed:
  assumes "mpd_reach g a b" "P a"
    and "\<And>a ent len. P a \<Longrightarrow> a < MPD_REGION_BYTES \<Longrightarrow> mpd_decode g (of_nat a) = Inr (ent, len) \<Longrightarrow> P (a + len * 2)"
  shows "P b"
  using assms by (induction rule: mpd_reach.induct) auto

definition sweep_stop :: "u16 list list \<Rightarrow> nat \<Rightarrow> bool" where
  "sweep_stop ins a \<longleftrightarrow> even a \<and> (a < 0x1000 \<or> (\<exists>i < length ins. a = 0x1000 + 2 * word_of ins i) \<or>
     0x1000 + 2 * length (concat ins) \<le> a)"

lemma addr_of_nat:
  assumes "m68k_code ins g"
  shows "addr_of ins i = of_nat (0x1000 + 2 * word_of ins i)" "unat (addr_of ins i) = 0x1000 + 2 * word_of ins i"
    "aligned2 (addr_of ins i)" "unat (addr_of ins i) < MPD_REGION_BYTES"
proof -
  have "word_of ins i < 0x9000"
    using assms word_of_le [of ins i] by (simp add: m68k_code_def)
  from code_word_addr [OF this] this
  show "unat (addr_of ins i) = 0x1000 + 2 * word_of ins i" "aligned2 (addr_of ins i)"
      "unat (addr_of ins i) < MPD_REGION_BYTES"
    by (simp_all add: addr_of_def mpd_region)
  show "addr_of ins i = of_nat (0x1000 + 2 * word_of ins i)"
    by (simp add: addr_of_def layout)
qed

lemma sweep_stop_step:
  assumes "m68k_sweeps ins g" "sweep_stop ins a" "a < MPD_REGION_BYTES"
  shows "\<exists>ent len. mpd_decode g (of_nat a) = Inr (ent, len) \<and> sweep_stop ins (a + len * 2) \<and>
    a + len * 2 \<le> MPD_REGION_BYTES"
proof -
  have code: "m68k_code ins g" using assms(1) by (simp add: m68k_sweeps_def)
  have word_end: "word_of ins (length ins) = length (concat ins)" "word_of ins 0 = 0"
    by (simp_all add: word_of_def)
  have even: "even a" using assms(2) by (simp add: sweep_stop_def)
  have a: "unat (of_nat a :: u32) = a" 
    unfolding unat_of_nat using assms(3) by (simp add: mpd_region)
  consider (zero) "a < 0x1000 \<or> 0x1000 + 2 * length (concat ins) \<le> a"
    | (start) i where "i < length ins" "a = 0x1000 + 2 * word_of ins i"
    using assms(2) by (auto simp: sweep_stop_def)
  then show ?thesis
  proof cases
    case zero
    have "mpd_decode g (of_nat a) = Inr (m68k_blank 0, 1)"
      using zero even a assms(3) by (intro zero_decode [OF code]) (auto simp: aligned2_dvd_nat)
    moreover have "a + 2 \<le> MPD_REGION_BYTES"
      using even assms(3) by (auto simp: mpd_region elim!: evenE)
    moreover have "sweep_stop ins (a + 2)"
    proof (cases "a + 2 = 0x1000")
      case True
      then show ?thesis
        using word_end even by (cases "ins = []") (auto simp: sweep_stop_def intro!: exI [of _ 0])
    next
      case False
      then show ?thesis
        using zero even by (auto simp: sweep_stop_def elim!: evenE)
    qed
    ultimately show ?thesis by auto
  next
    case start
    have "of_nat a = addr_of ins i"
      unfolding start(2) by (rule addr_of_nat(1) [OF code, symmetric])
    then obtain ent where "mpd_decode g (of_nat a) = Inr (ent, length (ins ! i))"
      using assms(1) start(1) by (auto simp: m68k_sweeps_def)
    moreover have nxt: "a + length (ins ! i) * 2 = 0x1000 + 2 * word_of ins (Suc i)"
      using start by (simp add: word_of_Suc)
    moreover have "0x1000 + 2 * word_of ins (Suc i) \<le> MPD_REGION_BYTES"
      using word_of_le [of ins "Suc i"] code by (simp add: m68k_code_def mpd_region)
    moreover have "sweep_stop ins (0x1000 + 2 * word_of ins (Suc i))"
    proof (cases "Suc i = length ins")
      case True
      then show ?thesis using word_end by (simp add: sweep_stop_def)
    next
      case False
      then have "Suc i < length ins" using start(1) by simp
      then show ?thesis by (auto simp: sweep_stop_def)
    qed
    ultimately show ?thesis by auto
  qed
qed

lemma sweep_stops:
  assumes "m68k_sweeps ins g" "mpd_reach g 0 a"
  shows "sweep_stop ins a"
  using assms(2)
proof (rule mpd_reach_closed)
  show "sweep_stop ins 0" by (simp add: sweep_stop_def)
  fix a ent len assume "sweep_stop ins a" "a < MPD_REGION_BYTES" "mpd_decode g (of_nat a) = Inr (ent, len)"
  with sweep_stop_step [OF assms(1)] show "sweep_stop ins (a + len * 2)" by fastforce
qed

lemma sweeps_fits: "m68k_sweeps ins g \<Longrightarrow> mpd_fits g 0"
  using sweep_stops sweep_stop_step by (fastforce simp: mpd_fits_def)

lemma sweeps_reach:
  assumes "m68k_sweeps ins g" "i \<le> length ins"
  shows "mpd_reach g 0 (unat (addr_of ins i))"
proof -
  have code: "m68k_code ins g" using assms(1) by (simp add: m68k_sweeps_def)
  have low: "mpd_reach g 0 (2 * k)" if "k \<le> 0x800" for k
    using that
  proof (induction k)
    case (Suc k)
    have "mpd_decode g (of_nat (2 * k)) = Inr (m68k_blank 0, 1)"
      using Suc.prems by (intro zero_decode [OF code]) (auto simp: aligned2_dvd_nat unat_word_ariths unat_of_nat)
    from mpd_reach_next [OF _ _ this] Suc show ?case by (simp add: mpd_region)
  qed (simp add: mpd_reach.here)
  show ?thesis
    using assms(2)
  proof (induction i)
    case 0
    with low [of "0x800"] show ?case
      by (simp add: addr_of_nat(2) [OF code]) (simp add: word_of_def)
  next
    case (Suc i)
    then obtain ent where "mpd_decode g (addr_of ins i) = Inr (ent, length (ins ! i))"
      using assms(1) Suc_le_lessD [OF Suc.prems] by (auto simp: m68k_sweeps_def)
    then have "mpd_decode g (of_nat (unat (addr_of ins i))) = Inr (ent, length (ins ! i))" by simp
    from mpd_reach_next [OF _ _ this] Suc addr_of_nat(4) [OF code]
    have "mpd_reach g 0 (unat (addr_of ins i) + length (ins ! i) * 2)" by simp
    then show ?case
      using Suc.prems by (simp add: addr_of_nat(2) [OF code] word_of_Suc algebra_simps)
  qed
qed

section \<open>A state inside a kernel\<close>

lemma code_same_reads:
  assumes "bench_env g0" "code_same g0 g"
  shows "unat a + 2 \<le> 0x100000 \<Longrightarrow> memory_read_uint16 g a = memory_read_uint16 g0 a"
    "unat a + 4 \<le> 0x100000 \<Longrightarrow> memory_read_uint32 g a = memory_read_uint32 g0 a"
proof -
  have wf: "wf_env g0" "wf_env g" "bench_env g"
    using assms by (auto simp: code_same_def bench_env_def)
  have low: "ram_at g (a + k) = ram_at g0 (a + k)" if "unat a + unat k < 0x100000" for k
  proof -
    have "unat (a + k) = unat a + unat k"
      using that by (simp add: unat_word_ariths)
    with that assms(2) show ?thesis by (simp add: code_same_def)
  qed
  have mask: "masked g a = a" "masked g0 a = a" if "unat a < 0x100000"
    using that assms(1) wf(3) by (simp_all add: bench_masked layout)
  show "memory_read_uint16 g a = memory_read_uint16 g0 a" if "unat a + 2 \<le> 0x100000"
    using that low [of 0] low [of 1] mask by (simp add: memory_read_uint16_flat wf be16_def)
  show "memory_read_uint32 g a = memory_read_uint32 g0 a" if "unat a + 4 \<le> 0x100000"
    using that low [of 0] low [of 1] low [of 2] low [of 3] mask
    by (simp add: memory_read_uint32_flat wf be32_def)
qed

lemma mpd_decode_cong:
  assumes "memory_read_uint16 g a = memory_read_uint16 g0 a"
    "memory_read_uint16 g (a + 2) = memory_read_uint16 g0 (a + 2)"
    "memory_read_uint32 g (a + 2) = memory_read_uint32 g0 (a + 2)"
  shows "mpd_decode g a = mpd_decode g0 a"
  unfolding mpd_decode_def mpd_move_def mpd_misc_def mpd_addq_def mpd_bcc_def ext_d16_def
  unfolding assms ..

definition m68k_at :: "u16 list list \<Rightarrow> mem_env \<Rightarrow> nat \<Rightarrow> m68k_local \<Rightarrow> bool" where
  "m68k_at ins g0 i = (\<lambda>(m, g, pc). i < length ins \<and> pc = addr_of ins i \<and> length (regs m) = 16 \<and>
     m68k_sweeps ins g0 \<and> code_same g0 g)"

lemma at_run_ok:
  assumes "m68k_at ins g0 i (m, g, pc)"
  shows "mpd_run_ok g0 (m, g, pc)"
proof -
  have at: "i < length ins" "pc = addr_of ins i" "m68k_sweeps ins g0" "code_same g0 g"
    using assms by (simp_all add: m68k_at_def)
  then have code: "m68k_code ins g0" by (simp add: m68k_sweeps_def)
  then have pc: "unat pc < MPD_REGION_BYTES" "bench_env g0"
    using addr_of_nat(4) at(2) by (auto simp: m68k_code_def)
  then have "mpd_decode g pc = mpd_decode g0 pc"
    using code_same_reads [OF pc(2) at(4)]
    by (intro mpd_decode_cong) (simp_all add: unat_word_ariths mpd_region)
  with pc at sweeps_reach [OF at(3), of i] show ?thesis
    by (auto simp: mpd_run_ok_def m68k_sweeps_def)
qed

lemma at_fetch:
  assumes "m68k_at ins g0 i (m, g, pc)" "j < length (ins ! i)"
  shows "memory_read_uint16 g (pc + 2 * of_nat j) = Inr (ins ! i ! j)"
proof -
  have at: "i < length ins" "pc = addr_of ins i" "m68k_sweeps ins g0" "code_same g0 g"
    using assms by (simp_all add: m68k_at_def)
  then have code: "m68k_code ins g0" by (simp add: m68k_sweeps_def)
  have "word_of ins i + j < length (concat ins)"
    using concat_nth_instr(2) [OF at(1) assms(2)] .
  then have "j < 0x8000" "unat pc < MPD_REGION_BYTES"
    using code addr_of_nat(4) [OF code] at(2) by (auto simp: m68k_code_def)
  then have "unat (pc + 2 * of_nat j) + 2 \<le> 0x100000"
    by (simp add: unat_word_ariths unat_of_nat mpd_region)
  with code_same_reads(1) [OF _ at(4)] code_fetch [OF code at(1) assms(2)] code show ?thesis
    by (simp add: at(2) m68k_code_def)
qed

lemma at_fetch32:
  assumes "m68k_at ins g0 i (m, g, pc)" "length (ins ! i) = 3" "in_page 4 (pc + 2)"
  shows "memory_read_uint32 g (pc + 2) = Inr (imm32 (ins ! i ! 1) (ins ! i ! 2))"
proof -
  have at: "i < length ins" "pc = addr_of ins i" "m68k_sweeps ins g0" "code_same g0 g"
    using assms by (simp_all add: m68k_at_def)
  then have code: "m68k_code ins g0" "bench_env g0" by (simp_all add: m68k_sweeps_def m68k_code_def)
  have "unat (pc + 2) + 4 \<le> 0x100000"
    using addr_of_nat(4) [OF code(1), of i] by (simp add: at(2) unat_word_ariths mpd_region)
  with code_same_reads(2) [OF code(2) at(4)] code_fetch32 [OF code(1) at(1) assms(2)] assms(3)
  show ?thesis by (simp add: at(2))
qed

lemma at_step:
  assumes "m68k_at ins g0 i (m, g, pc)" "ins ! i \<noteq> []"
    and "m68k_dispatch (ucast (ins ! i ! 0)) (m, g, pc + 2) = Inr (m', g', addr_of ins j)"
    and "length (regs m') = 16" "g' = g \<or> code_same g g'" "j < length ins"
  shows "m68k_step (m, g, pc) = Inr (m', g', addr_of ins j)"
    and "m68k_at ins g0 j (m', g', addr_of ins j)"
proof -
  show "m68k_step (m, g, pc) = Inr (m', g', addr_of ins j)"
    using assms(2,3) at_fetch [OF assms(1), of 0] by (simp add: m68k_step_def f16_def)
  show "m68k_at ins g0 j (m', g', addr_of ins j)"
    using assms by (auto simp: m68k_at_def code_same_def)
qed

section \<open>Kernel 1: ALU loop\<close>

definition alu_ins :: "u16 list list" where
  "alu_ins =
    [[0x243C, 0x1234, 0x5678], [0x303C, 0x0FFF], [0xD282], [0x2601], [0xEE8B], [0xB781],
     [0x5682], [0xB282], [0x6E02], [0x9282], [0xE38C], [0x51C8, 0xFFEC], [0x60E4]]"

lemma disp_numerals: "(4294967276 :: u16) = 0xFFEC" "(4294967282 :: u16) = 0xFFF2" "(4294967262 :: u16) = 0xFFDE" "(1048576 :: u16) = 0" "(305419896 :: u16) = 0x5678" "(1572864 :: u16) = 0"
  by simp_all

lemma emit_alu_ins: "m68k_kernel_alu (g, CODE_BASE) = fold ew (concat alu_ins) (g, CODE_BASE)"
  by (simp add: m68k_kernel_alu_def alu_ins_def m68k_encoders ew_imm32_def ew32_def ew_def Let_def
    layout CC_GT_def disp_numerals)

definition mem_ins :: "u16 list list" where
  "mem_ins =
    [[0x207C, 0x0010, 0], [0x227C, 0x0018, 0], [0x303C, 0x0FFF], [0x2218], [0xD481], [0x22C2],
     [0x1628, 2], [0xB782], [0x51C8, 0xFFF2], [0x6000, 0xFFDE]]"

lemma emit_mem_ins: "m68k_kernel_mem (g, CODE_BASE) = fold ew (concat mem_ins) (g, CODE_BASE)"
  by (simp add: m68k_kernel_mem_def mem_ins_def m68k_encoders ew_imm32_def ew_disp_def ew32_def ew_def Let_def
    layout disp_numerals)

text \<open>The addresses of the instructions.\<close>

lemma alu_addr:
  assumes "i < 13"
  shows "word_of alu_ins i = [0, 3, 5, 6, 7, 8, 9, 10, 11, 12, 13, 14, 16] ! i"
    "addr_of alu_ins i = 0x1000 + 2 * of_nat ([0, 3, 5, 6, 7, 8, 9, 10, 11, 12, 13, 14, 16] ! i)"
proof -
  have "i \<in> {0, 1, 2, 3, 4, 5, 6, 7, 8, 9, 10, 11, 12}" using assms unfolding insert_iff empty_iff by presburger
  then show "word_of alu_ins i = [0, 3, 5, 6, 7, 8, 9, 10, 11, 12, 13, 14, 16] ! i"
    by (elim insertE; simp add: word_of_def alu_ins_def)
  then show "addr_of alu_ins i = 0x1000 + 2 * of_nat ([0, 3, 5, 6, 7, 8, 9, 10, 11, 12, 13, 14, 16] ! i)"
    by (simp add: addr_of_def layout)
qed

lemmas mpd_decode_simps = mpd_decode_def Let_def mpd_rr_def mpd_addq_def mpd_misc_def mpd_bcc_def
  ext_d16_def bcc_id_def mpd_move_def sext8_def

lemma alu_decodes:
  assumes "m68k_code alu_ins g" shows "m68k_sweeps alu_ins g"
proof -
  note fetch = code_fetch [OF assms] and fetch32 = code_fetch32 [OF assms]
  have *: "\<exists>ent. mpd_decode g (addr_of alu_ins i) = Inr (ent, length (alu_ins ! i)) \<and> mi_id ent \<noteq> MI_ILLEGAL"
    if "i < 13" for i
  proof -
    have "i \<in> {0, 1, 2, 3, 4, 5, 6, 7, 8, 9, 10, 11, 12}" using that unfolding insert_iff empty_iff by presburger
    then show ?thesis using fetch [of i 0] fetch [of i 1] fetch32 [of i]
      by (elim insertE; simp add: alu_ins_def mpd_decode_simps alu_addr [unfolded alu_ins_def] in_page_def page_geometry)
  qed
  show ?thesis using * assms by (simp add: m68k_sweeps_def) (simp add: alu_ins_def)
qed

lemma regs_len [simp]:
  "length (regs (set_reg m r v)) = length (regs m)"
  "regs (cc_nz_l m v) = regs m" "regs (cc_nz_w m w) = regs m" "regs (cc_nz_b m b) = regs m"
  "regs (cc_add_l m s d v) = regs m" "regs (cc_sub_l m s d v) = regs m" "regs (cc_cmp_l m s d v) = regs m"
  by (simp_all add: set_reg_def cc_nz_l_def cc_nz_w_def cc_nz_b_def cc_add_l_def cc_sub_l_def
    cc_cmp_l_def Let_def)

lemmas switch_groups = m68k_dispatch_def sw_move_def move_src_def move_dst_def sw_misc_def
  sw_addq_def sw_dbcc_def sw_bcc_def sw_or_def sw_sub_def sw_cmp_eor_def sw_and_def sw_add_def
  sw_shift_def sw_cmpi_def sw_moveq_def read_sized_def write_sized_def cc_nz_sized_def f16_sext_def
  f16_def f32_def Let_def sext8_def

lemma alu_dispatch:
  assumes "m68k_at alu_ins g0 i (m, g, pc)"
  shows "\<exists>j m'. m68k_dispatch (ucast (alu_ins ! i ! 0)) (m, g, pc + 2) = Inr (m', g, addr_of alu_ins j)
    \<and> length (regs m') = 16 \<and> j < 13"
proof -
  note fetch = at_fetch [OF assms, of 1] and fetch32 = at_fetch32 [OF assms]
  have at: "pc = addr_of alu_ins i" "length (regs m) = 16" and i: "i < 13"
    using assms by (simp_all add: m68k_at_def alu_ins_def)
  have j: "m68k_dispatch (ucast (alu_ins ! i ! 0)) (m, g, pc + 2) = Inr (m', g, addr_of alu_ins j)
      \<Longrightarrow> length (regs m') = 16 \<Longrightarrow> j < 13 \<Longrightarrow> ?thesis" for j m' by blast
  have "i \<in> {0, 1, 2, 3, 4, 5, 6, 7, 8, 9, 10, 11, 12}" using i unfolding insert_iff empty_iff by presburger
  then consider (straight) "i \<in> {0, 1, 2, 3, 4, 5, 6, 7, 9, 10}" | (bgt) "i = 8" | (dbra) "i = 11" | (bra) "i = 12"
    by auto
  then show ?thesis
  proof cases
    case straight
    then show ?thesis using fetch fetch32 at
      by (elim insertE; intro exI [of _ "Suc i"]; 
         simp add: alu_ins_def alu_addr [unfolded alu_ins_def] in_page_def page_geometry switch_groups)
  next
    case bgt
    show ?thesis using at bgt
      by (cases "m68k_cond m 14") (auto simp: alu_ins_def alu_addr [unfolded alu_ins_def] switch_groups
          intro: exI [of _ 9] exI [of _ 10])
  next
    case dbra
    show ?thesis using at dbra fetch
      by (cases "(ucast (get_reg m 0 - 1) :: u16) = 0xFFFF")
        (auto simp: alu_ins_def alu_addr [unfolded alu_ins_def] switch_groups intro: exI [of _ 2] exI [of _ 12])
  next
    case bra
    show ?thesis using at bra by (intro exI [of _ 1])
      (simp add: alu_ins_def alu_addr [unfolded alu_ins_def] switch_groups)
  qed
qed

text \<open>A run of the kernel: any number of instructions may follow.\<close>

definition m68k_alu_state :: "mem_env \<Rightarrow> nat \<Rightarrow> m68k_local \<Rightarrow> bool" where
  "m68k_alu_state g0 n s \<longleftrightarrow> (\<exists>i. m68k_at alu_ins g0 i s)"

interpretation m68k_alu: sprint_progress m68k_step "m68k_alu_state g0" "mpd_run_ok g0" for g0
proof unfold_locales
  fix n and s :: m68k_local
  assume "m68k_alu_state g0 (Suc n) s"
  then obtain i m g pc where s: "s = (m, g, pc)" and at: "m68k_at alu_ins g0 i (m, g, pc)"
    by (cases s) (auto simp: m68k_alu_state_def)
  from at have "alu_ins ! i \<noteq> []"
    by (cases "i < 13") (auto simp: m68k_at_def alu_ins_def nth_Cons split: nat.splits)
  with alu_dispatch [OF at] at_step [OF at] show "\<exists>s'. m68k_step s = Inr s' \<and> m68k_alu_state g0 n s'"
    by (fastforce simp: s m68k_alu_state_def alu_ins_def)
  show "mpd_run_ok g0 s"
    using at_run_ok [OF at] by (simp add: s)
qed

section \<open>Kernel 2: memory streaming\<close>

lemma get_reg_simps [simp]:
  "get_reg (cc_nz_l m v) r = get_reg m r" "get_reg (cc_nz_w m w) r = get_reg m r"
  "get_reg (cc_nz_b m b) r = get_reg m r" "get_reg (cc_add_l m s d v) r = get_reg m r"
  "get_reg (cc_sub_l m s d v) r = get_reg m r" "get_reg (cc_cmp_l m s d v) r = get_reg m r"
  by (simp_all add: get_reg_def)

lemma get_set_reg:
  assumes "length (regs m) = 16" "unat r < 16"
  shows "get_reg (set_reg m r v) r' = (if r' = r then v else get_reg m r')"
  using assms by (auto simp: get_reg_def set_reg_def nth_list_update word_unat_eq_iff)

lemma mem_addr:
  assumes "i < 10"
  shows "word_of mem_ins i = [0, 3, 6, 8, 9, 10, 11, 13, 14, 16] ! i"
    "addr_of mem_ins i = 0x1000 + 2 * of_nat ([0, 3, 6, 8, 9, 10, 11, 13, 14, 16] ! i)"
proof -
  have "i \<in> {0, 1, 2, 3, 4, 5, 6, 7, 8, 9}" using assms unfolding insert_iff empty_iff by presburger
  then show "word_of mem_ins i = [0, 3, 6, 8, 9, 10, 11, 13, 14, 16] ! i"
    by (elim insertE; simp add: word_of_def mem_ins_def)
  then show "addr_of mem_ins i = 0x1000 + 2 * of_nat ([0, 3, 6, 8, 9, 10, 11, 13, 14, 16] ! i)"
    by (simp add: addr_of_def layout)
qed

lemma mem_decodes:
  assumes "m68k_code mem_ins g" shows "m68k_sweeps mem_ins g"
proof -
  note fetch = code_fetch [OF assms] and fetch32 = code_fetch32 [OF assms]
  have *: "\<exists>ent. mpd_decode g (addr_of mem_ins i) = Inr (ent, length (mem_ins ! i)) \<and> mi_id ent \<noteq> MI_ILLEGAL"
    if "i < 10" for i
  proof -
    have "i \<in> {0, 1, 2, 3, 4, 5, 6, 7, 8, 9}" using that unfolding insert_iff empty_iff by presburger
    then show ?thesis using fetch [of i 0] fetch [of i 1] fetch32 [of i]
      by (elim insertE; simp add: mem_ins_def mpd_decode_simps mem_addr [unfolded mem_ins_def] in_page_def page_geometry)
  qed
  show ?thesis using * assms by (simp add: m68k_sweeps_def) (simp add: mem_ins_def)
qed

text \<open>Pass \<open>k\<close> of the inner loop: the counter in D0 and the two pointers.\<close>

definition stream_inv :: "nat \<Rightarrow> m68k \<Rightarrow> bool" where
  "stream_inv i m \<longleftrightarrow> (1 \<le> i \<and> i \<le> 2 \<longrightarrow> get_reg m 8 = DATA_BASE) \<and> (i = 2 \<longrightarrow> get_reg m 9 = STORE_BASE) \<and>
     (3 \<le> i \<and> i \<le> 8 \<longrightarrow> (\<exists>k \<le> 0xFFF. unat (ucast (get_reg m 0) :: u16) = 0xFFF - k \<and>
        get_reg m 8 = DATA_BASE + 4 * of_nat (if i = 3 then k else k + 1) \<and>
        get_reg m 9 = STORE_BASE + 4 * of_nat (if i \<le> 5 then k else k + 1)))"

lemma low16: "(ucast ((x AND 0xFFFF0000) OR ucast (w :: u16) :: u32) :: u16) = w"
proof -
  have *: "(0xFFFF0000 :: u32) = push_bit 16 (mask 16)"
    by (simp add: mask_eq_exp_minus_1 push_bit_eq_mult)
  show ?thesis
    unfolding * by (rule bit_word_eqI) (auto simp: bit_simps)
qed

lemma stream_addr:
  assumes "k \<le> 0x1000"
  shows "unat (DATA_BASE + 4 * of_nat k) = 0x100000 + 4 * k" "unat (STORE_BASE + 4 * of_nat k) = 0x180000 + 4 * k"
    "aligned4 (DATA_BASE + 4 * of_nat k)" "aligned4 (STORE_BASE + 4 * of_nat k)"
proof -
  show "unat (DATA_BASE + 4 * of_nat k) = 0x100000 + 4 * k" "unat (STORE_BASE + 4 * of_nat k) = 0x180000 + 4 * k"
    using assms by (simp_all add: layout unat_word_ariths unat_of_nat)
  then show "aligned4 (DATA_BASE + 4 * of_nat k)" "aligned4 (STORE_BASE + 4 * of_nat k)"
    by (simp_all add: aligned4_dvd_nat)
qed

lemma mem_dispatch:
  assumes "m68k_at mem_ins g0 i (m, g, pc)" "stream_inv i m"
  shows "\<exists>j m' g'. m68k_dispatch (ucast (mem_ins ! i ! 0)) (m, g, pc + 2) = Inr (m', g', addr_of mem_ins j)
    \<and> length (regs m') = 16 \<and> j < 10 \<and> (g' = g \<or> code_same g g') \<and> stream_inv j m'"
proof -
  note fetch = at_fetch [OF assms(1), of 1] and fetch32 = at_fetch32 [OF assms(1)]
  have at: "pc = addr_of mem_ins i" "length (regs m) = 16" and i: "i < 10" and g: "bench_env g"
    using assms(1) by (simp_all add: m68k_at_def mem_ins_def code_same_def)
  have "i \<in> {0, 1, 2, 3, 4, 5, 6, 7, 8, 9}" using i unfolding insert_iff empty_iff by presburger
  then consider (init) "i \<in> {0, 1}" | (cnt) "i = 2" | (load) "i = 3" | (store) "i = 5" | (load8) "i = 6" 
     | (alu) "i \<in> {4, 7}" | (dbra) "i = 8" | (bra) "i = 9"
    by auto
  then show ?thesis
  proof cases
    case init
    then show ?thesis using fetch fetch32 at assms(2)
      by (elim insertE; intro exI [of _ "Suc i"]; 
         simp add: mem_ins_def mem_addr [unfolded mem_ins_def] in_page_def page_geometry switch_groups 
           stream_inv_def get_set_reg imm32_def layout)
  next
    case bra
    then show ?thesis using at fetch by (intro exI [of _ 0])
      (simp add: mem_ins_def mem_addr [unfolded mem_ins_def] switch_groups stream_inv_def)
  next
    case cnt
    then show ?thesis using fetch at assms(2)
      by (intro exI [of _ 3]) (simp add: mem_ins_def mem_addr [unfolded mem_ins_def] switch_groups
           stream_inv_def get_set_reg low16 [where w = "0xFFF", simplified] exI [of _ "0 :: nat"])
  next
    case load
    then obtain k where k: "k \<le> 0xFFF" "unat (ucast (get_reg m 0) :: u16) = 0xFFF - k"
       "get_reg m 8 = DATA_BASE + 4 * of_nat k" "get_reg m 9 = STORE_BASE + 4 * of_nat k"
      using assms(2) by (auto simp: stream_inv_def)
    obtain v where "memory_read_uint32 g (get_reg m 8) = Inr v"
      using bench_loads(1) [OF g, of "get_reg m 8"] stream_addr [of k] k(1) unfolding k(3) by (auto simp: layout)
    moreover have "get_reg m 8 + 4 = DATA_BASE + 4 * of_nat (k + 1)"
      unfolding k(3) by (simp add: algebra_simps)
    ultimately show ?thesis using load at k(1,2,4)
      by (intro exI [of _ 4]) (auto simp: mem_ins_def mem_addr [unfolded mem_ins_def] switch_groups
           stream_inv_def get_set_reg intro!: exI [of _ k])
  next
    case store
    then obtain k where k: "k \<le> 0xFFF" "unat (ucast (get_reg m 0) :: u16) = 0xFFF - k"
       "get_reg m 8 = DATA_BASE + 4 * of_nat (k + 1)" "get_reg m 9 = STORE_BASE + 4 * of_nat k"
      using assms(2) by (auto simp: stream_inv_def)
    obtain g' where g': "memory_write_uint32 g (get_reg m 9) (get_reg m 2) = Inr g'" "code_same g g'"
      using bench_stores(1) [OF g, of "get_reg m 9" "get_reg m 2"] stream_addr [of k] k(1)
      unfolding k(4) by (auto simp: layout)
    moreover have "get_reg m 9 + 4 = STORE_BASE + 4 * of_nat (k + 1)"
      unfolding k(4) by (simp add: algebra_simps)
    ultimately show ?thesis using store at k(1-3)
      by (intro exI [of _ 6]) (auto simp: mem_ins_def mem_addr [unfolded mem_ins_def] switch_groups
           stream_inv_def get_set_reg intro!: exI [of _ k])
  next
    case load8
    obtain v where "memory_read_uint8 g (get_reg m 8 + 2) = Inr v"
      using g by (auto simp: memory_read_uint8_flat bench_env_def)
    then show ?thesis using load8 at fetch assms(2)
      by (intro exI [of _ 7]) (simp add: mem_ins_def mem_addr [unfolded mem_ins_def] switch_groups
           stream_inv_def get_set_reg)
  next
    case alu
    then show ?thesis using fetch at assms(2)
      by (elim insertE; intro exI [of _ "Suc i"]; simp add: mem_ins_def mem_addr [unfolded mem_ins_def] switch_groups
           stream_inv_def get_set_reg)
  next
    case dbra
    then obtain k where k: "k \<le> 0xFFF" "unat (ucast (get_reg m 0) :: u16) = 0xFFF - k"
       "get_reg m 8 = DATA_BASE + 4 * of_nat (k + 1)" "get_reg m 9 = STORE_BASE + 4 * of_nat (k + 1)"
      using assms(2) by (auto simp: stream_inv_def)
    have w: "(ucast (get_reg m 0 - 1) :: u16) = ucast (get_reg m 0) - 1"
      by (simp add: word_uint_eq_iff uint_word_ariths unsigned_ucast_eq take_bit_eq_mod mod_simps mod_mod_cancel)
    show ?thesis
    proof (cases "k = 0xFFF")
      case True
      then have "(ucast (get_reg m 0) :: u16) = 0"
        using k(2) by (simp add: word_unat_eq_iff)
      then show ?thesis using dbra at fetch k True
        by (intro exI [of _ 9]) (simp add: mem_ins_def mem_addr [unfolded mem_ins_def] switch_groups
          stream_inv_def w)
    next
      case False
      then have "unat (ucast (get_reg m 0) - 1 :: u16) = 0xFFF - (k + 1)"
        using k(1,2) by (subst unat_sub) (auto simp: word_le_nat_alt)
      then have w': "unat (ucast (get_reg m 0 - 1) :: u16) = 0xFFF - (k + 1)"
        unfolding w .
      then have "(ucast (get_reg m 0 - 1) :: u16) \<noteq> 0xFFFF" by auto
      then show ?thesis using dbra at fetch k w' False
        by (intro exI [of _ 3]) (simp add: mem_ins_def mem_addr [unfolded mem_ins_def] switch_groups
          stream_inv_def get_set_reg low16 exI [of _ "k + 1"])
    qed
  qed
qed

definition m68k_mem_state :: "mem_env \<Rightarrow> nat \<Rightarrow> m68k_local \<Rightarrow> bool" where
  "m68k_mem_state g0 n s \<longleftrightarrow> (\<exists>i. m68k_at mem_ins g0 i s \<and> stream_inv i (fst s))"

interpretation m68k_mem: sprint_progress m68k_step "m68k_mem_state g0" "mpd_run_ok g0" for g0
proof unfold_locales
  fix n and s :: m68k_local
  assume "m68k_mem_state g0 (Suc n) s"
  then obtain i m g pc where s: "s = (m, g, pc)" and at: "m68k_at mem_ins g0 i (m, g, pc)" and inv: "stream_inv i m"
    by (cases s) (auto simp: m68k_mem_state_def)
  from at have "mem_ins ! i \<noteq> []"
    by (cases "i < 10") (auto simp: m68k_at_def mem_ins_def nth_Cons split: nat.splits)
  with mem_dispatch [OF at inv] at_step [OF at] show "\<exists>s'. m68k_step s = Inr s' \<and> m68k_mem_state g0 n s'"
    by (fastforce simp: s m68k_mem_state_def mem_ins_def)
  show "mpd_run_ok g0 s"
    using at_run_ok [OF at] by (simp add: s)
qed
end
