(* ===== verification/M68K_Opcodes.thy ===== *)
theory M68K_Opcodes
  imports M68K_Kernels
begin

text \<open>
  The instructions the generated kernel consists of, for any registers: what the switch does
  on them and what the predecoder makes of them.
\<close>

section \<open>Opcodes with two register fields\<close>

definition opw :: "u32 \<Rightarrow> u32 \<Rightarrow> u32 \<Rightarrow> u32" where
  "opw base d s = base OR push_bit 9 d OR s"

abbreviation r8 :: "u32 \<Rightarrow> bool" where "r8 r \<equiv> unat r < 8"

definition op_base :: "u32 \<Rightarrow> bool" where
  "op_base base \<longleftrightarrow> base AND 0xFFFF0E07 = 0"

lemma bit_E07: "bit (0xE07 :: u32) n \<longleftrightarrow> n < 3 \<or> 9 \<le> n \<and> n < 12"
proof -
  have "(0xE07 :: u32) = mask 3 OR push_bit 9 (mask 3)"
    by (simp add: mask_eq_exp_minus_1 push_bit_eq_mult)
  then show ?thesis by (simp only: bit_simps) auto
qed

lemma bit_high16: "bit (0xFFFF0000 :: u32) n \<longleftrightarrow> 16 \<le> n \<and> n < 32"
proof -
  have "(0xFFFF0000 :: u32) = push_bit 16 (mask 16)"
    by (simp add: mask_eq_exp_minus_1 push_bit_eq_mult)
  then show ?thesis by (simp only: bit_simps) auto
qed

lemma and_zero_bit: "(x :: u32) AND y = 0 \<Longrightarrow> bit y n \<Longrightarrow> \<not> bit x n"
  by (metis bit_and_iff bit_0_eq bot_apply bot_bool_def)

lemma op_base_bits:
  assumes "op_base base" and that: "n < 3 \<or> 9 \<le> n \<and> n < 12 \<or> 16 \<le> n"
  shows "\<not> bit base n"
proof (cases "n < 32")
  case True
  have "(0xFFFF0E07 :: u32) = 0xFFFF0000 OR 0xE07" by simp
  then have "bit (0xFFFF0E07 :: u32) n"
    using that True by (simp only: bit_or_iff bit_E07 bit_high16) auto
  with assms(1) show ?thesis unfolding op_base_def by (rule and_zero_bit)
qed (auto dest: bit_imp_le_length)

lemma opw_bit:
  assumes "r8 d" "r8 s"
  shows "bit (opw base d s) n \<longleftrightarrow> bit base n \<or> 9 \<le> n \<and> n < 32 \<and> bit d (n - 9) \<or> bit s n"
  by (simp add: opw_def bit_simps possible_bit_def)

lemma opw_and:
  assumes "r8 d" "r8 s" "m AND 0xE07 = 0"
  shows "opw base d s AND m = base AND m"
proof (rule bit_word_eqI)
  fix n assume "n < LENGTH(32)"
  have "bit m n \<Longrightarrow> \<not> (n < 3 \<or> 9 \<le> n \<and> n < 12)"
    using and_zero_bit [of "0xE07" m n] assms(3) bit_E07 by (auto simp: and.commute simp del: bit_numeral_word_iff)
  then show "bit (opw base d s AND m) n = bit (base AND m) n"
    using bit_low [of d 3 "n - 9"] bit_low [of s 3 n] assms(1,2)
    by (auto simp: bit_and_iff opw_bit)
qed

lemma opw_fields:
  assumes "op_base base" "r8 d" "r8 s"
  shows "drop_bit 12 (opw base d s) = drop_bit 12 base" "drop_bit 9 (opw base d s) AND 7 = d"
    "opw base d s AND 7 = s" "ucast (ucast (opw base d s) :: u16) = opw base d s"
proof -
  note base = op_base_bits [OF assms(1)]
  note low = bit_low [of d 3] bit_low [of s 3]
  have m7: "bit (7 :: u32) n \<longleftrightarrow> n < 3" for n
    using bit_mask_iff [of 3 n, where 'a = u32] by (auto simp: mask_eq_exp_minus_1 simp del: bit_numeral_word_iff)
  have d: "\<not> bit d n" and s: "\<not> bit s n" if "3 \<le> n" for n
    using bit_high [of d 3 n] bit_high [of s 3 n] assms(2,3) that by simp_all
  show "drop_bit 12 (opw base d s) = drop_bit 12 base"
    by (intro bit_word_eqI) (simp add: bit_drop_bit_eq opw_bit [OF assms(2,3)] d s)
  show "opw base d s AND 7 = s"
  proof (rule bit_word_eqI)
    fix n show "bit (opw base d s AND 7) n = bit s n"
      unfolding bit_and_iff opw_bit [OF assms(2,3)] m7 by (cases "n < 3") (simp_all add: base s)
  qed
  show "drop_bit 9 (opw base d s) AND 7 = d"
  proof (rule bit_word_eqI)
    fix n assume "n < LENGTH(32)"
    show "bit (drop_bit 9 (opw base d s) AND 7) n = bit d n"
      unfolding bit_and_iff bit_drop_bit_eq comp_def opw_bit [OF assms(2,3)] m7 
      by (cases "n < 3") (simp_all add: base s d)
  qed
  show "ucast (ucast (opw base d s) :: u16) = opw base d s"
  proof (rule bit_word_eqI)
    fix n assume "n < LENGTH(32)"
    then show "bit (ucast (ucast (opw base d s) :: u16) :: u32) n = bit (opw base d s) n"
      by (cases "n < 16") (simp_all add: bit_ucast_iff opw_bit [OF assms(2,3)] base s d)
  qed
qed

lemma opw_shift:
  assumes "r8 d" "r8 s" "push_bit k m AND 0xE07 = 0"
  shows "drop_bit k (opw base d s) AND m = drop_bit k base AND m"
proof -
  have *: "drop_bit k x AND m = drop_bit k (x AND push_bit k m)" for x :: u32
    by (rule bit_word_eqI) (auto simp: bit_simps dest: bit_imp_le_length)
  show ?thesis unfolding * opw_and [OF assms] ..
qed

text \<open>The one-word register instructions of the stream.\<close>

definition rr_bases :: "u32 set" where
  "rr_bases = {0xD080, 0x9080, 0xB180, 0xC080, 0x8080, 0x2000, 0xB080, 0x5080, 0x5180, 0xE088, 0xE188}"

lemma rr_op_base: "base \<in> rr_bases \<Longrightarrow> op_base base"
  by (auto simp: rr_bases_def op_base_def)

lemmas opw_simps = opw_and opw_shift opw_fields op_base_def

lemma rr_decode:
  assumes "base \<in> rr_bases" "r8 d" "r8 s" "memory_read_uint16 g a = Inr (ucast (opw base d s))"
  shows "\<exists>ent. mpd_decode g a = Inr (ent, 1) \<and> mi_id ent \<noteq> MI_ILLEGAL"
  using assms unfolding rr_bases_def
  by (elim insertE) (simp_all add: mpd_decode_simps opw_simps)


text \<open>Address registers are left alone.\<close>

definition same_a :: "m68k \<Rightarrow> m68k \<Rightarrow> bool" where
  "same_a m m' \<longleftrightarrow> length (regs m') = length (regs m) \<and> drop 8 (regs m') = drop 8 (regs m)"

lemma same_a_simps [simp]:
  "same_a m m" "r8 r \<Longrightarrow> same_a m (set_reg m r v)"
  "same_a m (cc_nz_l m' v) = same_a m m'" "same_a m (cc_nz_w m' w) = same_a m m'"
  "same_a m (cc_nz_b m' b) = same_a m m'" "same_a m (cc_add_l m' x y v) = same_a m m'"
  "same_a m (cc_sub_l m' x y v) = same_a m m'" "same_a m (cc_cmp_l m' x y v) = same_a m m'"
  "same_a m (m'\<lparr>m68k_n := v\<rparr>) = same_a m m'" "same_a m (m'\<lparr>m68k_z := v\<rparr>) = same_a m m'"
  "same_a m (m'\<lparr>m68k_v := v\<rparr>) = same_a m m'" "same_a m (m'\<lparr>m68k_cf := v\<rparr>) = same_a m m'"
  "same_a m (m'\<lparr>m68k_x := v\<rparr>) = same_a m m'"
  by (simp_all add: same_a_def) (simp add: set_reg_def)

lemma rr_dispatch:
  assumes "base \<in> rr_bases" "r8 d" "r8 s"
  shows "\<exists>m'. m68k_dispatch (opw base d s) (m, g, pc) = Inr (m', g, pc) \<and> same_a m m'"
  using assms unfolding rr_bases_def
  by (elim insertE) (simp_all add: switch_groups opw_simps)

lemma moveq_word:
  assumes "drop_bit 12 op = 7"
  shows "\<exists>m'. m68k_dispatch op (m, g, pc) = Inr (m', g, pc) \<and> same_a m m'"
    "memory_read_uint16 g a = Inr w \<Longrightarrow> ucast w = op \<Longrightarrow> \<exists>ent. mpd_decode g a = Inr (ent, 1) \<and> mi_id ent \<noteq> MI_ILLEGAL"
  using assms by (simp_all add: switch_groups mpd_decode_simps fields)

lemma eight_cases: "r8 r \<Longrightarrow> r = 0 \<or> r = 1 \<or> r = 2 \<or> r = 3 \<or> r = 4 \<or> r = 5 \<or> r = 6 \<or> r = 7"
proof -
  assume "r8 r"
  then have "unat r \<in> {0, 1, 2, 3, 4, 5, 6, 7}" by auto
  then show ?thesis by (auto simp: word_unat_eq_iff)
qed

lemma tst_word:
  assumes "r8 s"
  shows "\<exists>m'. m68k_dispatch (0x4A80 OR s) (m, g, pc) = Inr (m', g, pc) \<and> same_a m m'"
    "memory_read_uint16 g a = Inr (ucast (0x4A80 OR s)) \<Longrightarrow>
      \<exists>ent. mpd_decode g a = Inr (ent, 1) \<and> mi_id ent \<noteq> MI_ILLEGAL"
  using eight_cases [OF assms]
  by (elim disjE; simp add: switch_groups mpd_decode_simps)+

lemma cmpi_word:
  assumes "r8 s"
  shows "memory_read_uint32 g pc = Inr imm \<Longrightarrow>
      \<exists>m'. m68k_dispatch (0x0C80 OR s) (m, g, pc) = Inr (m', g, pc + 4) \<and> same_a m m'"
    "memory_read_uint16 g a = Inr (ucast (0x0C80 OR s)) \<Longrightarrow> memory_read_uint32 g (a + 2) = Inr imm \<Longrightarrow>
      \<exists>ent. mpd_decode g a = Inr (ent, 3) \<and> mi_id ent \<noteq> MI_ILLEGAL"
  using eight_cases [OF assms]
  by (elim disjE; simp add: switch_groups mpd_decode_simps)+

lemma imm_word:
  assumes "r8 d"
  shows "memory_read_uint32 g pc = Inr imm \<Longrightarrow>
      \<exists>m'. m68k_dispatch (opw 0x2038 d 4) (m, g, pc) = Inr (m', g, pc + 4) \<and> same_a m m'"
    "memory_read_uint16 g a = Inr (ucast (opw 0x2038 d 4)) \<Longrightarrow> memory_read_uint32 g (a + 2) = Inr imm \<Longrightarrow>
      \<exists>ent. mpd_decode g a = Inr (ent, 3) \<and> mi_id ent \<noteq> MI_ILLEGAL"
  using assms by (simp_all add: switch_groups mpd_decode_simps opw_simps)


text \<open>The displacements of the stream: a multiple of 4 in the 2 KB window.\<close>

definition window_off :: "u16 \<Rightarrow> bool" where
  "window_off w \<longleftrightarrow> unat w \<le> 0x7FC \<and> 4 dvd unat w"

lemma window_scast:
  assumes "window_off w"
  shows "unat (scast w :: u32) = unat w"
proof -
  have u: "uint w = int (unat w)" by (rule uint_nat)
  have "unat w < 32768"
    using assms by (simp add: window_off_def)
  then have "int (unat w) < int 32768" by (simp only: of_nat_less_iff)
  then have "int (unat w) < 2 ^ 15" by simp
  then have "sint w = int (unat w)"
    unfolding sint_uint u
    by (intro signed_take_bit_int_eq_self) (simp_all add: order_trans [OF _ uint_ge_0])
  then have "(scast w :: u32) = of_nat (unat w)"
    unfolding scast_eq by (simp only: of_int_of_nat_eq)
  then show ?thesis
    using assms by (simp add: window_off_def unsigned_ucast_eq take_bit_nat_eq_self)
qed

lemma window_addr:
  assumes "window_off w"
  shows "aligned4 (DATA_BASE + scast w)" "aligned4 (STORE_BASE + scast w)"
    "unat (DATA_BASE + scast w) < unat RAM_SIZE" "unat (STORE_BASE + scast w) < unat RAM_SIZE"
    "0x100000 \<le> unat (STORE_BASE + scast w)"
  using assms window_scast [OF assms]
  by (simp_all add: aligned4_dvd_nat layout unat_word_ariths window_off_def)

definition load_bases :: "u32 set" where "load_bases = {0x2028, 0x3028, 0x1028}"
definition store_bases :: "u32 set" where "store_bases = {0x2140, 0x3140, 0x1140}"

lemma load_word:
  assumes "base \<in> load_bases" "r8 d"
  shows "regs m ! 13 = DATA_BASE \<Longrightarrow> bench_env g \<Longrightarrow> memory_read_uint16 g pc = Inr w \<Longrightarrow> window_off w \<Longrightarrow>
      \<exists>m'. m68k_dispatch (opw base d 5) (m, g, pc) = Inr (m', g, pc + 2) \<and> same_a m m'"
    "memory_read_uint16 g a = Inr (ucast (opw base d 5)) \<Longrightarrow> memory_read_uint16 g (a + 2) = Inr w \<Longrightarrow>
      \<exists>ent. mpd_decode g a = Inr (ent, 2) \<and> mi_id ent \<noteq> MI_ILLEGAL"
proof -
  assume m: "regs m ! 13 = DATA_BASE" "bench_env g" "memory_read_uint16 g pc = Inr w" "window_off w"
  have a5: "get_reg m 13 = DATA_BASE" using m(1) by (simp add: get_reg_def)
  obtain v4 v2 v1 where v: "memory_read_uint32 g (DATA_BASE + scast w) = Inr v4"
      "memory_read_uint16 g (DATA_BASE + scast w) = Inr v2" "memory_read_uint8 g (DATA_BASE + scast w) = Inr v1"
    using bench_loads [OF m(2) window_addr(1,3) [OF m(4)]] by blast
  show "\<exists>m'. m68k_dispatch (opw base d 5) (m, g, pc) = Inr (m', g, pc + 2) \<and> same_a m m'"
    using assms m(3) v a5 unfolding load_bases_def
    by (elim insertE) (simp_all add: switch_groups opw_simps)
next
  assume "memory_read_uint16 g a = Inr (ucast (opw base d 5))" "memory_read_uint16 g (a + 2) = Inr w"
  then show "\<exists>ent. mpd_decode g a = Inr (ent, 2) \<and> mi_id ent \<noteq> MI_ILLEGAL"
    using assms unfolding load_bases_def
    by (elim insertE) (simp_all add: mpd_decode_simps opw_simps)
qed

lemma store_word:
  assumes "base \<in> store_bases" "r8 s"
  shows "regs m ! 14 = STORE_BASE \<Longrightarrow> bench_env g \<Longrightarrow> memory_read_uint16 g pc = Inr w \<Longrightarrow> window_off w \<Longrightarrow>
      \<exists>m' g'. m68k_dispatch (opw base 6 s) (m, g, pc) = Inr (m', g', pc + 2) \<and> same_a m m' \<and> code_same g g'"
    "memory_read_uint16 g a = Inr (ucast (opw base 6 s)) \<Longrightarrow> memory_read_uint16 g (a + 2) = Inr w \<Longrightarrow>
      \<exists>ent. mpd_decode g a = Inr (ent, 2) \<and> mi_id ent \<noteq> MI_ILLEGAL"
proof -
  assume m: "regs m ! 14 = STORE_BASE" "bench_env g" "memory_read_uint16 g pc = Inr w" "window_off w"
  have a6: "get_reg m 14 = STORE_BASE" using m(1) by (simp add: get_reg_def)
  note st = bench_stores [OF m(2) window_addr(2,5,4) [OF m(4)]]
  let ?v = "get_reg m s"
  obtain g4 g2 g1 where "memory_write_uint32 g (STORE_BASE + scast w) ?v = Inr g4" "code_same g g4"
      "memory_write_uint16 g (STORE_BASE + scast w) (ucast ?v) = Inr g2" "code_same g g2"
      "memory_write_uint8 g (STORE_BASE + scast w) (ucast ?v) = Inr g1" "code_same g g1"
    using st(1) [of ?v] st(2) [of "ucast ?v"] st(3) [of "ucast ?v"] by blast
  then show "\<exists>m' g'. m68k_dispatch (opw base 6 s) (m, g, pc) = Inr (m', g', pc + 2) \<and> same_a m m' \<and> code_same g g'"
    using assms m(3) a6 unfolding store_bases_def
    by (elim insertE) (simp_all add: switch_groups opw_simps)
next
  assume "memory_read_uint16 g a = Inr (ucast (opw base 6 s))" "memory_read_uint16 g (a + 2) = Inr w"
  then show "\<exists>ent. mpd_decode g a = Inr (ent, 2) \<and> mi_id ent \<noteq> MI_ILLEGAL"
    using assms unfolding store_bases_def
    by (elim insertE) (simp_all add: mpd_decode_simps opw_simps)
qed

definition bcc_words :: "u16 set" where
  "bcc_words = {0x6702, 0x6602, 0x6D02, 0x6C02, 0x6B02, 0x6A02}"

lemma bcc_word:
  assumes "w \<in> bcc_words"
  shows "\<exists>b. m68k_dispatch (ucast w) (m, g, pc) = Inr (m, g, if b then pc + 2 else pc)"
    "memory_read_uint16 g a = Inr w \<Longrightarrow> \<exists>ent. mpd_decode g a = Inr (ent, 1) \<and> mi_id ent \<noteq> MI_ILLEGAL"
proof -
  show "\<exists>b. m68k_dispatch (ucast w) (m, g, pc) = Inr (m, g, if b then pc + 2 else pc)"
    using assms unfolding bcc_words_def
    by (elim insertE) (simp_all add: switch_groups, (metis (full_types))+)
  show "memory_read_uint16 g a = Inr w \<Longrightarrow> \<exists>ent. mpd_decode g a = Inr (ent, 1) \<and> mi_id ent \<noteq> MI_ILLEGAL"
    using assms unfolding bcc_words_def
    by (elim insertE) (simp_all add: mpd_decode_simps)
qed

lemma window_off_field: "window_off (ucast (drop_bit 16 r AND 0x7FC :: u32))"
proof -
  let ?x = "drop_bit 16 r AND 0x7FC :: u32"
  have le: "unat ?x \<le> 0x7FC"
    using word_and_le1 [of "drop_bit 16 r" "0x7FC"] by (simp add: word_le_nat_alt)
  have "?x AND 3 = 0" by (simp only: and.assoc) simp
  then have "4 dvd unat ?x"
    by (simp only: aligned4_dvd_nat [symmetric] aligned4_def)
  moreover have "unat (ucast ?x :: u16) = unat ?x"
    using le by (simp add: unsigned_ucast_eq take_bit_nat_eq_self)
  ultimately show ?thesis using le by (simp only: window_off_def)
qed

lemma moveq_field:
  "drop_bit 12 (ucast (ucast (0x7000 OR push_bit 9 (k AND 7) OR (v AND 0xFF) :: u32) :: u16) :: u32) = 7"
proof -
  have d: "drop_bit 12 (push_bit 9 (k AND 7)) = 0"
    using word_and_le1 [of k 7] eight_cases [of "k AND 7"] by (fastforce simp: word_le_nat_alt)
  have small: "drop_bit 12 (v AND 0xFF) = 0"
    using word_and_le1 [of v "0xFF"]
    by (simp add: word_le_nat_alt drop_bit_eq_div word_arith_nat_div div_less)
  have "drop_bit 12 (ucast (ucast x :: u16) :: u32) = take_bit 4 (drop_bit 12 x)" for x :: u32
    by (rule bit_word_eqI) (auto simp: bit_simps)
  then show ?thesis by (simp add: drop_bit_or d small)
qed

section \<open>The instructions that go on to the next one\<close>

inductive stream_plain :: "u16 list \<Rightarrow> bool" where
  rr: "base \<in> rr_bases \<Longrightarrow> r8 d \<Longrightarrow> r8 s \<Longrightarrow> stream_plain [ucast (opw base d s)]"
| moveq: "drop_bit 12 (ucast w :: u32) = 7 \<Longrightarrow> stream_plain [w]"
| tst: "r8 s \<Longrightarrow> stream_plain [ucast (0x4A80 OR s :: u32)]"
| load: "base \<in> load_bases \<Longrightarrow> r8 d \<Longrightarrow> window_off w \<Longrightarrow> stream_plain [ucast (opw base d 5), w]"
| store: "base \<in> store_bases \<Longrightarrow> r8 s \<Longrightarrow> window_off w \<Longrightarrow> stream_plain [ucast (opw base 6 s), w]"
| move_imm: "r8 d \<Longrightarrow> stream_plain [ucast (opw 0x2038 d 4), h, l]"
| cmpi: "r8 s \<Longrightarrow> stream_plain [ucast (0x0C80 OR s :: u32), h, l]"

lemma ucast_twice:
  assumes "r8 s"
  shows "ucast (ucast (0x4A80 OR s :: u32) :: u16) = 0x4A80 OR s" "ucast (ucast (0x0C80 OR s :: u32) :: u16) = 0x0C80 OR s"
  using eight_cases [OF assms] by (elim disjE; simp)+

lemma plain_step:
  assumes "stream_plain ws" "regs m ! 13 = DATA_BASE" "regs m ! 14 = STORE_BASE" "bench_env g"
    and "\<And>j. j < length ws \<Longrightarrow> memory_read_uint16 g (pc + 2 * of_nat j) = Inr (ws ! j)"
    and "length ws = 3 \<Longrightarrow> memory_read_uint32 g (pc + 2) = Inr (imm32 (ws ! 1) (ws ! 2))"
  shows "\<exists>m' g'. m68k_dispatch (ucast (ws ! 0)) (m, g, pc + 2) = Inr (m', g', pc + 2 * of_nat (length ws))
    \<and> same_a m m' \<and> (g' = g \<or> code_same g g')"
  using assms(1)
proof cases
  case (rr base d s)
  then show ?thesis 
    using rr_dispatch [OF rr(2-4), of m g "pc + 2"] opw_fields(4) [OF rr_op_base rr(3,4)] rr by fastforce
next
  case (moveq w)
  then show ?thesis using moveq_word(1) by fastforce
next
  case (tst s)
  then show ?thesis using tst_word(1) [OF tst(2)] ucast_twice [OF tst(2)] by fastforce
next
  case (load base d w)
  have "op_base base" using load(2) by (auto simp: load_bases_def op_base_def)
  moreover have "memory_read_uint16 g (pc + 2) = Inr w" using assms(5) [of 1] load(1) by simp
  ultimately show ?thesis
    using load_word(1) [OF load(2,3) assms(2,4) _ load(4), of "pc + 2"] opw_fields(4) load(3)
    by (fastforce simp: load(1) add.assoc)
next
  case (store base s w)
  have "op_base base" using store(2) by (auto simp: store_bases_def op_base_def)
  moreover have "memory_read_uint16 g (pc + 2) = Inr w" using assms(5) [of 1] store(1) by simp
  ultimately show ?thesis
    using store_word(1) [OF store(2,3) assms(3,4) _ store(4), of "pc + 2"] opw_fields(4) store(3)
    by (fastforce simp: store(1) add.assoc)
next
  case (move_imm d h l)
  then show ?thesis
    using imm_word(1) [OF move_imm(2), of g "pc + 2"] assms(6) opw_fields(4) [of "0x2038" d 4]
    by (fastforce simp: op_base_def add.assoc)
next
  case (cmpi s h l)
  then show ?thesis
    using cmpi_word(1) [OF cmpi(2), of g "pc + 2"] assms(6) ucast_twice [OF cmpi(2)]
    by (fastforce simp: add.assoc)
qed

lemma plain_decode:
  assumes "stream_plain ws"
    and "\<And>j. j < length ws \<Longrightarrow> memory_read_uint16 g (a + 2 * of_nat j) = Inr (ws ! j)"
    and "length ws = 3 \<Longrightarrow> memory_read_uint32 g (a + 2) = Inr imm"
  shows "\<exists>ent. mpd_decode g a = Inr (ent, length ws) \<and> mi_id ent \<noteq> MI_ILLEGAL"
proof -
  have ws: "0 < length ws" "1 < length ws \<Longrightarrow> memory_read_uint16 g (a + 2) = Inr (ws ! 1)"
    "memory_read_uint16 g a = Inr (ws ! 0)"
    using assms(1) assms(2) [of 0] assms(2) [of 1] by (auto elim: stream_plain.cases)
  from assms(1) show ?thesis
    using ws assms(3)
  proof cases
    case (rr base d s)
    then show ?thesis using rr_decode [OF rr(2-4), of g a] ws(3) by simp
  next
    case (moveq w)
    then show ?thesis using moveq_word(2) [OF moveq(2), of g a w] ws(3) by simp
  next
    case (tst s)
    then show ?thesis using tst_word(2) [OF tst(2), of g a] ws(3) by simp
  next
    case (load base d w)
    then show ?thesis using load_word(2) [OF load(2,3), of g a w] ws by (simp add: numeral_2_eq_2)
  next
    case (store base s w)
    then show ?thesis using store_word(2) [OF store(2,3), of g a w] ws by (simp add: numeral_2_eq_2)
  next
    case (move_imm d h l)
    then show ?thesis using imm_word(2) [OF move_imm(2), of g a imm] ws(3) assms(3) by (simp add: numeral_3_eq_3)
  next
    case (cmpi s h l)
    then show ?thesis using cmpi_word(2) [OF cmpi(2), of g a imm] ws(3) assms(3) by (simp add: numeral_3_eq_3)
  qed
qed

end
