(* ===== verification/M68K_Stress.thy ===== *)
theory M68K_Stress
  imports M68K_Walk M68K_Opcodes
begin

text \<open>
  The third kernel of \<open>src/m68k/bench_main.c\<close>, generated by \<open>emit_kernel_stress\<close>: the list
  of instructions it assembles, and the states a run goes through. As for the other kernels,
  a run of any length returns and every instruction of it is one on which the three
  backends agree.
\<close>

section \<open>What the stream emits\<close>

lemma fold_ew [simp]: "fold ew [w] = ew w"
  by (rule ext) simp

lemma opw_imm: "0x203C OR push_bit 9 d = opw 0x2038 d 4"
proof -
  have "(0x203C :: u32) = 0x2038 OR 4" by simp
  then show ?thesis by (simp only: opw_def or.assoc or.commute [of 4])
qed

text \<open>The macros as words.\<close>

lemma asm_words:
  "asm_ADD_L_DD d s t = fold ew [ucast (opw 0xD080 d s)] t"
  "asm_SUB_L_DD d s t = fold ew [ucast (opw 0x9080 d s)] t"
  "asm_EOR_L_DD s d t = fold ew [ucast (opw 0xB180 d s)] t"
  "asm_AND_L_DD d s t = fold ew [ucast (opw 0xC080 d s)] t"
  "asm_OR_L_DD d s t = fold ew [ucast (opw 0x8080 d s)] t"
  "asm_MOVE_L_DD d s t = fold ew [ucast (opw 0x2000 d s)] t"
  "asm_CMP_L_DD d s t = fold ew [ucast (opw 0xB080 d s)] t"
  "asm_MOVEQ d imm t = fold ew [ucast (0x7000 OR push_bit 9 d OR (imm AND 0xFF))] t"
  "asm_ADDQ_L_DN q s t = fold ew [ucast (opw 0x5080 (q AND 7) s)] t"
  "asm_SUBQ_L_DN q s t = fold ew [ucast (opw 0x5180 (q AND 7) s)] t"
  "asm_LSR_L q s t = fold ew [ucast (opw 0xE088 (q AND 7) s)] t"
  "asm_LSL_L q s t = fold ew [ucast (opw 0xE188 (q AND 7) s)] t"
  "asm_MOVE_L_D16_DN d 5 off t = fold ew [ucast (opw 0x2028 d 5), ucast off] t"
  "asm_MOVE_W_D16_DN d 5 off t = fold ew [ucast (opw 0x3028 d 5), ucast off] t"
  "asm_MOVE_B_D16_DN d 5 off t = fold ew [ucast (opw 0x1028 d 5), ucast off] t"
  "asm_MOVE_L_DN_D16 6 off s t = fold ew [ucast (opw 0x2140 6 s), ucast off] t"
  "asm_MOVE_W_DN_D16 6 off s t = fold ew [ucast (opw 0x3140 6 s), ucast off] t"
  "asm_MOVE_B_DN_D16 6 off s t = fold ew [ucast (opw 0x1140 6 s), ucast off] t"
  "asm_MOVE_L_IMM_DN d v v' t = fold ew [ucast (opw 0x2038 d 4), ucast (drop_bit 16 v), ucast v'] t"
  "asm_CMPI_L_DN v v' s t = fold ew [ucast (0x0C80 OR s), ucast (drop_bit 16 v), ucast v'] t"
  "asm_TST_L_DN s t = fold ew [ucast (0x4A80 OR s)] t"
  unfolding m68k_encoders ew_imm32_def ew_disp_def ew32_def opw_imm by (simp_all add: opw_def)

lemma bcc_words_emitted:
  fixes k :: u32
  shows
  "asm_BCC_B ([CC_EQ, CC_NE, CC_LT, CC_GE, CC_MI, CC_PL] ! unat (k mod 6)) (snd t + 2 + 2) t =
    fold ew [[0x6702, 0x6602, 0x6D02, 0x6C02, 0x6B02, 0x6A02] ! unat (k mod 6)] t"
    (is ?emit)
  and "[0x6702, 0x6602, 0x6D02, 0x6C02, 0x6B02, 0x6A02] ! unat (k mod 6) \<in> bcc_words" (is ?mem)
proof -
  have "unat (k mod 6) < 6" by (simp add: unat_mod_distrib)
  then have "unat (k mod 6) \<in> {0, 1, 2, 3, 4, 5}" by auto
  moreover have "snd t + 2 + 2 - (snd t + 2) = 2" by simp
  ultimately show ?emit ?mem
    unfolding asm_BCC_B_def
    by (auto simp: m68k_ccs ew32_def bcc_words_def simp del: add_2_eq_Suc' diff_add_cancel)
qed

definition emits :: "bool \<Rightarrow> u32 \<Rightarrow> u32 \<Rightarrow> (m68k_asm \<Rightarrow> m68k_stream) \<Rightarrow> bool" where
  "emits lst pick r F \<longleftrightarrow> (\<exists>fs seed ws. (\<forall>t. F t = (fs, seed, fold ew ws t)) \<and>
     (if fs then \<exists>w\<in>bcc_words. ws = [w] else stream_plain ws) \<and>
     (\<forall>p ok. walk_emit lcg (uint pick) r p ok = (84 \<le> pick, seed, p + int (length ws),
        ok \<and> (length ws = 3 \<longrightarrow> p \<notin> page_ends))) \<and>
     (fs \<longleftrightarrow> 84 \<le> pick \<and> \<not> lst))"

lemma emits_if: "(b \<Longrightarrow> emits lst pick r F) \<Longrightarrow> (\<not> b \<Longrightarrow> emits lst pick r G) \<Longrightarrow>
    emits lst pick r (\<lambda>t. if b then F t else G t)"
    "(b \<Longrightarrow> emits lst pick r (\<lambda>t. (fs, seed, F' t))) \<Longrightarrow> (\<not> b \<Longrightarrow> emits lst pick r (\<lambda>t. (fs, seed, G' t))) \<Longrightarrow>
    emits lst pick r (\<lambda>t. (fs, seed, if b then F' t else G' t))"
  by (cases b; simp)+

lemma walk_emit_word:
  fixes x :: u32
  shows "walk_emit gen (uint x) r p ok =
    (if x < 40 then (False, r, p + 1, ok)
     else if x < 65 then (False, r, p + 2, ok)
     else if x < 70 then (False, gen (gen r), p + 3, ok \<and> p \<notin> page_ends)
     else if x < 76 then (False, r, p + 1, ok)
     else if x < 80 then (False, gen (gen r), p + 3, ok \<and> p \<notin> page_ends)
     else (84 \<le> x, r, p + 1, ok))"
  by (simp add: walk_emit_def word_less_def word_le_def)

lemma emits_plain:
  assumes "stream_plain ws"
    and "\<And>p ok. walk_emit lcg (uint x) r p ok = (84 \<le> x, seed, p + int (length ws),
        ok \<and> (length ws = 3 \<longrightarrow> p \<notin> page_ends))"
    and "x < 84 \<or> lst"
  shows "emits lst x r (\<lambda>t. (False, seed, fold ew ws t))"
  unfolding emits_def using assms by (intro exI [of _ False] exI [of _ seed] exI [of _ ws]) auto

text \<open>One rule per kind of instruction.\<close>

lemmas word_order = word_less_nat_alt word_le_nat_alt

lemma emits_one:
  assumes "stream_plain [w]" "x < 40 \<or> 70 \<le> x \<and> x < 76 \<or> 80 \<le> x \<and> x < 84 \<or> 84 \<le> x \<and> lst"
  shows "emits lst x r (\<lambda>t. (False, r, fold ew [w] t))"
  by (rule emits_plain [OF assms(1)]) (use assms(2) in \<open>auto simp: walk_emit_word word_order\<close>)

lemma emits_two:
  assumes "stream_plain [w, w']" "40 \<le> x" "x < 65"
  shows "emits lst x r (\<lambda>t. (False, r, fold ew [w, w'] t))"
  by (rule emits_plain [OF assms(1)]) (use assms(2,3) in \<open>auto simp: walk_emit_word word_order\<close>)

lemma emits_three:
  assumes "stream_plain [w, h, l]" "65 \<le> x \<and> x < 70 \<or> 76 \<le> x \<and> x < 80"
  shows "emits lst x r (\<lambda>t. (False, lcg (lcg r), fold ew [w, h, l] t))"
  by (rule emits_plain [OF assms(1)]) (use assms(2) in \<open>auto simp: walk_emit_word word_order\<close>)

lemma emits_bcc:
  assumes "84 \<le> x" "\<not> lst"
  shows "emits lst x r (\<lambda>t. (True, r, fold ew
    [[0x6702, 0x6602, 0x6D02, 0x6C02, 0x6B02, 0x6A02] ! unat (k mod 6 :: u32)] t))"
  unfolding emits_def
  by (intro exI [of _ True] exI [of _ r]
      exI [of _ "[[0x6702, 0x6602, 0x6D02, 0x6C02, 0x6B02, 0x6A02] ! unat (k mod 6 :: u32)]"])
    (use assms bcc_words_emitted(2) [of k] in \<open>auto simp: walk_emit_word word_order\<close>)

lemma stress_insn_emits:
  assumes "x = (if fs then r mod 40 else r mod 100)"
  shows "emits lst x r (\<lambda>s. m68k_stress_insn r lst (fs, r, s))"
  unfolding m68k_stress_insn_def Let_def prod.case assms [symmetric]
  apply (intro emits_if)
  unfolding asm_words bcc_words_emitted
  apply (rule emits_one emits_two emits_three emits_bcc;
   (rule stream_plain.rr stream_plain.moveq [OF moveq_field] stream_plain.tst
      stream_plain.load [OF _ _ window_off_field] stream_plain.store [OF _ _ window_off_field]
      stream_plain.move_imm stream_plain.cmpi)?;
    (simp add: rr_bases_def load_bases_def store_bases_def fields word_order; fail)?)+
  done

section \<open>The stream as a list of instructions\<close>

text \<open>
  The instructions from word \<open>p\<close> on: after a branch comes a one-word instruction that is
  not a branch, and no 32-bit immediate straddles a page.
\<close>

fun stream_ok :: "bool \<Rightarrow> int \<Rightarrow> u16 list list \<Rightarrow> bool" where
  "stream_ok fs p [] \<longleftrightarrow> \<not> fs"
| "stream_ok fs p (ws # ins) \<longleftrightarrow> (length ws = 3 \<longrightarrow> p \<notin> page_ends) \<and>
    (stream_plain ws \<and> (fs \<longrightarrow> length ws = 1) \<and> stream_ok False (p + int (length ws)) ins \<or>
     \<not> fs \<and> (\<exists>w\<in>bcc_words. ws = [w]) \<and> stream_ok True (p + 1) ins)"

lemma stream_ok_nth:
  assumes "stream_ok fs p ins" "i < length ins"
  shows "stream_plain (ins ! i) \<or> (\<exists>w\<in>bcc_words. ins ! i = [w]) \<and> Suc i < length ins \<and>
      length (ins ! Suc i) = 1 \<and> stream_plain (ins ! Suc i)"
    and "length (ins ! i) = 3 \<Longrightarrow> p + int (word_of ins i) \<notin> page_ends"
proof -
  have "(stream_plain (ins ! i) \<or> (\<exists>w\<in>bcc_words. ins ! i = [w]) \<and> Suc i < length ins \<and>
      length (ins ! Suc i) = 1 \<and> stream_plain (ins ! Suc i)) \<and>
    (length (ins ! i) = 3 \<longrightarrow> p + int (word_of ins i) \<notin> page_ends)"
    using assms
  proof (induction fs p ins arbitrary: i rule: stream_ok.induct)
    case (2 fs p ws ins)
    have nxt: "stream_ok True q ins \<Longrightarrow> ins \<noteq> [] \<and> length (ins ! 0) = 1 \<and> stream_plain (ins ! 0)" for q
      by (cases ins) auto
    show ?case
    proof (cases i)
      case 0
      then show ?thesis using 2(3) nxt by (auto simp: word_of_def)
    next
      case (Suc k)
      have "word_of (ws # ins) i = length ws + word_of ins k"
        by (simp add: Suc word_of_def)
      then show ?thesis
        using 2(1,2) [of k] 2(3,4) Suc by (fastforce simp: add.assoc)
    qed
  qed simp
  then show "stream_plain (ins ! i) \<or> (\<exists>w\<in>bcc_words. ins ! i = [w]) \<and> Suc i < length ins \<and>
      length (ins ! Suc i) = 1 \<and> stream_plain (ins ! Suc i)"
    "length (ins ! i) = 3 \<Longrightarrow> p + int (word_of ins i) \<notin> page_ends"
    by blast+
qed

text \<open>One round of the loop, not one of the last two.\<close>

lemma emits_cases:
  assumes "emits lst x r F"
  obtains fs seed ws where "\<And>t. F t = (fs, seed, fold ew ws t)"
    "if fs then \<exists>w\<in>bcc_words. ws = [w] else stream_plain ws"
    "\<And>p ok. walk_emit lcg (uint x) r p ok = (84 \<le> x, seed, p + int (length ws),
        ok \<and> (length ws = 3 \<longrightarrow> p \<notin> page_ends))"
    "fs \<longleftrightarrow> 84 \<le> x \<and> \<not> lst"
  using assms unfolding emits_def by blast

lemma walk_ok: "walk n (fs, seed, p, ok) = (fs', seed', p', True) \<Longrightarrow> ok"
proof (induction n arbitrary: fs seed p ok)
  case (Suc n)
  obtain a b c ok1 where w: "walk_step (fs, seed, p, ok) = (a, b, c, ok1)" by (cases "walk_step (fs, seed, p, ok)")
  with Suc have "ok1" by simp
  with w show ?case by (auto simp: walk_step_def walk_emit_def Let_def split: if_splits)
qed simp

lemma stream_walk:
  assumes "walk n (fs, seed, p, True) = (fs', seed', p', True)"
  shows "\<exists>ins. length ins = n \<and> p' = p + int (length (concat ins)) \<and>
    (\<forall>k t. m68k_stress_stream (n + Suc (Suc k)) (fs, seed, t)
       = m68k_stress_stream (Suc (Suc k)) (fs', seed', fold ew (concat ins) t)) \<and>
    (\<forall>tail. stream_ok fs' p' tail \<longrightarrow> stream_ok fs p (ins @ tail))"
  using assms
proof (induction n arbitrary: fs seed p)
  case 0
  then show ?case by simp
next
  case (Suc n)
  let ?r = "lcg seed"
  define x where "x = (if fs then ?r mod 40 else ?r mod 100)"
  from stress_insn_emits [of x fs ?r False]
  obtain fs1 seed1 ws where insn: "\<And>t. m68k_stress_insn ?r False (fs, ?r, t) = (fs1, seed1, fold ew ws t)"
    and kind: "if fs1 then \<exists>w\<in>bcc_words. ws = [w] else stream_plain ws"
    and walk: "\<And>p ok. walk_emit lcg (uint x) ?r p ok = (84 \<le> x, seed1, p + int (length ws),
        ok \<and> (length ws = 3 \<longrightarrow> p \<notin> page_ends))" and fs1: "fs1 \<longleftrightarrow> 84 \<le> x"
    by (auto simp: x_def elim: emits_cases)
  have ws1: "walk_step (fs, seed, p, True) = (fs1, seed1, p + int (length ws), length ws = 3 \<longrightarrow> p \<notin> page_ends)"
    using walk [of p True] fs1 by (simp add: walk_step_def Let_def x_def uint_mod split: if_splits)
  with Suc.prems walk_ok have fits: "length ws = 3 \<longrightarrow> p \<notin> page_ends"
    by fastforce
  with Suc.prems ws1 have "walk n (fs1, seed1, p + int (length ws), True) = (fs', seed', p', True)"
    by simp
  from Suc.IH [OF this] obtain ins where ins: "length ins = n"
      "p' = p + int (length ws) + int (length (concat ins))"
      "\<And>k t. m68k_stress_stream (n + Suc (Suc k)) (fs1, seed1, t)
       = m68k_stress_stream (Suc (Suc k)) (fs', seed', fold ew (concat ins) t)"
      "\<And>tail. stream_ok fs' p' tail \<Longrightarrow> stream_ok fs1 (p + int (length ws)) (ins @ tail)"
    by blast
  have short: "length ws = 1 \<and> \<not> fs1" if fs
  proof -
    have "x < 40" using that by (simp add: x_def word_less_nat_alt unat_mod_distrib)
    then show ?thesis
      using walk [of 0 True] fs1 by (simp add: walk_emit_word word_order)
  qed
  have stream: "m68k_stress_stream (Suc n + Suc (Suc k)) (fs, seed, t)
      = m68k_stress_stream (Suc (Suc k)) (fs', seed', fold ew (concat (ws # ins)) t)" for k t
    using insn ins(3) by (simp add: Let_def)
  have oks: "stream_ok fs p ((ws # ins) @ tail)" if "stream_ok fs' p' tail" for tail
    using ins(4) [OF that] fits kind short by (cases fs1) auto
  show ?case
    by (rule exI [of _ "ws # ins"]) (use ins(1,2) stream oks in \<open>simp del: m68k_stress_stream.simps stream_ok.simps\<close>)
qed

lemma stress_last:
  assumes "seed = 0xD83B8C1A"
  shows "\<exists>w w' seed'. stream_plain [w] \<and> stream_plain [w'] \<and>
    (\<forall>t. m68k_stress_stream (Suc (Suc 0)) (False, seed, t) = (False, seed', fold ew [w, w'] t))"
proof -
  have lcg: "lcg seed = 0x9FD16CB1" "lcg 0x9FD16CB1 = 0x68A8FE5C"
    by (simp_all add: assms lcg_def)
  have one: "\<exists>w. stream_plain [w] \<and> (\<forall>t. m68k_stress_insn r True (False, r, t) = (False, r, fold ew [w] t))"
    if "84 \<le> r mod 100 \<or> r mod 100 < 40" for r
  proof -
    from stress_insn_emits [of "r mod 100" False r True]
    obtain fs s ws where e: "\<And>t. m68k_stress_insn r True (False, r, t) = (fs, s, fold ew ws t)"
        "stream_plain ws" "\<not> fs"
        "walk_emit lcg (uint (r mod 100)) r 0 True = (84 \<le> r mod 100, s, int (length ws), length ws = 3 \<longrightarrow> 0 \<notin> page_ends)"
      by (fastforce elim: emits_cases)
    from e(4) that have "s = r" "length ws = 1"
      by (auto simp: walk_emit_word word_order split: if_splits)
    with e(1-3) show ?thesis by (cases ws) auto
  qed
  obtain w where w: "stream_plain [w]" "\<And>t. m68k_stress_insn 0x9FD16CB1 True (False, 0x9FD16CB1, t) = (False, 0x9FD16CB1, fold ew [w] t)"
    using one [of "0x9FD16CB1"] by auto
  obtain w' where w': "stream_plain [w']" "\<And>t. m68k_stress_insn 0x68A8FE5C True (False, 0x68A8FE5C, t) = (False, 0x68A8FE5C, fold ew [w'] t)"
    using one [of "0x68A8FE5C"] by auto
  show ?thesis
    using w w' by (intro exI [of _ w] exI [of _ w'] exI [of _ "0x68A8FE5C"]) (simp add: lcg)
qed

lemma stress_stream_ins:
  "\<exists>ins seed. length ins = 8192 \<and> length (concat ins) = 11254 \<and> stream_ok False 30 ins \<and>
    (\<forall>t. m68k_stress_stream 8192 (False, 0xAF1E2AD2, t) = (False, seed, fold ew (concat ins) t))"
proof -
  from stream_walk [OF stress_walk]
  obtain ins where ins: "length ins = 8190" "11282 = 30 + int (length (concat ins))"
    "\<And>k t. m68k_stress_stream (8190 + Suc (Suc k)) (False, 0xAF1E2AD2, t)
       = m68k_stress_stream (Suc (Suc k)) (False, 0xD83B8C1A, fold ew (concat ins) t)"
    "\<And>tail. stream_ok False 11282 tail \<Longrightarrow> stream_ok False 30 (ins @ tail)"
    by blast
  obtain w w' seed' where last: "stream_plain [w]" "stream_plain [w']"
    "\<And>t. m68k_stress_stream (Suc (Suc 0)) (False, 0xD83B8C1A, t) = (False, seed', fold ew [w, w'] t)"
    using stress_last [OF refl] by blast
  have n: "(8192 :: nat) = 8190 + Suc (Suc 0)" by simp
  have "stream_ok False 30 (ins @ [[w], [w']])"
    using last by (intro ins(4)) simp
  moreover have "m68k_stress_stream 8192 (False, 0xAF1E2AD2, t) = (False, seed', fold ew (concat (ins @ [[w], [w']])) t)" for t
    unfolding n ins(3) last(3) by simp
  ultimately show ?thesis
    using ins(1,2) by (intro exI [of _ "ins @ [[w], [w']]"] exI [of _ seed']) (simp del: m68k_stress_stream.simps)
qed

section \<open>The kernel\<close>

definition m68k_stress_code :: "u16 list list \<Rightarrow> bool" where
  "m68k_stress_code ins \<longleftrightarrow> (\<exists>body. length body = 8200 \<and> length (concat body) = 11278 \<and> stream_ok False 6 body \<and>
     word_of body 8 = 24 \<and> ins = [[0x2A7C, 0x0010, 0], [0x2C7C, 0x0018, 0]] @ body @ [[0x6000, 0xA812]])"

primrec seed_ins :: "u32 list \<Rightarrow> u32 \<Rightarrow> u16 list list" where
  "seed_ins [] r = []"
| "seed_ins (d # ds) r = (let v = lcg r; v' = lcg v
     in [ucast (opw 0x2038 d 4), ucast (drop_bit 16 v), ucast v'] # seed_ins ds v')"

lemma emit_seeds: "fold m68k_stress_seed ds (r, s) = (fold (\<lambda>_ r. lcg (lcg r)) ds r, fold ew (concat (seed_ins ds r)) s)"
  by (induction ds arbitrary: r s) (simp_all add: m68k_stress_seed_def Let_def asm_words)

lemma seed_ins_ok:
  assumes "\<forall>d\<in>set ds. r8 d" "\<forall>k < length ds. p + 3 * int k \<notin> page_ends" "stream_ok False (p + 3 * int (length ds)) tail"
  shows "stream_ok False p (seed_ins ds r @ tail)"
  using assms
proof (induction ds arbitrary: p r)
  case (Cons d ds)
  have p: "p \<notin> page_ends" using Cons.prems(2) by fastforce
  have "\<forall>k < length ds. p + 3 + 3 * int k \<notin> page_ends"
  proof (intro allI impI)
    fix k assume "k < length ds"
    then show "p + 3 + 3 * int k \<notin> page_ends"
      using Cons.prems(2) [rule_format, of "Suc k"] by (simp add: algebra_simps)
  qed
  then have "stream_ok False (p + 3) (seed_ins ds (lcg (lcg r)) @ tail)"
    using Cons.prems by (intro Cons.IH) (simp_all add: algebra_simps)
  with p Cons.prems(1) show ?case
    by (simp add: Let_def stream_plain.move_imm)
qed simp

lemma seed_ins_len: "length (seed_ins ds r) = length ds" "length (concat (seed_ins ds r)) = 3 * length ds"
  by (induction ds arbitrary: r) (simp_all add: Let_def)

declare seed_ins.simps [simp del]

lemma snd_ews: "snd (fold ew ws (g, a)) = a + 2 * of_nat (length ws)"
  by (induction ws arbitrary: g a) (simp_all add: ew_def algebra_simps)

lemma snd_ew: "snd (ew w s) = snd s + 2"
  by (cases s) (simp add: ew_def)

lemma stress_disp: "(4294944786 :: u16) = 0xA812" by simp

lemma emit_bra: "snd s = CODE_BASE + 2 * 11284 \<Longrightarrow> asm_BRA_W (CODE_BASE + 2 * 30) s = fold ew [0x6000, 0xA812] s"
  by (simp add: m68k_encoders ew_disp_def ew32_def layout Let_def snd_ew stress_disp)

lemma emit_stress_ins:
  "\<exists>ins. m68k_stress_code ins \<and> (\<forall>g. m68k_kernel_stress (g, CODE_BASE) = fold ew (concat ins) (g, CODE_BASE))"
proof -
  obtain body seed where body: "length body = 8192" "length (concat body) = 11254" "stream_ok False 30 body"
    "\<And>t. m68k_stress_stream 8192 (False, 0xAF1E2AD2, t) = (False, seed, fold ew (concat body) t)"
    using stress_stream_ins by blast
  let ?movea = "[[0x2A7C, 0x0010, 0], [0x2C7C, 0x0018, 0]] :: u16 list list"
  let ?seeds = "seed_ins [0, 1, 2, 3, 4, 5, 6, 7] 0xC0FFEE02"
  let ?ins = "?movea @ (?seeds @ body) @ [[0x6000, 0xA812]]"
  have movea: "asm_MOVEA_L_IMM 6 STORE_BASE STORE_BASE (asm_MOVEA_L_IMM 5 DATA_BASE DATA_BASE s) = fold ew (concat ?movea) s" for s
    by (simp add: m68k_encoders ew_imm32_def ew32_def layout disp_numerals)
  have seeds: "fold m68k_stress_seed [0, 1, 2, 3, 4, 5, 6, 7] (0xC0FFEE02, s) = (0xAF1E2AD2, fold ew (concat ?seeds) s)" for s
    unfolding emit_seeds by (simp add: lcg_def)
  note len = seed_ins_len [of "[0, 1, 2, 3, 4, 5, 6, 7]" "0xC0FFEE02"]
  have "stream_ok False 6 (?seeds @ body)"
    using body(3) by (intro seed_ins_ok) (simp, auto simp: page_ends_def)
  then have "m68k_stress_code ?ins"
    unfolding m68k_stress_code_def using body(1,2) len
    by (intro exI [of _ "?seeds @ body"]) (simp add: word_of_def)
  moreover have "m68k_kernel_stress (g, CODE_BASE) = fold ew (concat ?ins) (g, CODE_BASE)" for g
  proof -
    let ?s = "fold ew (concat ?seeds) (fold ew (concat ?movea) (g, CODE_BASE))"
    have s: "?s = fold ew (concat (?movea @ ?seeds)) (g, CODE_BASE)" by simp
    have loop: "snd ?s = CODE_BASE + 2 * 30"
      unfolding s snd_ews using len by simp
    have all: "fold ew (concat body) ?s = fold ew (concat (?movea @ ?seeds @ body)) (g, CODE_BASE)" by simp
    have "snd (fold ew (concat body) ?s) = CODE_BASE + 2 * 11284"
      unfolding all snd_ews using len body(2) by simp
    then have "m68k_kernel_stress (g, CODE_BASE) = fold ew [0x6000, 0xA812] (fold ew (concat body) ?s)"
      unfolding m68k_kernel_stress_def Let_def movea seeds prod.case M68K_STREAM_LEN_def body(4) loop
      by (rule emit_bra)
    then show ?thesis by simp
  qed
  ultimately show ?thesis by blast
qed

lemma page_ends_mod:
  assumes "int k \<notin> page_ends" "k < 12000"
  shows "k mod 2048 \<noteq> 2046"
proof
  assume "k mod 2048 = 2046"
  moreover have "k div 2048 < 6" using assms(2) by (simp add: div_less_iff_less_mult)
  ultimately have "k = 2048 * (k div 2048) + 2046" "k div 2048 \<in> {0, 1, 2, 3, 4, 5}"
    using div_mult_mod_eq [of k 2048] by auto
  then show False using assms by (auto simp: page_ends_def)
qed

lemma imm_in_page:
  assumes "word_of ins i < 12000" "int (word_of ins i) \<notin> page_ends"
  shows "in_page 4 (addr_of ins i + 2)"
proof -
  let ?a = "addr_of ins i + 2" and ?k = "word_of ins i"
  have a: "?a = CODE_BASE + 2 * of_nat (?k + 1)" by (simp add: addr_of_def algebra_simps)
  have "unat ?a = 0x1000 + 2 * (?k + 1)"
    unfolding a using assms(1) by (intro code_word_addr(1)) simp
  moreover have "unat (?a AND 0xFFF) = unat ?a mod 4096"
    using unat_and_mask_mod [of ?a 12] by (simp add: mask_eq_exp_minus_1)
  moreover have "(0x1000 + 2 * (?k + 1)) mod 4096 = 2 * ((?k + 1) mod 2048)"
    unfolding mod_add_self1 mult_mod_right by simp
  moreover have "(?k + 1) mod 2048 \<le> 2046"
    using page_ends_mod [OF assms(2,1)] mod_Suc [of ?k 2048] mod_less_divisor [of 2048 ?k] by (auto split: if_splits)
  ultimately have "unat (?a AND 0xFFF) \<le> 4092" by simp
  then show ?thesis by (simp add: in_page_def page_geometry word_le_nat_alt)
qed

lemma stress_facts:
  assumes "m68k_stress_code ins"
  shows "length ins = 8203" "length (concat ins) = 11286"
    "ins ! 0 = [0x2A7C, 0x0010, 0]" "ins ! 1 = [0x2C7C, 0x0018, 0]" "ins ! 8202 = [0x6000, 0xA812]"
    "word_of ins 10 = 30" "word_of ins 8202 = 11284"
    "2 \<le> i \<Longrightarrow> i < 8202 \<Longrightarrow> stream_plain (ins ! i) \<or> (\<exists>w\<in>bcc_words. ins ! i = [w]) \<and> i < 8201 \<and>
      length (ins ! Suc i) = 1"
    "i < 8203 \<Longrightarrow> length (ins ! i) = 3 \<Longrightarrow> in_page 4 (addr_of ins i + 2)"
proof -
  obtain body where body: "length body = 8200" "length (concat body) = 11278" "stream_ok False 6 body"
     "word_of body 8 = 24"
    and ins: "ins = [[0x2A7C, 0x0010, 0], [0x2C7C, 0x0018, 0]] @ body @ [[0x6000, 0xA812]]"
    using assms by (auto simp: m68k_stress_code_def)
  show len: "length ins = 8203" "length (concat ins) = 11286"
    "ins ! 0 = [0x2A7C, 0x0010, 0]" "ins ! 1 = [0x2C7C, 0x0018, 0]" "ins ! 8202 = [0x6000, 0xA812]"
    using body(1,2) by (simp_all add: ins nth_append)
  have nth: "ins ! (2 + k) = body ! k" if "k < 8200" for k
    using that body(1) by (simp add: ins nth_append)
  have word: "word_of ins (2 + k) = 6 + word_of body k" if "k \<le> 8200" for k
    using that body(1) by (simp add: ins word_of_def)
  show "word_of ins 10 = 30" "word_of ins 8202 = 11284"
    using word [of 8] word [of 8200] body(1,2,4) by (simp_all add: word_of_def)
  have split: "\<exists>k < 8200. i = 2 + k" if "2 \<le> i" "i < 8202" for i :: nat
    using that le_Suc_ex [of 2 i] by auto
  show "stream_plain (ins ! i) \<or> (\<exists>w\<in>bcc_words. ins ! i = [w]) \<and> i < 8201 \<and> length (ins ! Suc i) = 1"
    if "2 \<le> i" "i < 8202"
  proof -
    note prems = that
    obtain k where k: "k < 8200" "i = 2 + k" using split [OF prems] by blast
    then show ?thesis
      using stream_ok_nth(1) [OF body(3), of k] nth [of k] nth [of "Suc k"] body(1) by auto
  qed
  show "in_page 4 (addr_of ins i + 2)" if "i < 8203" "length (ins ! i) = 3"
  proof (rule imm_in_page)
    show "word_of ins i < 12000" using word_of_le [of ins i] len(2) by simp
    consider "i = 0" | "i = 1" | "i = 8202" | "2 \<le> i" "i < 8202" using \<open>i < 8203\<close> by linarith
    then show "int (word_of ins i) \<notin> page_ends"
    proof cases
      case 1
      then show ?thesis by (simp add: word_of_def page_ends_def)
    next
      case 2
      then show ?thesis by (simp add: word_of_def page_ends_def ins)
    next
      case 3
      with that(2) len(5) show ?thesis by simp
    next
      case 4
      then obtain k where k: "k < 8200" "i = 2 + k" using split by blast
      with that(2) have "6 + int (word_of body k) \<notin> page_ends"
        using stream_ok_nth(2) [OF body(3), of k] nth [of k] body(1) by simp
      then show ?thesis using word [of k] k by simp
    qed
  qed
qed

lemma addr_of_Suc: "i < length ins \<Longrightarrow> addr_of ins (Suc i) = addr_of ins i + 2 * of_nat (length (ins ! i))"
  by (simp add: addr_of_def word_of_Suc algebra_simps)

lemma stress_kinds:
  assumes "m68k_stress_code ins" "i < length ins"
  obtains (movea) "i < 2" | (bra) "i = 8202"
    | (plain) "2 \<le> i" "i < 8202" "stream_plain (ins ! i)"
    | (bcc) w where "2 \<le> i" "w \<in> bcc_words" "ins ! i = [w]" "i < 8201" "length (ins ! Suc i) = 1"
proof -
  have "i < 8203" using assms(2) stress_facts(1) [OF assms(1)] by simp
  then have "i < 2 \<or> i = 8202 \<or> 2 \<le> i \<and> i < 8202" by linarith
  then show ?thesis
    using stress_facts(8) [OF assms(1), of i] that by blast
qed

lemma stress_decodes:
  assumes "m68k_stress_code ins" "m68k_code ins g"
  shows "m68k_sweeps ins g"
proof -
  note facts = stress_facts [OF assms(1)]
  have "\<exists>ent. mpd_decode g (addr_of ins i) = Inr (ent, length (ins ! i)) \<and> mi_id ent \<noteq> MI_ILLEGAL"
    if i: "i < length ins" for i
  proof -
    note fetch = code_fetch [OF assms(2) i]
    have fetch32: "length (ins ! i) = 3 \<Longrightarrow> memory_read_uint32 g (addr_of ins i + 2) = Inr (imm32 (ins ! i ! 1) (ins ! i ! 2))"
      using code_fetch32 [OF assms(2) i] facts(9) [of i] i facts(1) by simp
    from assms(1) i show ?thesis
    proof (cases rule: stress_kinds)
      case movea
      then have "i = 0 \<or> i = 1" by linarith
      then show ?thesis using fetch [of 0] fetch32 facts(3,4) by (elim disjE) (simp_all add: mpd_decode_simps)
    next
      case bra
      then show ?thesis using fetch [of 0] fetch [of 1] facts(5) by (simp add: mpd_decode_simps)
    next
      case plain
      then show ?thesis using fetch fetch32 by (intro plain_decode) auto
    next
      case bcc
      then show ?thesis using fetch [of 0] bcc_word(2) by auto
    qed
  qed
  with assms(2) show ?thesis by (simp add: m68k_sweeps_def)
qed

text \<open>The base registers of the two windows.\<close>

definition m68k_stress_inv :: "nat \<Rightarrow> m68k \<Rightarrow> bool" where
  "m68k_stress_inv i m \<longleftrightarrow> (1 \<le> i \<longrightarrow> regs m ! 13 = DATA_BASE) \<and> (2 \<le> i \<longrightarrow> regs m ! 14 = STORE_BASE)"

lemma same_a_regs:
  assumes "same_a m m'" "length (regs m) = 16"
  shows "length (regs m') = 16" "regs m' ! 13 = regs m ! 13" "regs m' ! 14 = regs m ! 14"
proof -
  show len: "length (regs m') = 16" using assms by (simp add: same_a_def)
  have "drop 8 (regs m') ! k = drop 8 (regs m) ! k" for k using assms(1) by (simp add: same_a_def)
  from this [of 5] this [of 6] len assms(2)
  show "regs m' ! 13 = regs m ! 13" "regs m' ! 14 = regs m ! 14" by simp_all
qed

lemma stress_dispatch:
  assumes "m68k_stress_code ins" "m68k_at ins g0 i (m, g, pc)" "m68k_stress_inv i m"
  shows "\<exists>j m' g'. m68k_dispatch (ucast (ins ! i ! 0)) (m, g, pc + 2) = Inr (m', g', addr_of ins j)
    \<and> length (regs m') = 16 \<and> j < length ins \<and> (g' = g \<or> code_same g g') \<and> m68k_stress_inv j m' \<and> ins ! i \<noteq> []"
proof -
  note facts = stress_facts [OF assms(1)]
  have at: "pc = addr_of ins i" "length (regs m) = 16" "i < length ins" "bench_env g"
    using assms(2) by (simp_all add: m68k_at_def code_same_def)
  note fetch = at_fetch [OF assms(2)]
  have fetch32: "length (ins ! i) = 3 \<Longrightarrow> memory_read_uint32 g (pc + 2) = Inr (imm32 (ins ! i ! 1) (ins ! i ! 2))"
    using at_fetch32 [OF assms(2)] facts(9) [of i] at facts(1) by simp
  note suc = addr_of_Suc [OF at(3), folded at(1)]
  from assms(1) at(3) show ?thesis
  proof (cases rule: stress_kinds)
    case movea
    then have "i = 0 \<or> i = 1" by linarith
    then show ?thesis using fetch [of 0] fetch32 facts(1,3,4) suc at(2) assms(3)
      by (elim disjE; intro exI [of _ "Suc i"])
        (simp_all add: switch_groups m68k_stress_inv_def set_reg_def imm32_def layout)
  next
    case bra
    have "addr_of ins i + 2 + scast (0xA812 :: u16) = addr_of ins 10"
      unfolding bra addr_of_def facts(6,7) by (simp add: layout)
    then show ?thesis using fetch [of 1] facts(1,5) at(1,2) assms(3) bra
      by (intro exI [of _ 10]) (simp add: switch_groups m68k_stress_inv_def)
  next
    case plain
    have "ins ! i \<noteq> []" using plain(3) by (auto elim: stream_plain.cases)
    moreover obtain m' g' where "m68k_dispatch (ucast (ins ! i ! 0)) (m, g, pc + 2) = Inr (m', g', pc + 2 * of_nat (length (ins ! i)))"
        "same_a m m'" "g' = g \<or> code_same g g'"
      using plain_step [OF plain(3), of m g pc] assms(3) plain(1) at(4) fetch fetch32 by (auto simp: m68k_stress_inv_def)
    ultimately show ?thesis
      using suc same_a_regs [of m m'] at(2) assms(3) plain(1,2) facts(1)
      by (intro exI [of _ "Suc i"] exI [of _ m'] exI [of _ g']) (simp add: m68k_stress_inv_def)
  next
    case (bcc w)
    have suc2: "addr_of ins (Suc (Suc i)) = pc + 2 + 2"
      using addr_of_Suc [of "Suc i" ins] suc bcc facts(1) by simp
    obtain b where b: "m68k_dispatch (ucast w) (m, g, pc + 2) = Inr (m, g, if b then pc + 2 + 2 else pc + 2)"
      using bcc_word(1) [OF bcc(2), of m g "pc + 2"] by blast
    show ?thesis
      using b suc suc2 bcc at(2) assms(3) facts(1)
      by (intro exI [of _ "if b then Suc (Suc i) else Suc i"] exI [of _ m] exI [of _ g])
        (simp add: m68k_stress_inv_def)
  qed
qed

definition m68k_stress_state :: "mem_env \<Rightarrow> nat \<Rightarrow> m68k_local \<Rightarrow> bool" where
  "m68k_stress_state g0 n s \<longleftrightarrow> (\<exists>ins i. m68k_stress_code ins \<and> m68k_at ins g0 i s \<and> m68k_stress_inv i (fst s))"

interpretation m68k_stress: sprint_progress m68k_step "m68k_stress_state g0" "mpd_run_ok g0" for g0
proof unfold_locales
  fix n and s :: m68k_local
  assume "m68k_stress_state g0 (Suc n) s"
  then obtain ins i m g pc where s: "s = (m, g, pc)" and code: "m68k_stress_code ins"
    and at: "m68k_at ins g0 i (m, g, pc)" and inv: "m68k_stress_inv i m"
    by (cases s) (auto simp: m68k_stress_state_def)
  with stress_dispatch [OF code at inv] at_step [OF at] show "\<exists>s'. m68k_step s = Inr s' \<and> m68k_stress_state g0 n s'"
    by (fastforce simp: s m68k_stress_state_def)
  show "mpd_run_ok g0 s"
    using at_run_ok [OF at] by (simp add: s)
qed

end
