(* ===== verification/M68K_Selfcheck.thy ===== *)
theory M68K_Selfcheck
  imports M68K_Stress
begin

text \<open>
  From the kernels to the main program of \<open>src/m68k/bench_main.c\<close>: no instruction writes
  outside RAM; setting up a kernel leads to a state of its invariant; on it the three
  backends return the same registers, X, pc and memory, and A and B the same flags; so the
  hashes the self check compares are equal.
\<close>

section \<open>What a run leaves alone\<close>

lemma write_sized_store: "write_sized g a sz v = Inr g' \<Longrightarrow> \<exists>s. memory_store g s = Inr g'"
  by (auto simp: write_sized_def split: if_splits
    intro: exI [of _ "St32 a v"] exI [of _ "St16 a (ucast v)"] exI [of _ "St8 a (ucast v)"])

lemma move_src_mem: "move_src op sz (m, g, pc) = Inr (v, m', g', pc') \<Longrightarrow> g' = g"
  unfolding move_src_def Let_def by (auto elim!: if_branch simp: bindE_Inr_iff m68k_illegal_def)

lemma move_dst_mem:
  "move_dst op sz v (m, g, pc) = Inr (fl, m', g', pc') \<Longrightarrow> g' = g \<or> (\<exists>s. memory_store g s = Inr g')"
  unfolding move_dst_def Let_def
  by (auto elim!: if_branch simp: bindE_Inr_iff m68k_illegal_def dest!: write_sized_store)

lemma sw_move_mem:
  assumes "sw_move op (m, g, pc) = Inr (m', g', pc')"
  shows "g' = g \<or> (\<exists>s. memory_store g s = Inr g')"
proof -
  obtain sz v m1 g1 pc1 fl m2 pc2 where "move_src op sz (m, g, pc) = Inr (v, m1, g1, pc1)"
      "move_dst op sz v (m1, g1, pc1) = Inr (fl, m2, g', pc2)"
    using assms unfolding sw_move_def Let_def by (auto simp: bindE_Inr_iff)
  with move_src_mem move_dst_mem show ?thesis by blast
qed

text \<open>Every other group leaves memory alone.\<close>

lemma sw_mem:
  "sw_cmpi op (m, g, pc) = Inr (m', g', pc') \<Longrightarrow> g' = g"
  "sw_misc op (m, g, pc) = Inr (m', g', pc') \<Longrightarrow> g' = g"
  "sw_dbcc op (m, g, pc) = Inr (m', g', pc') \<Longrightarrow> g' = g"
  "sw_bcc op (m, g, pc) = Inr (m', g', pc') \<Longrightarrow> g' = g"
  "sw_moveq op (m, g, pc) = Inr (m', g', pc') \<Longrightarrow> g' = g"
  "sw_or op (m, g, pc) = Inr (m', g', pc') \<Longrightarrow> g' = g"
  "sw_sub op (m, g, pc) = Inr (m', g', pc') \<Longrightarrow> g' = g"
  "sw_cmp_eor op (m, g, pc) = Inr (m', g', pc') \<Longrightarrow> g' = g"
  "sw_and op (m, g, pc) = Inr (m', g', pc') \<Longrightarrow> g' = g"
  "sw_add op (m, g, pc) = Inr (m', g', pc') \<Longrightarrow> g' = g"
  "sw_shift op (m, g, pc) = Inr (m', g', pc') \<Longrightarrow> g' = g"
  unfolding sw_cmpi_def sw_misc_def sw_dbcc_def sw_bcc_def sw_moveq_def sw_or_def sw_sub_def
    sw_cmp_eor_def sw_and_def sw_add_def sw_shift_def Let_def
  by (auto elim!: if_branch simp: bindE_Inr_iff m68k_illegal_def split: prod.splits)

lemma sw_addq_mem: "sw_addq op (m, g, pc) = Inr (m', g', pc') \<Longrightarrow> g' = g"
  unfolding sw_addq_def Let_def by (auto elim!: if_branch simp: m68k_illegal_def dest: sw_mem(3))

lemma m68k_step_store:
  assumes "m68k_step (m, g, pc) = Inr (m', g', pc')"
  shows "g' = g \<or> (\<exists>s. memory_store g s = Inr g')"
proof -
  obtain op where "m68k_dispatch op (m, g, pc + 2) = Inr (m', g', pc')"
    using assms by (auto simp: m68k_step_def bindE_Inr_iff)
  then show ?thesis
    unfolding m68k_dispatch_def Let_def m68k_illegal_def
    by (elim if_branch) (auto dest: sw_move_mem sw_mem sw_addq_mem)
qed

interpretation m68k_ram_kept: sprint_invariant m68k_step "\<lambda>_. True" "\<lambda>(m, g, pc). ram_only M g" for M
proof unfold_locales
  fix s s' :: m68k_local
  assume "case s of (m, g, pc) \<Rightarrow> ram_only M g" "m68k_step s = Inr s'"
  then show "case s' of (m, g, pc) \<Rightarrow> ram_only M g"
    using m68k_step_store [of "fst s" "fst (snd s)" "snd (snd s)" "fst s'" "fst (snd s')" "snd (snd s')"]
      memory_store_outside [of "fst (snd s)" _ "fst (snd s')"]
    by (cases s, cases s') auto
qed

section \<open>Setting up a run\<close>

definition m68k_kernel_code :: "nat \<Rightarrow> u16 list list \<Rightarrow> bool" where
  "m68k_kernel_code k ins \<longleftrightarrow>
    (if k = 0 then ins = alu_ins else if k = 1 then ins = mem_ins else m68k_stress_code ins)"

definition m68k_kernel_state :: "nat \<Rightarrow> mem_env \<Rightarrow> nat \<Rightarrow> m68k_local \<Rightarrow> bool" where
  "m68k_kernel_state k =
    (if k = 0 then m68k_alu_state else if k = 1 then m68k_mem_state else m68k_stress_state)"

lemma m68k_setup_emits:
  "\<exists>ins. m68k_kernel_code k ins \<and> (\<forall>g. m68k_setup_kernel k g = (m68k_reset\<lparr>m68k_pc := CODE_BASE\<rparr>,
    fst (fold ew (concat ins) (fill_window (ram_memset g), CODE_BASE))))"
proof -
  obtain ins where ins: "m68k_kernel_code k ins"
    "\<And>g. (if k = 0 then m68k_kernel_alu (g, CODE_BASE) else if k = 1 then m68k_kernel_mem (g, CODE_BASE)
        else m68k_kernel_stress (g, CODE_BASE)) = fold ew (concat ins) (g, CODE_BASE)"
    using emit_stress_ins
    by (cases "k = 0"; cases "k = 1") (auto simp: m68k_kernel_code_def emit_alu_ins emit_mem_ins)
  then show ?thesis
    by (intro exI [of _ ins]) (simp only: m68k_setup_kernel_def Let_def ins(2), simp split: prod.split)
qed

lemma m68k_kernel_code_size: "m68k_kernel_code k ins \<Longrightarrow> length (concat ins) \<le> 0x8000 \<and> ins \<noteq> []"
  using stress_facts(1,2) [of ins] by (auto simp: m68k_kernel_code_def alu_ins_def mem_ins_def split: if_splits)

lemma m68k_kernel_sweeps: "m68k_kernel_code k ins \<Longrightarrow> m68k_code ins g \<Longrightarrow> m68k_sweeps ins g"
  using alu_decodes mem_decodes stress_decodes by (auto simp: m68k_kernel_code_def split: if_splits)

lemma m68k_kernel_starts: "m68k_kernel_code k ins \<Longrightarrow> m68k_at ins g0 0 s \<Longrightarrow> m68k_kernel_state k g0 n s"
  by (auto simp: m68k_kernel_code_def m68k_kernel_state_def m68k_alu_state_def m68k_mem_state_def
    m68k_stress_state_def stream_inv_def m68k_stress_inv_def split: if_splits
    intro!: exI [of _ 0] exI [of _ ins])

lemma m68k_setup_ok:
  assumes "bench_env g" "m68k_setup_kernel k g = (m, g1)"
  shows "m68k_kernel_state k g1 n (m, g1, m68k_pc m)" "ram_only (ram_memset g) g1"
proof -
  let ?g0 = "fill_window (ram_memset g)"
  obtain ins where code: "m68k_kernel_code k ins" and m: "m = m68k_reset\<lparr>m68k_pc := CODE_BASE\<rparr>"
    and g1: "g1 = fst (fold ew (concat ins) (?g0, CODE_BASE))"
    using m68k_setup_emits [of k] assms(2) by auto
  note len = m68k_kernel_code_size [OF code]
  have g0: "bench_env ?g0" "ram_memset ?g0 = ram_memset g"
    using assms(1) by (simp_all add: fill_window_frame(1) fill_window_ram ram_memset_idem)
  have zero: "ram_at ?g0 x = 0" if "unat x < 0x100000" for x
    using assms(1) that by (simp add: fill_window_frame(2) ram_at_memset layout)
  have "aligned2 CODE_BASE" "unat CODE_BASE + 2 * length (concat ins) \<le> 0x100000"
    using len by (simp_all add: aligned2_def layout)
  note e = ews [OF prod.collapse [symmetric] this g0(1), folded g1]
  have env: "bench_env g1" "ram_memset g1 = ram_memset g" using e g0(2) by simp_all
  then show "ram_only (ram_memset g) g1" by simp
  have "m68k_code ins g1"
    using env len e zero
    by (auto simp: m68k_code_def m68k_words_def m68k_rest_def layout)
  from m68k_kernel_sweeps [OF code this] have "m68k_at ins g1 0 (m, g1, m68k_pc m)"
    using len env(1) by (simp add: m68k_at_def m m68k_reset_def addr_of_def word_of_def code_same_refl)
  with code show "m68k_kernel_state k g1 n (m, g1, m68k_pc m)" by (rule m68k_kernel_starts)
qed

text \<open>A run of a kernel of any length returns, to an even pc, and all backends agree on it.\<close>

lemma m68k_kernel_run:
  assumes "m68k_kernel_state k g1 n s"
  shows "\<exists>m g pc. sprint m68k_step n s = Inr (m, g, pc) \<and> aligned2 pc" "stays (mpd_run_ok g1) m68k_step n s"
proof -
  have even: "aligned2 pc" if "m68k_at ins g0 i (m, g, pc)" for ins g0 i m g pc
    using that addr_of_nat(3) [of ins g0 i] by (auto simp: m68k_at_def m68k_sweeps_def)
  consider "m68k_alu_state g1 n s" | "m68k_mem_state g1 n s" | "m68k_stress_state g1 n s"
    using assms by (auto simp: m68k_kernel_state_def split: if_splits)
  then have "(\<exists>m g pc. sprint m68k_step n s = Inr (m, g, pc) \<and> aligned2 pc) \<and> stays (mpd_run_ok g1) m68k_step n s"
  proof cases
    case 1
    with m68k_alu.sprint_total [OF 1] m68k_alu.stays_good [OF 1] show ?thesis
      by (fastforce simp: m68k_alu_state_def dest: even)
  next
    case 2
    with m68k_mem.sprint_total [OF 2] m68k_mem.stays_good [OF 2] show ?thesis
      by (fastforce simp: m68k_mem_state_def dest: even)
  next
    case 3
    with m68k_stress.sprint_total [OF 3] m68k_stress.stays_good [OF 3] show ?thesis
      by (fastforce simp: m68k_stress_state_def dest: even)
  qed
  then show "\<exists>m g pc. sprint m68k_step n s = Inr (m, g, pc) \<and> aligned2 pc" "stays (mpd_run_ok g1) m68k_step n s"
    by blast+
qed

lemma m68k_state_fits: "m68k_kernel_state k g1 n s \<Longrightarrow> mpd_fits g1 0"
  by (cases s) (auto simp: m68k_kernel_state_def m68k_alu_state_def m68k_mem_state_def
    m68k_stress_state_def m68k_at_def intro: sweeps_fits split: if_splits)

section \<open>All backends on a kernel\<close>

definition mpd_tables_ok :: "mpd_tables \<Rightarrow> bool" where
  "mpd_tables_ok t \<longleftrightarrow> length (fst t) = MPD_ENTRIES \<and> length (snd t) = MPD_ENTRIES"

definition m68k_tables_ok :: "m68k_tables \<Rightarrow> bool" where
  "m68k_tables_ok t \<longleftrightarrow> mpd_tables_ok (tab_pd t) \<and> mpd_tables_ok (tab_elide t)"

lemma mpd_sweep_ok:
  assumes "mpd_fits g 0" "mpd_tables_ok t"
  shows "\<exists>t'. mpd_sweep elide g 0 t = Inr t' \<and> mpd_tables_ok t'"
proof -
  obtain t' where "mpd_sweep elide g 0 t = Inr t'"
    using mpd_sweep_total [OF assms(1), of t elide] assms(2) by (auto simp: mpd_tables_ok_def)
  moreover from mpd_sweep_Inr [OF this] assms(2) have "mpd_tables_ok t'"
    by (simp add: mpd_tables_ok_def)
  ultimately show ?thesis by blast
qed

lemma even_pc: "aligned2 a \<Longrightarrow> push_bit 1 (drop_bit 1 a) = a"
  using div_mult_mod_eq [of a 2]
  by (simp add: aligned2_even push_bit_eq_mult drop_bit_eq_div even_iff_mod_2_eq_zero)

lemma m68k_backends_on_kernel:
  assumes "bench_env g" "m68k_setup_kernel k g = (m, g1)"
  shows "\<exists>m' g'. m68k_run_switch m g1 n = Inr (m', g') \<and> ram_only (ram_memset g) g' \<and>
    (\<forall>t. mpd_tables_ok t \<longrightarrow> (\<exists>t'. mpd_tables_ok t' \<and> m68k_run_pd t m g1 n = Inr (m', g', t'))) \<and>
    (\<forall>t. mpd_tables_ok t \<longrightarrow> (\<exists>me t'. mpd_tables_ok t' \<and> same_but_nzvc m' me \<and>
       m68k_run_pd_elide t m g1 n = Inr (me, g', t')))"
proof -
  note ok = m68k_setup_ok(1) [OF assms, where n = "unat n"] m68k_setup_ok(2) [OF assms]
  from m68k_kernel_run [OF ok(1)] obtain m2 g' pc where
    run: "sprint m68k_step (unat n) (m, g1, m68k_pc m) = Inr (m2, g', pc)" "aligned2 pc"
    and stays: "stays (mpd_run_ok g1) m68k_step (unat n) (m, g1, m68k_pc m)" by blast
  define m' where "m' = m2\<lparr>m68k_pc := pc\<rparr>"
  have sw: "m68k_run_switch m g1 n = Inr (m', g')"
    by (simp add: m68k_run_switch_def run(1) m'_def)
  have pc: "m'\<lparr>m68k_pc := push_bit 1 (drop_bit 1 (m68k_pc m'))\<rparr> = m'"
    using even_pc [OF run(2)] by (simp add: m'_def)
  have result: "elide_result g1 (m', g') (me, ge, te) \<Longrightarrow> same_but_nzvc m' me \<and> ge = g'" for me ge te
    unfolding elide_result_def Let_def prod.case pc by (auto simp: same_but_nzvc_def)
  have "stays (\<lambda>_. True) m68k_step (unat n) (m, g1, m68k_pc m)"
    by (rule stays_mono [OF _ stays]) simp
  with run(1) ok(2) m68k_ram_kept.sprint_inv [of "ram_memset g" "(m, g1, m68k_pc m)" "unat n" "(m2, g', pc)"]
  have kept: "ram_only (ram_memset g) g'" by auto
  note fits = m68k_state_fits [OF ok(1)]
  have pd: "\<exists>t'. mpd_tables_ok t' \<and> m68k_run_pd t m g1 n = Inr (m', g', t')" if "mpd_tables_ok t" for t
  proof -
    note prems = that
    obtain tab lens where t': "mpd_sweep False g1 0 t = Inr (tab, lens)" "mpd_tables_ok (tab, lens)"
      using mpd_sweep_ok [OF fits prems, of False] by fastforce
    from m68k_run_pd_eq [OF t'(1) stays] sw t'(2) pc show ?thesis by auto
  qed
  have elide: "\<exists>me t'. mpd_tables_ok t' \<and> same_but_nzvc m' me \<and> m68k_run_pd_elide t m g1 n = Inr (me, g', t')"
    if "mpd_tables_ok t" for t
  proof -
    note prems = that
    obtain tab lens where t': "mpd_sweep True g1 0 t = Inr (tab, lens)" "mpd_tables_ok (tab, lens)"
      using mpd_sweep_ok [OF fits prems, of True] by fastforce
    from m68k_run_pd_elide_rel [OF t'(1) stays] sw obtain me t2 where
      me: "m68k_run_pd_elide t m g1 n = Inr (me, g', t2)" "same_but_nzvc m' me"
      by (cases "m68k_run_pd_elide t m g1 n") (auto dest: result)
    obtain tab' where "mpd_elide_pass lens 0 tab = Inr tab'" "length tab' = length tab"
      using mpd_elide_pass_Inr [of g1 0 tab lens] mpd_sweep_table_of [OF t'(1)] by auto
    with me(1) t' have "mpd_tables_ok t2"
      by (auto simp: m68k_run_pd_elide_def m68k_run_mpd_def bindE_Inr_iff mpd_tables_ok_def split: prod.splits)
    with me show ?thesis by blast
  qed
  show ?thesis using sw kept pd elide by blast
qed

section \<open>The main program\<close>

text \<open>The hashes of a round: backends A and B agree on both, backend C on the reduced one.\<close>

definition hashes_agree :: "(u64 \<times> u64) list \<Rightarrow> bool" where
  "hashes_agree hs \<longleftrightarrow> (\<exists>full reduced other. hs = [(full, reduced), (full, reduced), (other, reduced)])"

lemma m68k_diverged_None: "hashes_agree hs \<Longrightarrow> m68k_diverged hs = None"
  by (auto simp: hashes_agree_def m68k_diverged_def g_exact_flags_def find_None_iff nth_Cons
    less_Suc_eq numeral_3_eq_3 split: nat.splits)

lemma reduced_hash: "same_but_nzvc m m' \<Longrightarrow> m68k_state_hash False m' g = m68k_state_hash False m g"
  by (simp add: m68k_state_hash_def same_but_nzvc_def)

lemma m68k_setup_ram: "ram_memset g = ram_memset g' \<Longrightarrow> m68k_setup_kernel k g = m68k_setup_kernel k g'"
  by (simp add: m68k_setup_kernel_def)

lemma m68k_run_all_agree:
  assumes "ram_only M g" "m68k_tables_ok t"
  shows "\<exists>hs g' t'. m68k_run_all k n m68k_backends (g, t) = Inr (hs, g', t') \<and> hashes_agree hs \<and>
    ram_only M g' \<and> m68k_tables_ok t'"
proof -
  obtain m g1 where su: "m68k_setup_kernel k g = (m, g1)" by fastforce
  have env: "bench_env g" "ram_memset g = M" using assms(1) by simp_all
  obtain m' g' where run: "m68k_run_switch m g1 n = Inr (m', g')" "ram_only M g'"
      and pd: "\<And>t. mpd_tables_ok t \<Longrightarrow> \<exists>t'. mpd_tables_ok t' \<and> m68k_run_pd t m g1 n = Inr (m', g', t')"
      and elide: "\<And>t. mpd_tables_ok t \<Longrightarrow> \<exists>me t'. mpd_tables_ok t' \<and> same_but_nzvc m' me \<and>
        m68k_run_pd_elide t m g1 n = Inr (me, g', t')"
    using m68k_backends_on_kernel [OF env(1) su, of n] env(2) by blast
  have su': "m68k_setup_kernel k g' = (m, g1)"
    using m68k_setup_ram [of g' g] run(2) env(2) su by simp
  obtain t1 where t1: "mpd_tables_ok t1" "m68k_run_pd (tab_pd t) m g1 n = Inr (m', g', t1)"
    using pd [of "tab_pd t"] assms(2) by (auto simp: m68k_tables_ok_def)
  obtain me t2 where t2: "mpd_tables_ok t2" "same_but_nzvc m' me"
      "m68k_run_pd_elide (tab_elide t) m g1 n = Inr (me, g', t2)"
    using elide [of "tab_elide t"] assms(2) by (auto simp: m68k_tables_ok_def)
  show ?thesis
    using su su' run t1 t2 reduced_hash [OF t2(2)]
    by (auto simp: m68k_backends_def hashes_agree_def m68k_tables_ok_def)
qed

lemma m68k_timed_reps_ok:
  assumes "ram_only M g" "m68k_tables_ok t"
  shows "\<exists>g' t'. m68k_timed_reps r k n (g, t) = Inr (g', t') \<and> ram_only M g' \<and> m68k_tables_ok t'"
  using assms
proof (induction r arbitrary: g t)
  case (Suc r)
  from m68k_run_all_agree [OF Suc.prems, of k n] Suc.IH show ?case by fastforce
qed simp

lemma m68k_bench_kernel_ok:
  assumes "ram_only M g" "m68k_tables_ok t"
  shows "\<exists>g' t'. m68k_bench_kernel k n reps (g, t) = Inr (None, g', t') \<and> ram_only M g' \<and> m68k_tables_ok t'"
proof -
  obtain hs g1 t1 where 1: "m68k_run_all k m68k_verify_budget m68k_backends (g, t) = Inr (hs, g1, t1)"
      "hashes_agree hs" "ram_only M g1" "m68k_tables_ok t1"
    using m68k_run_all_agree [OF assms] by blast
  obtain hs2 g2 t2 where 2: "m68k_run_all k (n div 2) m68k_backends (g1, t1) = Inr (hs2, g2, t2)"
      "ram_only M g2" "m68k_tables_ok t2"
    using m68k_run_all_agree [OF 1(3,4)] by blast
  obtain g3 t3 where "m68k_timed_reps reps k n (g2, t2) = Inr (g3, t3)" "ram_only M g3" "m68k_tables_ok t3"
    using m68k_timed_reps_ok [OF 2(2,3)] by blast
  with 1 2 show ?thesis by (simp add: m68k_bench_kernel_def m68k_diverged_None)
qed

lemma m68k_bench_kernels_ok:
  assumes "bench_env g" "m68k_tables_ok t"
  shows "m68k_bench_kernels ks n reps (g, t) = Inr 0"
proof -
  have "m68k_bench_kernels ks n reps (g, t) = Inr 0" if "ram_only M g" for M
    using assms(2) that
  proof (induction ks arbitrary: g t)
    case (Cons k ks)
    from m68k_bench_kernel_ok [OF Cons.prems(2,1)] obtain g' t' where
      "m68k_bench_kernel k n reps (g, t) = Inr (None, g', t')" "ram_only M g'" "m68k_tables_ok t'" by blast
    with Cons show ?case by simp
  qed simp
  from this [of "ram_memset g"] assms(1) show ?thesis by simp
qed

lemma m68k_bench_main_ok:
  assumes "m68k_tables_ok t" "ram \<noteq> 0" "rd \<noteq> 0" "wr \<noteq> 0"
  shows "m68k_bench_main n reps (ram, rd, wr) (g, t) = Inr 0"
proof -
  obtain g1 where "mem_env_init RAM_SIZE (ram, rd, wr) g = Inr g1" "bench_env g1"
    using mem_env_init_bench_env [OF assms(2-4)] by blast
  with m68k_bench_kernels_ok [OF _ assms(1)] show ?thesis
    by (simp add: m68k_bench_main_def del: m68k_bench_kernels.simps)
qed

end
