(* ===== verification/M68K_Invariants.thy ===== *)
theory M68K_Invariants
  imports M68K_Tables
begin

text \<open>
  The type invariant of the 68k state: sixteen registers, and condition codes that are 0 or
  1. Every instruction of the switch keeps it, and so does every run.
\<close>

section \<open>Well-formed states\<close>

definition m68k_wf :: "m68k \<Rightarrow> bool" where
  "m68k_wf m \<longleftrightarrow> length (regs m) = 16 \<and> flag (m68k_n m) \<and> flag (m68k_z m) \<and> flag (m68k_v m) \<and>
     flag (m68k_cf m) \<and> flag (m68k_x m)"

lemma flag_unat: "flag x \<longleftrightarrow> unat x < 2"
proof
  assume "unat x < 2"
  then have "unat x = 0 \<or> unat x = 1" by auto
  then show "flag x" by (auto simp: flag_def word_unat_eq_iff)
qed (auto simp: flag_def)

lemma flag_values [simp]: "flag (r AND 1)" "flag (drop_bit 31 r)"
  "flag (ucast (drop_bit 15 (w :: u16)))" "flag (ucast (drop_bit 7 (b :: u8)))"
proof -
  show "flag (r AND 1)" by (simp add: flag_def and_one_eq mod_2_eq_odd)
  show "flag (drop_bit 31 r)" by (simp add: sign_bit)
  have w: "unat w < 65536" and b: "unat b < 256"
    using unsigned_less [of w] unsigned_less [of b] by simp_all
  show "flag (ucast (drop_bit 15 w))"
    using w unfolding flag_unat unsigned_ucast_eq unat_drop_bit_div take_bit_eq_mod by simp
  show "flag (ucast (drop_bit 7 b))"
    using b unfolding flag_unat unsigned_ucast_eq unat_drop_bit_div take_bit_eq_mod by simp
qed

lemma m68k_wf_updates [simp]:
  "m68k_wf m \<Longrightarrow> m68k_wf (set_reg m r v)" "m68k_wf m \<Longrightarrow> m68k_wf (cc_nz_l m v)"
  "m68k_wf m \<Longrightarrow> m68k_wf (cc_nz_w m w)" "m68k_wf m \<Longrightarrow> m68k_wf (cc_nz_b m b)"
  "m68k_wf m \<Longrightarrow> m68k_wf (cc_add_l m s d v)" "m68k_wf m \<Longrightarrow> m68k_wf (cc_sub_l m s d v)"
  "m68k_wf m \<Longrightarrow> m68k_wf (cc_cmp_l m s d v)" "m68k_wf m \<Longrightarrow> m68k_wf (cc_nz_sized m sz v)"
  "m68k_wf (m\<lparr>m68k_pc := v\<rparr>) = m68k_wf m"
  by (simp_all add: m68k_wf_def set_reg_def cc_nz_l_def cc_nz_w_def cc_nz_b_def cc_add_l_def
    cc_sub_l_def cc_cmp_l_def cc_nz_sized_def Let_def del: drop_bit_and drop_bit_xor)

lemma flag_drop [simp]: "flag (drop_bit (31 + k) x)"
proof -
  have "drop_bit (31 + k) x = drop_bit 31 (drop_bit k x)" by simp
  then show ?thesis using flag_values(2) [of "drop_bit k x"] by (simp only:)
qed

text \<open>Each group of the switch keeps them.\<close>

lemma move_wf:
  "move_src op sz (m, g, pc) = Inr (v, m', g', pc') \<Longrightarrow> m68k_wf m \<Longrightarrow> m68k_wf m'"
  "move_dst op sz v (m, g, pc) = Inr (fl, m', g', pc') \<Longrightarrow> m68k_wf m \<Longrightarrow> m68k_wf m'"
  unfolding move_src_def move_dst_def Let_def
  by (auto elim!: if_branch simp: bindE_Inr_iff m68k_illegal_def)

lemma sw_move_wf: "sw_move op (m, g, pc) = Inr (m', g', pc') \<Longrightarrow> m68k_wf m \<Longrightarrow> m68k_wf m'"
  unfolding sw_move_def Let_def using move_wf by (fastforce simp: bindE_Inr_iff)

lemma sw_wf:
  assumes "m68k_wf m"
  shows "sw_cmpi op (m, g, pc) = Inr (m', g', pc') \<Longrightarrow> m68k_wf m'"
    "sw_misc op (m, g, pc) = Inr (m', g', pc') \<Longrightarrow> m68k_wf m'"
    "sw_dbcc op (m, g, pc) = Inr (m', g', pc') \<Longrightarrow> m68k_wf m'"
    "sw_bcc op (m, g, pc) = Inr (m', g', pc') \<Longrightarrow> m68k_wf m'"
    "sw_moveq op (m, g, pc) = Inr (m', g', pc') \<Longrightarrow> m68k_wf m'"
    "sw_or op (m, g, pc) = Inr (m', g', pc') \<Longrightarrow> m68k_wf m'"
    "sw_sub op (m, g, pc) = Inr (m', g', pc') \<Longrightarrow> m68k_wf m'"
    "sw_cmp_eor op (m, g, pc) = Inr (m', g', pc') \<Longrightarrow> m68k_wf m'"
    "sw_and op (m, g, pc) = Inr (m', g', pc') \<Longrightarrow> m68k_wf m'"
    "sw_add op (m, g, pc) = Inr (m', g', pc') \<Longrightarrow> m68k_wf m'"
  using assms unfolding sw_cmpi_def sw_misc_def sw_dbcc_def sw_bcc_def sw_moveq_def sw_or_def sw_sub_def
    sw_cmp_eor_def sw_and_def sw_add_def Let_def
  by (auto elim!: if_branch simp: bindE_Inr_iff m68k_illegal_def)

lemma sw_shift_wf: "sw_shift op (m, g, pc) = Inr (m', g', pc') \<Longrightarrow> m68k_wf m \<Longrightarrow> m68k_wf m'"
  unfolding sw_shift_def Let_def
  by (auto elim!: if_branch simp: m68k_illegal_def m68k_wf_def set_reg_def split: prod.splits)

lemma sw_addq_wf: "sw_addq op (m, g, pc) = Inr (m', g', pc') \<Longrightarrow> m68k_wf m \<Longrightarrow> m68k_wf m'"
  unfolding sw_addq_def Let_def by (auto elim!: if_branch simp: m68k_illegal_def dest: sw_wf(3))

lemma m68k_step_wf:
  assumes "m68k_step (m, g, pc) = Inr (m', g', pc')" "m68k_wf m" shows "m68k_wf m'"
proof -
  obtain op where "m68k_dispatch op (m, g, pc + 2) = Inr (m', g', pc')"
    using assms by (auto simp: m68k_step_def bindE_Inr_iff)
  then show ?thesis
    unfolding m68k_dispatch_def Let_def m68k_illegal_def
    by (elim if_branch) (auto dest: sw_move_wf sw_wf [OF assms(2)] sw_addq_wf sw_shift_wf intro: assms(2))
qed

interpretation wf_m68k: sprint_invariant m68k_step "\<lambda>_. True" "\<lambda>(m, g, pc). m68k_wf m"
  by unfold_locales (auto dest: m68k_step_wf)

lemma m68k_run_wf:
  assumes "m68k_wf m" "m68k_run_switch m g n = Inr (m', g')" shows "m68k_wf m'"
proof -
  obtain m2 pc where "sprint m68k_step (unat n) (m, g, m68k_pc m) = Inr (m2, g', pc)" "m' = m2\<lparr>m68k_pc := pc\<rparr>"
    using assms(2) by (auto simp: m68k_run_switch_def bindE_Inr_iff)
  then show ?thesis
    using wf_m68k.sprint_inv [of "(m, g, m68k_pc m)" "unat n" "(m2, g', pc)"] assms(1) by simp
qed
end
