(* ===== verification/M68K_Meaning.thy ===== *)
theory M68K_Meaning
  imports M68K_Stress
begin

text \<open>
  What some of the 68k instructions compute, in integers: the shifts with their carry and
  the loop instruction. The branches the switch accepts and the predecoder does not. The
  mini assembler of \<open>src/m68k/bench_main.c\<close> against the predecoder: each macro decodes to the
  entry it is meant for.
\<close>

section \<open>Shifts\<close>

lemma bit_parity: "drop_bit n v AND 1 = c_bool (odd (unat (v :: u32) div 2 ^ n))"
proof -
  have "drop_bit n v AND 1 = c_bool (bit v n)"
  proof (rule bit_word_eqI)
    fix k assume "k < LENGTH(32)"
    show "bit (drop_bit n v AND 1) k = bit (c_bool (bit v n) :: u32) k"
      by (cases "k = 0") (auto simp: bit_simps c_bool_def)
  qed
  moreover have "bit v n \<longleftrightarrow> bit (unat v) n" by (simp add: bit_unsigned_iff)
  then have "bit v n \<longleftrightarrow> odd (unat v div 2 ^ n)" by (simp only: bit_iff_odd)
  ultimately show ?thesis by simp
qed

text \<open>\<open>lsl.l #q,Ds\<close> and \<open>lsr.l #q,Ds\<close>\<close>

definition shift_op :: "bool \<Rightarrow> u32 \<Rightarrow> u32 \<Rightarrow> u32" where
  "shift_op left q s = opw (if left then 0xE188 else 0xE088) (q AND 7) s"

lemma shift_count:
  assumes "1 \<le> unat q" "unat q \<le> 8"
  shows "(if q AND 7 \<noteq> 0 then q AND 7 else 8) = (q :: u32)" "r8 (q AND 7)"
    "unat (32 - q) = 32 - unat q" "unat (q - 1) = unat q - 1"
proof -
  have "unat q \<in> {1, 2, 3, 4, 5, 6, 7, 8}" using assms by auto
  then have "q \<in> {1, 2, 3, 4, 5, 6, 7, 8}" by (auto simp: word_unat_eq_iff)
  then show "(if q AND 7 \<noteq> 0 then q AND 7 else 8) = q" "unat (32 - q) = 32 - unat q" "unat (q - 1) = unat q - 1"
    by auto
  show "r8 (q AND 7)" by (rule and_7_less)
qed

lemma sw_shift_op:
  assumes "1 \<le> unat q" "unat q \<le> 8" "r8 s"
  shows "m68k_dispatch (shift_op left q s) (m, g, pc) =
    (let v = get_reg m s; r = (if left then push_bit (unat q) v else drop_bit (unat q) v);
         cf = c_bool (odd (unat v div 2 ^ (if left then 32 - unat q else unat q - 1)))
     in Inr ((set_reg m s r)\<lparr>m68k_cf := cf, m68k_x := cf, m68k_n := drop_bit 31 r,
          m68k_z := c_bool (r = 0), m68k_v := 0\<rparr>, g, pc))"
proof -
  note q = shift_count [OF assms(1,2)]
  show ?thesis
    using q(2) assms(3) unfolding shift_op_def
    by (cases left) (simp_all add: m68k_dispatch_def sw_shift_def opw_simps Let_def q(1,3,4) bit_parity cong: if_cong)
qed

lemma shift_values:
  "unat (push_bit n v :: u32) = unat v * 2 ^ n mod 2 ^ 32" "unat (drop_bit n v :: u32) = unat v div 2 ^ n"
proof -
  show "unat (push_bit n v :: u32) = unat v * 2 ^ n mod 2 ^ 32"
    unfolding unsigned_push_bit_eq by (simp add: take_bit_eq_mod push_bit_eq_mult)
qed (rule unat_drop_bit_div)

lemma shift_meaning:
  assumes "1 \<le> unat q" "unat q \<le> 8" "r8 s" "length (regs m) = 16"
  shows "\<exists>m'. m68k_dispatch (shift_op left q s) (m, g, pc) = Inr (m', g, pc) \<and>
    (\<forall>r. r \<noteq> s \<longrightarrow> get_reg m' r = get_reg m r) \<and>
    unat (get_reg m' s) = (if left then unat (get_reg m s) * 2 ^ unat q mod 2 ^ 32 else unat (get_reg m s) div 2 ^ unat q) \<and>
    m68k_cf m' = c_bool (odd (unat (get_reg m s) div 2 ^ (if left then 32 - unat q else unat q - 1))) \<and>
    m68k_x m' = m68k_cf m' \<and> m68k_v m' = 0 \<and>
    m68k_n m' = c_bool (sint (get_reg m' s) < 0) \<and> m68k_z m' = c_bool (get_reg m' s = 0)"
proof -
  have get: "get_reg (set_reg m s v) r = (if r = s then v else get_reg m r)" for v r
    by (rule get_set_reg [OF assms(4)]) (use assms(3) in simp)
  have fields: "get_reg (M\<lparr>m68k_cf := a, m68k_x := b, m68k_n := c, m68k_z := d, m68k_v := e\<rparr>) r = get_reg M r" for M a b c d e r
    by (simp add: get_reg_def)
  have sign: "drop_bit 31 r = c_bool (sint r < 0)" for r :: u32
    by (simp add: sign_bit bit_31)
  show ?thesis
    unfolding sw_shift_op [OF assms(1-3)] Let_def
    by (rule exI, rule conjI, rule refl) (simp add: fields get sign shift_values)
qed

section \<open>The loop instruction\<close>

lemma word_halves: "unat (x :: u32) mod 65536 = unat (ucast x :: u16)"
  by (simp add: unsigned_ucast_eq take_bit_eq_mod)

lemma low_high:
  "unat ((v AND 0xFFFF0000) OR ucast (w :: u16) :: u32) = unat v div 65536 * 65536 + unat w"
proof -
  let ?x = "(v AND 0xFFFF0000) OR ucast w :: u32"
  have m: "(0xFFFF0000 :: u32) = push_bit 16 (mask 16)"
    by (simp add: mask_eq_exp_minus_1 push_bit_eq_mult)
  have "drop_bit 16 ?x = drop_bit 16 v"
    unfolding m by (rule bit_word_eqI) (auto simp: bit_simps dest: bit_imp_le_length)
  then have "unat (drop_bit 16 ?x) = unat (drop_bit 16 v)" by (rule arg_cong)
  then have "unat ?x div 65536 = unat v div 65536" by (simp only: unat_drop_bit_div) simp
  moreover have "unat ?x mod 65536 = unat w"
    unfolding word_halves low16 ..
  ultimately show ?thesis using div_mult_mod_eq [of "unat ?x" 65536] by simp
qed

lemma pred_mod: "(x + 65535) mod 65536 = 65535 \<longleftrightarrow> x mod 65536 = (0 :: nat)"
proof -
  have x: "(x + 65535) mod 65536 = (x mod 65536 + 65535) mod 65536" by (simp only: mod_add_left_eq)
  have "(y + 65535) mod 65536 = (if y = 0 then 65535 else y - 1)" if "y < 65536" for y :: nat
    using that by (cases y) simp_all
  from this [of "x mod 65536"] show ?thesis unfolding x by (auto split: if_splits)
qed

lemma dbra_meaning:
  assumes "r8 s" "length (regs m) = 16" "memory_read_uint16 g pc = Inr d"
  shows "\<exists>m'. m68k_dispatch (0x51C8 OR s) (m, g, pc) =
      Inr (m', g, if unat (get_reg m s) mod 65536 = 0 then pc + 2 else pc + scast d) \<and>
    (\<forall>r. r \<noteq> s \<longrightarrow> get_reg m' r = get_reg m r) \<and>
    unat (get_reg m' s) = unat (get_reg m s) div 65536 * 65536 + (unat (get_reg m s) + 65535) mod 65536 \<and>
    m'\<lparr>regs := regs m\<rparr> = m"
proof -
  let ?v = "get_reg m s"
  let ?w = "ucast (?v - 1) :: u16"
  have w: "unat ?w = (unat ?v + 65535) mod 65536"
  proof -
    have minus: "?v - 1 = ?v + 0xFFFFFFFF" by simp
    have "unat ?w = (unat ?v + 4294967295) mod 4294967296 mod 65536"
      unfolding word_halves [symmetric] minus by (simp add: unat_word_ariths)
    also have "\<dots> = (unat ?v + (4294967295 mod 65536)) mod 65536"
      by (simp only: mod_mod_cancel mod_add_right_eq) (simp add: mod_mod_cancel)
    finally show ?thesis by simp
  qed
  then have "?w = 0xFFFF \<longleftrightarrow> (unat ?v + 65535) mod 65536 = 65535"
    by (simp add: word_unat_eq_iff)
  also have "\<dots> \<longleftrightarrow> unat ?v mod 65536 = 0"
    by (rule pred_mod)
  finally have last: "?w = 0xFFFF \<longleftrightarrow> unat ?v mod 65536 = 0" .
  have "m68k_dispatch (0x51C8 OR s) (m, g, pc) =
    Inr (set_reg m s ((?v AND 0xFFFF0000) OR ucast ?w), g, if ?w \<noteq> 0xFFFF then pc + scast d else pc + 2)"
    using eight_cases [OF assms(1)] assms(3)
    by (elim disjE; simp add: m68k_dispatch_def sw_addq_def sw_dbcc_def f16_sext_def f16_def Let_def)
  moreover have "get_reg (set_reg m s x) r = (if r = s then x else get_reg m r)" for x r
    by (rule get_set_reg [OF assms(2)]) (use assms(1) in simp)
  ultimately show ?thesis
    using w last
    by (intro exI [of _ "set_reg m s ((?v AND 0xFFFF0000) OR ucast ?w)"]) (simp add: low_high, simp add: set_reg_def)
qed

section \<open>Branches only the switch accepts\<close>

text \<open>Branches on the conditions HI, LS, VC and VS with an 8-bit displacement.\<close>

definition bcc_op :: "u32 \<Rightarrow> u32 \<Rightarrow> u32" where
  "bcc_op cond d8 = 0x6000 OR push_bit 8 cond OR d8"

lemma bcc_op_fields:
  assumes "unat cond < 16" "unat d8 < 256"
  shows "drop_bit 12 (bcc_op cond d8) = 6" "drop_bit 8 (bcc_op cond d8) AND 0xF = cond"
    "bcc_op cond d8 AND 0xFF = d8" "ucast (ucast (bcc_op cond d8) :: u16) = bcc_op cond d8"
proof -
  have c: "\<not> bit cond n" if "4 \<le> n" for n using bit_high [of cond 4 n] assms(1) that by simp
  have d: "\<not> bit d8 n" if "8 \<le> n" for n using bit_high [of d8 8 n] assms(2) that by simp
  have 6: "(0x6000 :: u32) = push_bit 12 6" by (simp add: push_bit_eq_mult)
  have mF: "(0xF :: u32) = mask 4" and mFF: "(0xFF :: u32) = mask 8"
    by (simp_all add: mask_eq_exp_minus_1)
  have b6: "\<not> bit (6 :: u32) n" if "3 \<le> n" for n using bit_high [of 6 3 n] that by simp
  note bits = bit_drop_bit_eq bit_or_iff bit_and_iff bit_push_bit_iff bit_mask_iff bit_ucast_iff comp_def possible_bit_def
  show "drop_bit 12 (bcc_op cond d8) = 6" unfolding bcc_op_def 6
    by (rule bit_word_eqI) (auto simp: bits c d simp del: bit_numeral_word_iff)
  show "drop_bit 8 (bcc_op cond d8) AND 0xF = cond" unfolding bcc_op_def 6 mF
  proof (rule bit_word_eqI)
    fix n assume "n < LENGTH(32)"
    then show "bit (drop_bit 8 (push_bit 12 6 OR push_bit 8 cond OR d8) AND mask 4) n = bit cond n"
      unfolding bits by (cases "n < 4") (use c in \<open>simp_all add: d\<close>)
  qed
  show "bcc_op cond d8 AND 0xFF = d8" unfolding bcc_op_def 6 mFF
  proof (rule bit_word_eqI)
    fix n assume "n < LENGTH(32)"
    then show "bit ((push_bit 12 6 OR push_bit 8 cond OR d8) AND mask 8) n = bit d8 n"
      unfolding bits by (cases "n < 8") (use d in simp_all)
  qed
  show "ucast (ucast (bcc_op cond d8) :: u16) = bcc_op cond d8" unfolding bcc_op_def 6
  proof (rule bit_word_eqI)
    fix n assume "n < LENGTH(32)"
    then show "bit (ucast (ucast (push_bit 12 6 OR push_bit 8 cond OR d8 :: u32) :: u16) :: u32) n
        = bit (push_bit 12 6 OR push_bit 8 cond OR d8) n"
      unfolding bits by (cases "n < 16") (simp_all add: c d b6 del: bit_numeral_word_iff)
  qed
qed

lemma no_cond:
  assumes "cond \<in> {2, 3, 8, 9}"
  shows "\<not> m68k_cond m cond" "bcc_id cond = None" "cond \<noteq> 0" "cond \<noteq> 1" "unat cond < 16"
  using assms by (auto simp: m68k_cond_def M68K_CONDS_def bcc_id_def)

lemma unsupported_branch:
  assumes "cond \<in> {2, 3, 8, 9}" "0 < unat d8" "unat d8 < 256" "memory_read_uint16 g pc = Inr (ucast (bcc_op cond d8))"
  shows "m68k_step (m, g, pc) = Inr (m, g, pc + 2)"
    and "mpd_decode g pc = Inr (m68k_blank (bcc_op cond d8), 1)"
proof -
  note cond = no_cond [OF assms(1)] and op = bcc_op_fields [OF no_cond(5) [OF assms(1)] assms(3)]
  have d8: "sext8 d8 \<noteq> 0"
  proof
    assume "sext8 d8 = 0"
    moreover have "ucast (scast x :: u32) = x" for x :: u8
      by (rule bit_word_eqI) (auto simp: bit_simps)
    ultimately have "ucast d8 = (0 :: u8)" unfolding sext8_def by (metis ucast_0)
    then have "unat (ucast d8 :: u8) = 0" by simp
    then show False using assms(2,3) by (simp add: unsigned_ucast_eq take_bit_nat_eq_self)
  qed
  show "m68k_step (m, g, pc) = Inr (m, g, pc + 2)"
    using assms(4) cond d8 by (simp add: m68k_step_def f16_def m68k_dispatch_def sw_bcc_def Let_def op)
  show "mpd_decode g pc = Inr (m68k_blank (bcc_op cond d8), 1)"
    using assms(4) cond d8 by (simp add: mpd_decode_def mpd_bcc_def Let_def op)
qed

section \<open>The assembler against the decoder\<close>

text \<open>What a macro assembles at \<open>a\<close> decodes to the entry \<open>i\<close>, \<open>x\<close>, \<open>y\<close> with a \<open>c\<close> as given.\<close>

definition assembled ::
    "(m68k_asm \<Rightarrow> m68k_asm) \<Rightarrow> mem_env \<Rightarrow> u32 \<Rightarrow> m68k_id \<Rightarrow> u8 \<Rightarrow> u8 \<Rightarrow> (u32 \<Rightarrow> bool) \<Rightarrow> nat \<Rightarrow> bool" where
  "assembled f g a i x y P len \<longleftrightarrow> (\<exists>c. mpd_decode (fst (f (g, a))) a = Inr (m68k_ent_of i x y c, len) \<and> P c) \<and>
     snd (f (g, a)) = a + 2 * of_nat len"

lemma ews_read:
  assumes "bench_env g" "aligned2 a" "unat a + 2 * length ws \<le> 0x100000"
  shows "j < length ws \<Longrightarrow> memory_read_uint16 (fst (fold ew ws (g, a))) (a + 2 * of_nat j) = Inr (ws ! j)"
    and "length ws = 3 \<Longrightarrow> in_page 4 (a + 2) \<Longrightarrow>
      memory_read_uint32 (fst (fold ew ws (g, a))) (a + 2) = Inr (imm32 (ws ! 1) (ws ! 2))"
proof -
  let ?g = "fst (fold ew ws (g, a))"
  note e = ews [OF prod.collapse [symmetric] assms(2,3,1)]
  then have env: "bench_env ?g" "wf_env ?g" by (simp_all add: bench_env_def)
  have addr: "unat (a + 2 * of_nat j) = unat a + 2 * j" "aligned2 (a + 2 * of_nat j)" if "j < length ws" for j
  proof -
    show "unat (a + 2 * of_nat j) = unat a + 2 * j"
      using that assms(3) by (simp add: unat_word_ariths unat_of_nat)
    with assms(2) show "aligned2 (a + 2 * of_nat j)" by (simp add: aligned2_dvd_nat)
  qed
  show "memory_read_uint16 ?g (a + 2 * of_nat j) = Inr (ws ! j)" if "j < length ws"
    using bench_read16 [OF env(1) addr(2) [OF that]] addr(1) [OF that] e that assms(3) by (simp add: layout)
  show "memory_read_uint32 ?g (a + 2) = Inr (imm32 (ws ! 1) (ws ! 2))" if "length ws = 3" "in_page 4 (a + 2)"
  proof -
    have "unat (a + 2) < unat RAM_SIZE" using addr(1) [of 1] that(1) assms(3) by (simp add: layout)
    then have "masked ?g (a + 2) = a + 2" using env(1) by (simp add: bench_masked)
    moreover have half: "be16 (ram_at ?g) (a + 2 * of_nat j) = ws ! j" if "j < 3" for j
      using e that \<open>length ws = 3\<close> by simp
    have "be16 (ram_at ?g) (a + 2) = ws ! 1" "be16 (ram_at ?g) (a + 2 + 2) = ws ! 2"
      using half [of 1] half [of 2] by (simp_all add: add.assoc)
    ultimately show ?thesis
      using that(2) by (simp add: memory_read_uint32_flat env be32_halves)
  qed
qed

lemma imm32_split: "imm32 (ucast (drop_bit 16 v :: u32)) (ucast v) = v"
  unfolding imm32_def by (rule bit_word_eqI) (auto simp: bit_simps)

lemma asm_words_more:
  "asm_MOVE_L_ANP_DN d s t = fold ew [ucast (opw 0x2018 d s)] t"
  "asm_MOVE_L_DN_ANP d s t = fold ew [ucast (opw 0x20C0 d s)] t"
  "asm_ADDQ_L_AN q s t = fold ew [ucast (opw 0x5088 (q AND 7) s)] t"
  "asm_MOVE_L_D16_DN d s off t = fold ew [ucast (opw 0x2028 d s), ucast off] t"
  "asm_MOVE_W_D16_DN d s off t = fold ew [ucast (opw 0x3028 d s), ucast off] t"
  "asm_MOVE_B_D16_DN d s off t = fold ew [ucast (opw 0x1028 d s), ucast off] t"
  "asm_MOVE_L_DN_D16 d off s t = fold ew [ucast (opw 0x2140 d s), ucast off] t"
  "asm_MOVE_W_DN_D16 d off s t = fold ew [ucast (opw 0x3140 d s), ucast off] t"
  "asm_MOVE_B_DN_D16 d off s t = fold ew [ucast (opw 0x1140 d s), ucast off] t"
  "asm_LEA_D16 d s off t = fold ew [ucast (opw 0x41E8 d s), ucast off] t"
  unfolding m68k_encoders ew_disp_def ew32_def by (simp_all add: opw_def)

lemma assembled_one:
  assumes "bench_env g" "aligned2 a" "unat a + 6 \<le> 0x100000" "f (g, a) = fold ew [w] (g, a)"
    and "\<And>g. memory_read_uint16 g a = Inr w \<Longrightarrow> \<exists>c. mpd_decode g a = Inr (m68k_ent_of i x y c, 1) \<and> P c"
  shows "assembled f g a i x y P 1"
  using assms(5) [of "fst (fold ew [w] (g, a))"] ews_read(1) [of g a "[w]" 0] snd_ews [of "[w]" g a] assms(1-4)
  by (simp add: assembled_def)

lemma assembled_two:
  assumes "bench_env g" "aligned2 a" "unat a + 6 \<le> 0x100000" "f (g, a) = fold ew [w, w'] (g, a)"
    and "\<And>g. memory_read_uint16 g a = Inr w \<Longrightarrow> memory_read_uint16 g (a + 2) = Inr w' \<Longrightarrow>
      \<exists>c. mpd_decode g a = Inr (m68k_ent_of i x y c, 2) \<and> P c"
  shows "assembled f g a i x y P 2"
  using assms(5) [of "fst (fold ew [w, w'] (g, a))"] ews_read(1) [of g a "[w, w']" 0]
    ews_read(1) [of g a "[w, w']" 1] snd_ews [of "[w, w']" g a] assms(1-4)
  by (simp add: assembled_def)

lemma assembled_three:
  assumes "bench_env g" "aligned2 a" "unat a + 6 \<le> 0x100000" "in_page 4 (a + 2)"
    "f (g, a) = fold ew [w, ucast (drop_bit 16 v), ucast v] (g, a)"
    and "\<And>g. memory_read_uint16 g a = Inr w \<Longrightarrow> memory_read_uint32 g (a + 2) = Inr v \<Longrightarrow>
      mpd_decode g a = Inr (m68k_ent_of i x y v, 3)"
  shows "assembled f g a i x y (\<lambda>c. c = v) 3"
  using assms(6) [of "fst (fold ew [w, ucast (drop_bit 16 v), ucast v] (g, a))"]
    ews_read(1) [of g a "[w, ucast (drop_bit 16 v), ucast v]" 0]
    ews_read(2) [of g a "[w, ucast (drop_bit 16 v), ucast v]"]
    snd_ews [of "[w, ucast (drop_bit 16 v), ucast v]" g a] assms(1-5)
  by (simp add: assembled_def imm32_split)

lemma asm_register_forms:
  assumes "bench_env g" "aligned2 a" "unat a + 6 \<le> 0x100000" "r8 d" "r8 s"
  shows "assembled (asm_ADD_L_DD d s) g a (MI_EL ADD_L_DD) (DR_OFF d) (DR_OFF s) (\<lambda>_. True) 1 \<and>
    assembled (asm_SUB_L_DD d s) g a (MI_EL SUB_L_DD) (DR_OFF d) (DR_OFF s) (\<lambda>_. True) 1 \<and>
    assembled (asm_AND_L_DD d s) g a (MI_EL AND_L_DD) (DR_OFF d) (DR_OFF s) (\<lambda>_. True) 1 \<and>
    assembled (asm_OR_L_DD d s) g a (MI_EL OR_L_DD) (DR_OFF d) (DR_OFF s) (\<lambda>_. True) 1 \<and>
    assembled (asm_EOR_L_DD d s) g a (MI_EL EOR_L_DD) (DR_OFF d) (DR_OFF s) (\<lambda>_. True) 1 \<and>
    assembled (asm_CMP_L_DD d s) g a (MI_PF CMP_L_DD) (DR_OFF d) (DR_OFF s) (\<lambda>_. True) 1 \<and>
    assembled (asm_MOVE_L_DD d s) g a (MI_EL MV_L_DD) (DR_OFF d) (DR_OFF s) (\<lambda>_. True) 1 \<and>
    assembled (asm_MOVE_L_ANP_DN d s) g a (MI_EL MV_L_ANP_DN) (DR_OFF d) (AR_OFF s) (\<lambda>_. True) 1 \<and>
    assembled (asm_MOVE_L_DN_ANP d s) g a (MI_EL MV_L_DN_ANP) (DR_OFF s) (AR_OFF d) (\<lambda>_. True) 1"
  by (intro conjI; rule assembled_one [OF assms(1-3)], rule asm_words asm_words_more,
    use assms(4,5) in \<open>simp add: mpd_decode_simps opw_simps m68k_ent_of_def\<close>)

lemma quick_byte:
  fixes q :: u32
  assumes "1 \<le> unat q" "unat q \<le> 8"
  shows "(q AND 7 \<noteq> 0 \<longrightarrow> (ucast (q AND 7) :: u8) = ucast q) \<and> (q AND 7 = 0 \<longrightarrow> (ucast q :: u8) = 8)"
  using shift_count(1) [OF assms] by (cases "q AND 7 = 0") simp_all

lemma asm_quick_forms:
  assumes "bench_env g" "aligned2 a" "unat a + 6 \<le> 0x100000" "1 \<le> unat q" "unat q \<le> 8" "r8 s"
  shows "assembled (asm_ADDQ_L_DN q s) g a (MI_EL ADDQ_L_DN) (DR_OFF s) (ucast q) (\<lambda>_. True) 1 \<and>
    assembled (asm_SUBQ_L_DN q s) g a (MI_EL SUBQ_L_DN) (DR_OFF s) (ucast q) (\<lambda>_. True) 1 \<and>
    assembled (asm_ADDQ_L_AN q s) g a MI_ADDQ_L_AN (AR_OFF s) (ucast q) (\<lambda>_. True) 1 \<and>
    assembled (asm_LSL_L q s) g a (MI_EL LSL_L_IMM) (DR_OFF s) (ucast q) (\<lambda>_. True) 1 \<and>
    assembled (asm_LSR_L q s) g a (MI_EL LSR_L_IMM) (DR_OFF s) (ucast q) (\<lambda>_. True) 1"
  by (intro conjI; rule assembled_one [OF assms(1-3)], rule asm_words asm_words_more,
    use shift_count(1,2) [OF assms(4,5)] quick_byte [OF assms(4,5)] assms(6) in \<open>simp add: mpd_decode_simps opw_simps m68k_ent_of_def\<close>)

lemma asm_displacement_forms:
  assumes "bench_env g" "aligned2 a" "unat a + 6 \<le> 0x100000" "r8 d" "r8 s"
  shows "assembled (asm_MOVE_L_D16_DN d s off) g a (MI_EL MV_L_D16_DN) (DR_OFF d) (AR_OFF s) (\<lambda>c. c = sext16 off) 2 \<and>
    assembled (asm_MOVE_W_D16_DN d s off) g a (MI_EL MV_W_D16_DN) (DR_OFF d) (AR_OFF s) (\<lambda>c. c = sext16 off) 2 \<and>
    assembled (asm_MOVE_B_D16_DN d s off) g a (MI_EL MV_B_D16_DN) (DR_OFF d) (AR_OFF s) (\<lambda>c. c = sext16 off) 2 \<and>
    assembled (asm_MOVE_L_DN_D16 d off s) g a (MI_EL MV_L_DN_D16) (DR_OFF s) (AR_OFF d) (\<lambda>c. c = sext16 off) 2 \<and>
    assembled (asm_MOVE_W_DN_D16 d off s) g a (MI_EL MV_W_DN_D16) (DR_OFF s) (AR_OFF d) (\<lambda>c. c = sext16 off) 2 \<and>
    assembled (asm_MOVE_B_DN_D16 d off s) g a (MI_EL MV_B_DN_D16) (DR_OFF s) (AR_OFF d) (\<lambda>c. c = sext16 off) 2 \<and>
    assembled (asm_LEA_D16 d s off) g a MI_LEA_D16 (AR_OFF d) (AR_OFF s) (\<lambda>c. c = sext16 off) 2"
  by (intro conjI; rule assembled_two [OF assms(1-3)], rule asm_words_more,
    use assms(4,5) in \<open>simp add: mpd_decode_simps opw_simps sext16_def\<close>)

lemma asm_immediate_forms:
  assumes "bench_env g" "aligned2 a" "unat a + 6 \<le> 0x100000" "in_page 4 (a + 2)" "r8 d"
  shows "assembled (asm_MOVE_L_IMM_DN d v v) g a (MI_EL MV_L_IMM_DN) (DR_OFF d) 0 (\<lambda>c. c = v) 3 \<and>
    assembled (asm_MOVEA_L_IMM d v v) g a MI_MOVEA_L_IMM (AR_OFF d) 0 (\<lambda>c. c = v) 3 \<and>
    assembled (asm_CMPI_L_DN v v d) g a (MI_PF CMPI_L_DN) (DR_OFF d) 0 (\<lambda>c. c = v) 3"
proof (intro conjI)
  have movea: "asm_MOVEA_L_IMM d v v t = fold ew [ucast (opw 0x2078 d 4), ucast (drop_bit 16 v), ucast v] t" for t
  proof -
    have "(0x207C :: u32) = 0x2078 OR 4" by simp
    then have "0x207C OR push_bit 9 d = opw 0x2078 d 4" by (simp only: opw_def or.assoc or.commute [of 4])
    then show ?thesis by (simp add: asm_MOVEA_L_IMM_def ew_imm32_def ew32_def)
  qed
  show "assembled (asm_MOVE_L_IMM_DN d v v) g a (MI_EL MV_L_IMM_DN) (DR_OFF d) 0 (\<lambda>c. c = v) 3"
    by (rule assembled_three [OF assms(1-4)], rule asm_words, use assms(5) in \<open>simp add: mpd_decode_simps opw_simps\<close>)
  show "assembled (asm_MOVEA_L_IMM d v v) g a MI_MOVEA_L_IMM (AR_OFF d) 0 (\<lambda>c. c = v) 3"
    by (rule assembled_three [OF assms(1-4)], rule movea, use assms(5) in \<open>simp add: mpd_decode_simps opw_simps\<close>)
  show "assembled (asm_CMPI_L_DN v v d) g a (MI_PF CMPI_L_DN) (DR_OFF d) 0 (\<lambda>c. c = v) 3"
    by (rule assembled_three [OF assms(1-4)], rule asm_words,
      use eight_cases [OF assms(5)] in \<open>elim disjE; simp add: mpd_decode_simps\<close>)
qed

lemma asm_branch_forms:
  assumes "bench_env g" "aligned2 a" "unat a + 6 \<le> 0x100000" "r8 d" "bcc_id cc = Some i" "unat cc < 16" "cc \<noteq> 1"
  shows "t - (a + 2) \<noteq> 0 \<Longrightarrow> sext8 (t - (a + 2)) = t - (a + 2) \<Longrightarrow>
      assembled (asm_BCC_B cc t) g a i 1 0 (\<lambda>c. c = drop_bit 1 t) 1"
    "sext16 (t - (a + 2)) = t - (a + 2) \<Longrightarrow> assembled (asm_BRA_W t) g a MI_BRA 2 0 (\<lambda>c. c = drop_bit 1 t) 2"
    "sext16 (t - (a + 2)) = t - (a + 2) \<Longrightarrow>
      assembled (asm_DBRA d t) g a MI_DBRA 0 (DR_OFF d) (\<lambda>c. c = drop_bit 1 t) 2"
proof -
  let ?x = "t - (a + 2)"
  have t: "a + 2 + ?x = t" by simp
  have disp: "a + 2 + scast (ucast ?x :: u16) = t" if "sext16 ?x = ?x"
    using that t unfolding sext16_def by simp
  have low: "unat (take_bit 8 ?x) < 256"
    using take_bit_nat_less_exp [of 8 "unat ?x"] unfolding unsigned_take_bit_eq by simp
  have s8: "sext8 (take_bit 8 ?x) = sext8 ?x"
    unfolding sext8_def by (rule arg_cong [of _ _ scast], rule bit_word_eqI) (auto simp: bit_simps)
  note op = bcc_op_fields [OF assms(6) low]
  show "assembled (asm_BCC_B cc t) g a i 1 0 (\<lambda>c. c = drop_bit 1 t) 1" if "?x \<noteq> 0" "sext8 ?x = ?x"
  proof (rule assembled_one [OF assms(1-3)])
    show "asm_BCC_B cc t (g, a) = fold ew [ucast (bcc_op cc (take_bit 8 ?x))] (g, a)"
      by (simp add: asm_BCC_B_def bcc_op_def ew32_def)
    fix g assume "memory_read_uint16 g a = Inr (ucast (bcc_op cc (take_bit 8 ?x)))"
    then show "\<exists>c. mpd_decode g a = Inr (m68k_ent_of i 1 0 c, 1) \<and> c = drop_bit 1 t"
      using that assms(5,7) op t s8 by (simp add: mpd_decode_def mpd_bcc_def Let_def)
  qed
  show "assembled (asm_BRA_W t) g a MI_BRA 2 0 (\<lambda>c. c = drop_bit 1 t) 2" if "sext16 ?x = ?x"
  proof (rule assembled_two [OF assms(1-3)])
    show "asm_BRA_W t (g, a) = fold ew [0x6000, ucast ?x] (g, a)"
      by (simp add: asm_BRA_W_def Let_def ew32_def ew_def)
    fix g assume "memory_read_uint16 g a = Inr 0x6000" "memory_read_uint16 g (a + 2) = Inr (ucast ?x)"
    then show "\<exists>c. mpd_decode g a = Inr (m68k_ent_of MI_BRA 2 0 c, 2) \<and> c = drop_bit 1 t"
      using disp [OF that] by (simp add: mpd_decode_def mpd_bcc_def Let_def ext_d16_def bcc_id_def sext8_def)
  qed
  show "assembled (asm_DBRA d t) g a MI_DBRA 0 (DR_OFF d) (\<lambda>c. c = drop_bit 1 t) 2" if "sext16 ?x = ?x"
  proof (rule assembled_two [OF assms(1-3)])
    show "asm_DBRA d t (g, a) = fold ew [ucast (0x51C8 OR d), ucast ?x] (g, a)"
      by (simp add: asm_DBRA_def Let_def ew32_def ew_def)
    fix g assume "memory_read_uint16 g a = Inr (ucast (0x51C8 OR d))" "memory_read_uint16 g (a + 2) = Inr (ucast ?x)"
    then show "\<exists>c. mpd_decode g a = Inr (m68k_ent_of MI_DBRA 0 (DR_OFF d) c, 2) \<and> c = drop_bit 1 t"
      using disp [OF that] eight_cases [OF assms(4)]
      by (elim disjE) (simp_all add: mpd_decode_def mpd_addq_def Let_def ext_d16_def)
  qed
qed

text \<open>The macros with a constant in the opcode word, a 16-bit immediate or no operand.\<close>

lemma moveq_op_fields:
  fixes d v :: u32
  assumes "r8 d"
  defines "op \<equiv> ucast (ucast (0x7000 OR push_bit 9 d OR (v AND 0xFF)) :: u16) :: u32"
  shows "drop_bit 12 op = 7" "drop_bit 9 op AND 7 = d" "op AND 0xFF = v AND 0xFF"
proof -
  have d: "\<not> bit d n" if "3 \<le> n" for n using bit_high [of d 3 n] assms(1) that by simp
  have d7: "d AND 7 = d" using eight_cases [OF assms(1)] by (elim disjE) simp_all
  show "drop_bit 12 op = 7" using moveq_field [of d v] unfolding op_def d7 .
  have 7: "(0x7000 :: u32) = push_bit 12 (mask 3)" "(7 :: u32) = mask 3" "(0xFF :: u32) = mask 8"
    by (simp_all add: push_bit_eq_mult mask_eq_exp_minus_1)
  note bits = bit_drop_bit_eq bit_or_iff bit_and_iff bit_push_bit_iff bit_mask_iff bit_ucast_iff comp_def possible_bit_def
  show "drop_bit 9 op AND 7 = d" unfolding op_def 7
  proof (rule bit_word_eqI)
    fix n assume "n < LENGTH(32)"
    show "bit (drop_bit 9 (ucast (ucast (push_bit 12 (mask 3) OR push_bit 9 d OR v AND mask 8 :: u32) :: u16) :: u32) AND mask 3) n = bit d n"
      unfolding bits by (cases "n < 3") (use d in \<open>simp_all\<close>)
  qed
  show "op AND 0xFF = v AND 0xFF" unfolding op_def 7
  proof (rule bit_word_eqI)
    fix n assume "n < LENGTH(32)"
    show "bit (ucast (ucast (push_bit 12 (mask 3) OR push_bit 9 d OR v AND mask 8 :: u32) :: u16) AND mask 8 :: u32) n = bit (v AND mask 8) n"
      unfolding bits by (cases "n < 8") simp_all
  qed
qed

lemma sext8_low: "sext8 (v AND 0xFF) = sext8 v"
proof -
  have "(0xFF :: u32) = mask 8" by (simp add: mask_eq_exp_minus_1)
  show ?thesis unfolding sext8_def \<open>0xFF = mask 8\<close>
    by (rule arg_cong [of _ _ scast], rule bit_word_eqI) (auto simp: bit_simps)
qed

lemma asm_constant_forms:
  assumes "bench_env g" "aligned2 a" "unat a + 6 \<le> 0x100000" "r8 d"
  shows "assembled (asm_MOVEQ d v) g a (MI_EL MOVEQ) (DR_OFF d) 0 (\<lambda>c. c = sext8 v) 1 \<and>
    assembled (asm_MOVE_W_IMM_DN d v) g a (MI_EL MV_W_IMM_DN) (DR_OFF d) 0 (\<lambda>c. c = ucast (ucast v :: u16)) 2 \<and>
    assembled (asm_TST_L_DN d) g a (MI_PF TST_L_DN) (DR_OFF d) 0 (\<lambda>_. True) 1 \<and>
    assembled (asm_TST_W_DN d) g a (MI_PF TST_W_DN) (DR_OFF d) 0 (\<lambda>_. True) 1 \<and>
    assembled (asm_TST_B_DN d) g a (MI_PF TST_B_DN) (DR_OFF d) 0 (\<lambda>_. True) 1 \<and>
    assembled asm_NOP g a MI_NOP 0 0 (\<lambda>_. True) 1"
proof (intro conjI)
  note op = moveq_op_fields [OF assms(4)]
  show "assembled (asm_MOVEQ d v) g a (MI_EL MOVEQ) (DR_OFF d) 0 (\<lambda>c. c = sext8 v) 1"
    by (rule assembled_one [OF assms(1-3)], rule asm_words)
      (simp add: mpd_decode_def Let_def op sext8_low)
  have imm: "asm_MOVE_W_IMM_DN d v t = fold ew [ucast (opw 0x3038 d 4), ucast v] t" for t
  proof -
    have "(0x303C :: u32) = 0x3038 OR 4" by simp
    then have "0x303C OR push_bit 9 d = opw 0x3038 d 4" by (simp only: opw_def or.assoc or.commute [of 4])
    then show ?thesis by (simp add: asm_MOVE_W_IMM_DN_def ew32_def)
  qed
  show "assembled (asm_MOVE_W_IMM_DN d v) g a (MI_EL MV_W_IMM_DN) (DR_OFF d) 0 (\<lambda>c. c = ucast (ucast v :: u16)) 2"
    by (rule assembled_two [OF assms(1-3)], rule imm) (use assms(4) in \<open>simp add: mpd_decode_simps opw_simps\<close>)
  show "assembled (asm_TST_L_DN d) g a (MI_PF TST_L_DN) (DR_OFF d) 0 (\<lambda>_. True) 1"
    "assembled (asm_TST_W_DN d) g a (MI_PF TST_W_DN) (DR_OFF d) 0 (\<lambda>_. True) 1"
    "assembled (asm_TST_B_DN d) g a (MI_PF TST_B_DN) (DR_OFF d) 0 (\<lambda>_. True) 1"
    by (rule assembled_one [OF assms(1-3)], simp add: asm_TST_L_DN_def asm_TST_W_DN_def asm_TST_B_DN_def ew32_def,
      use eight_cases [OF assms(4)] in \<open>elim disjE; simp add: mpd_decode_simps m68k_ent_of_def\<close>)+
  show "assembled asm_NOP g a MI_NOP 0 0 (\<lambda>_. True) 1"
    by (rule assembled_one [OF assms(1-3), of _ "0x4E71"]) (simp_all add: asm_NOP_def ew32_def mpd_decode_simps m68k_ent_of_def)
qed

lemma asm_BRA_B_is_BCC_B: "asm_BRA_B t = asm_BCC_B 0 t"
  by (simp add: fun_eq_iff asm_BRA_B_def asm_BCC_B_def)

lemma asm_short_branch:
  assumes "bench_env g" "aligned2 a" "unat a + 6 \<le> 0x100000"
    "t - (a + 2) \<noteq> 0" "sext8 (t - (a + 2)) = t - (a + 2)"
  shows "assembled (asm_BRA_B t) g a MI_BRA 1 0 (\<lambda>c. c = drop_bit 1 t) 1"
  unfolding asm_BRA_B_is_BCC_B
  by (rule asm_branch_forms(1) [OF assms(1-3), of 0]) (use assms(4,5) in \<open>simp_all add: bcc_id_def\<close>)

end
