(* ===== verification/Run_Composition.thy ===== *)
theory Run_Composition
  imports PPC_Threaded M68K_Switch
begin

text \<open>
  A run of an interpreter stores its program counter in the CPU state when it ends and reads
  it from there when it starts, so runs compose: \<open>n\<close> and then \<open>k\<close> instructions are \<open>n + k\<close>
  instructions. In between the stored pc is stale, and no instruction reads it.
\<close>

section \<open>Interpreters that keep the pc in a local variable\<close>

locale stored_pc =
  fixes step :: "'c \<times> 'e \<times> u32 \<Rightarrow> ('c \<times> 'e \<times> u32) outcome"
    and get_pc :: "'c \<Rightarrow> u32" and put_pc :: "u32 \<Rightarrow> 'c \<Rightarrow> 'c"
  assumes frame: "step (c, e, pc) = Inr (c', e', pc') \<Longrightarrow> step (put_pc x c, e, pc) = Inr (put_pc x c', e', pc')"
    and get_put: "get_pc (put_pc x c) = x" and put_put: "put_pc x (put_pc y c) = put_pc x c"
    and put_get: "put_pc (get_pc c) c = c"
begin

lemma sprint_frame:
  "sprint step n (c, e, pc) = Inr (c', e', pc') \<Longrightarrow> sprint step n (put_pc x c, e, pc) = Inr (put_pc x c', e', pc')"
proof (induction n arbitrary: c e pc)
  case (Suc n)
  then obtain c1 e1 pc1 where "step (c, e, pc) = Inr (c1, e1, pc1)" "sprint step n (c1, e1, pc1) = Inr (c', e', pc')"
    by (auto elim: bindE_InrE)
  with frame Suc.IH show ?case by simp
qed simp

lemma run_add:
  "(\<exists>c' pc'. sprint step (n + k) (c, e, get_pc c) = Inr (c', e', pc') \<and> r = put_pc pc' c') \<longleftrightarrow>
    (\<exists>c1 e1 pc1 c' pc'. sprint step n (c, e, get_pc c) = Inr (c1, e1, pc1) \<and>
      sprint step k (put_pc pc1 c1, e1, pc1) = Inr (c', e', pc') \<and> r = put_pc pc' c')" (is "?whole \<longleftrightarrow> ?parts")
proof
  assume ?whole
  then obtain c1 e1 pc1 c' pc' where "sprint step n (c, e, get_pc c) = Inr (c1, e1, pc1)"
    "sprint step k (c1, e1, pc1) = Inr (c', e', pc')" "r = put_pc pc' c'"
    by (auto simp: sprint_add bindE_Inr_iff)
  with sprint_frame [of k c1 e1 pc1 c' e' pc' pc1] show ?parts by (force simp: put_put)
next
  assume ?parts
  then obtain c1 e1 pc1 c' pc' where "sprint step n (c, e, get_pc c) = Inr (c1, e1, pc1)"
    "sprint step k (put_pc pc1 c1, e1, pc1) = Inr (c', e', pc')" "r = put_pc pc' c'" by blast
  with sprint_frame [of k "put_pc pc1 c1" e1 pc1 c' e' pc' "get_pc c1"] show ?whole
    by (force simp: sprint_add put_put put_get)
qed

end

section \<open>The pc stored in the state\<close>

text \<open>No instruction reads \<open>c->pc\<close>: it matters only to the diagnostic.\<close>

lemma pc_updates [simp]:
  "set_gpr (c\<lparr>ppc_pc := x\<rparr>) r v = (set_gpr c r v)\<lparr>ppc_pc := x\<rparr>"
  "get_gpr (c\<lparr>ppc_pc := x\<rparr>) r = get_gpr c r"
  "base_or_zero (c\<lparr>ppc_pc := x\<rparr>) r = base_or_zero c r"
  "set_crf (c\<lparr>ppc_pc := x\<rparr>) f b = (set_crf c f b)\<lparr>ppc_pc := x\<rparr>"
  "record0 (c\<lparr>ppc_pc := x\<rparr>) v = (record0 c v)\<lparr>ppc_pc := x\<rparr>"
  by (simp_all add: set_gpr_def get_gpr_def base_or_zero_def record0_def set_crf_def Let_def)

lemma bc_taken_pc [simp]:
  "bc_taken (c\<lparr>ppc_pc := x\<rparr>) insn a = (fst (bc_taken c insn a)\<lparr>ppc_pc := x\<rparr>, snd (bc_taken c insn a))"
  by (simp add: bc_taken_def Let_def)

lemma xer_pc [simp]: "c\<lparr>ppc_pc := x, xer_ca := v\<rparr> = (c\<lparr>xer_ca := v\<rparr>)\<lparr>ppc_pc := x\<rparr>" for c :: ppc
  by simp

lemma branch_pc [simp]:
  "gen_b (c\<lparr>ppc_pc := x\<rparr>) insn pc = (fst (gen_b c insn pc)\<lparr>ppc_pc := x\<rparr>, snd (gen_b c insn pc))"
  "gen_bc (c\<lparr>ppc_pc := x\<rparr>) insn pc = (fst (gen_bc c insn pc)\<lparr>ppc_pc := x\<rparr>, snd (gen_bc c insn pc))"
  by (auto simp: gen_b_def gen_bc_def Let_def split: prod.splits)

lemma op19_pc:
  "do_op19 c insn pc = Inr (c', pc') \<Longrightarrow> do_op19 (c\<lparr>ppc_pc := x\<rparr>) insn pc = Inr (c'\<lparr>ppc_pc := x\<rparr>, pc')"
  by (auto simp: do_op19_def do_bclr_def do_bcctr_def ppc_illegal_def Let_def
    split: prod.splits if_splits)

lemma srawi_pc: "gen_srawi (c\<lparr>ppc_pc := x\<rparr>) insn rc = (gen_srawi c insn rc)\<lparr>ppc_pc := x\<rparr>"
  by (simp add: gen_srawi_def Let_def set_gpr_def get_gpr_def record0_def set_crf_def del: xer_pc)

lemma op31_pc: "op31_stmt op insn c m = Inr (c', m') \<Longrightarrow> op31_stmt op insn (c\<lparr>ppc_pc := x\<rparr>) m = Inr (c'\<lparr>ppc_pc := x\<rparr>, m')"
  by (cases op) (auto simp: gen_cmp_def gen_xo_arith_def gen_x_logic_def srawi_pc
    gen_load_x_def gen_store_x_def gen_mspr_def ppc_illegal_def Let_def bindE_Inr_iff split: if_splits)

lemma prim_pc:
  "prim_stmt op insn (c, m, pc) = Inr (c', m', pc') \<Longrightarrow>
    prim_stmt op insn (c\<lparr>ppc_pc := x\<rparr>, m, pc) = Inr (c'\<lparr>ppc_pc := x\<rparr>, m', pc')"
  by (cases op) (auto simp: gen_mulli_def gen_cmp_def gen_addi_def gen_logic_d_def gen_rlwinm_def
    gen_load_d_def gen_store_d_def do_op31_def ppc_illegal_def Let_def bindE_Inr_iff
    dest: op31_pc op19_pc split: if_splits prod.splits option.splits)

lemma step_pc: "switch_step (c, m, pc) = Inr (c', m', pc') \<Longrightarrow>
    switch_step (c\<lparr>ppc_pc := x\<rparr>, m, pc) = Inr (c'\<lparr>ppc_pc := x\<rparr>, m', pc')"
  by (auto simp: switch_step_def switch_dispatch_def ppc_illegal_def bindE_Inr_iff
    dest: prim_pc split: option.splits)


declare xer_pc [simp del]

interpretation pc_ppc: stored_pc switch_step ppc_pc "\<lambda>x c. c\<lparr>ppc_pc := x\<rparr>"
  by unfold_locales (auto dest: step_pc)

lemma ppc_run_switch_add:
  assumes "unat n + unat k < 2 ^ 32"
  shows "ppc_run_switch c m (n + k) = Inr (c', m') \<longleftrightarrow>
    (\<exists>c1 m1. ppc_run_switch c m n = Inr (c1, m1) \<and> ppc_run_switch c1 m1 k = Inr (c', m'))"
proof -
  have "unat (n + k) = unat n + unat k" using assms by (simp add: unat_word_ariths)
  then show ?thesis
    using pc_ppc.run_add [of "unat n" "unat k" c m m' c']
    by (auto simp: ppc_run_switch_def bindE_Inr_iff)
qed

section \<open>The 68k\<close>

lemma m68k_pc_updates [simp]:
  "set_reg (m\<lparr>m68k_pc := x\<rparr>) r v = (set_reg m r v)\<lparr>m68k_pc := x\<rparr>"
  "get_reg (m\<lparr>m68k_pc := x\<rparr>) r = get_reg m r"
  "cc_nz_l (m\<lparr>m68k_pc := x\<rparr>) v = (cc_nz_l m v)\<lparr>m68k_pc := x\<rparr>"
  "cc_nz_w (m\<lparr>m68k_pc := x\<rparr>) w = (cc_nz_w m w)\<lparr>m68k_pc := x\<rparr>"
  "cc_nz_b (m\<lparr>m68k_pc := x\<rparr>) b = (cc_nz_b m b)\<lparr>m68k_pc := x\<rparr>"
  "cc_add_l (m\<lparr>m68k_pc := x\<rparr>) s d r' = (cc_add_l m s d r')\<lparr>m68k_pc := x\<rparr>"
  "cc_sub_l (m\<lparr>m68k_pc := x\<rparr>) s d r' = (cc_sub_l m s d r')\<lparr>m68k_pc := x\<rparr>"
  "cc_cmp_l (m\<lparr>m68k_pc := x\<rparr>) s d r' = (cc_cmp_l m s d r')\<lparr>m68k_pc := x\<rparr>"
  "cc_nz_sized (m\<lparr>m68k_pc := x\<rparr>) sz v = (cc_nz_sized m sz v)\<lparr>m68k_pc := x\<rparr>"
  by (simp_all add: set_reg_def get_reg_def cc_nz_l_def cc_nz_w_def cc_nz_b_def cc_add_l_def cc_sub_l_def
    cc_cmp_l_def cc_nz_sized_def Let_def)

lemma m68k_cond_pc [simp]: "m68k_cond (m\<lparr>m68k_pc := x\<rparr>) cond = m68k_cond m cond"
proof -
  have "cond_expr cc (m\<lparr>m68k_pc := x\<rparr>) = cond_expr cc m" for cc by (cases cc) simp_all
  then show ?thesis by (simp add: m68k_cond_def split: option.splits)
qed

lemma frame_if: "(if b then A else B) = r \<Longrightarrow> (A = r \<Longrightarrow> A' = r') \<Longrightarrow> (B = r \<Longrightarrow> B' = r') \<Longrightarrow> (if b then A' else B') = r'"
  by (auto split: if_splits)

lemma move_frame:
  "move_src op sz (m, g, pc) = Inr (v, m', g', pc') \<Longrightarrow>
    move_src op sz (m\<lparr>m68k_pc := x\<rparr>, g, pc) = Inr (v, m'\<lparr>m68k_pc := x\<rparr>, g', pc')"
  "move_dst op sz v (m, g, pc) = Inr (fl, m', g', pc') \<Longrightarrow>
    move_dst op sz v (m\<lparr>m68k_pc := x\<rparr>, g, pc) = Inr (fl, m'\<lparr>m68k_pc := x\<rparr>, g', pc')"
  unfolding move_src_def move_dst_def Let_def prod.case
  by ((elim frame_if)?; auto simp: bindE_Inr_iff m68k_illegal_def)+

lemma sw_frame:
  "sw_cmpi op (m, g, pc) = Inr (m', g', pc') \<Longrightarrow> sw_cmpi op (m\<lparr>m68k_pc := x\<rparr>, g, pc) = Inr (m'\<lparr>m68k_pc := x\<rparr>, g', pc')"
  "sw_misc op (m, g, pc) = Inr (m', g', pc') \<Longrightarrow> sw_misc op (m\<lparr>m68k_pc := x\<rparr>, g, pc) = Inr (m'\<lparr>m68k_pc := x\<rparr>, g', pc')"
  "sw_dbcc op (m, g, pc) = Inr (m', g', pc') \<Longrightarrow> sw_dbcc op (m\<lparr>m68k_pc := x\<rparr>, g, pc) = Inr (m'\<lparr>m68k_pc := x\<rparr>, g', pc')"
  "sw_bcc op (m, g, pc) = Inr (m', g', pc') \<Longrightarrow> sw_bcc op (m\<lparr>m68k_pc := x\<rparr>, g, pc) = Inr (m'\<lparr>m68k_pc := x\<rparr>, g', pc')"
  "sw_moveq op (m, g, pc) = Inr (m', g', pc') \<Longrightarrow> sw_moveq op (m\<lparr>m68k_pc := x\<rparr>, g, pc) = Inr (m'\<lparr>m68k_pc := x\<rparr>, g', pc')"
  "sw_or op (m, g, pc) = Inr (m', g', pc') \<Longrightarrow> sw_or op (m\<lparr>m68k_pc := x\<rparr>, g, pc) = Inr (m'\<lparr>m68k_pc := x\<rparr>, g', pc')"
  "sw_sub op (m, g, pc) = Inr (m', g', pc') \<Longrightarrow> sw_sub op (m\<lparr>m68k_pc := x\<rparr>, g, pc) = Inr (m'\<lparr>m68k_pc := x\<rparr>, g', pc')"
  "sw_cmp_eor op (m, g, pc) = Inr (m', g', pc') \<Longrightarrow> sw_cmp_eor op (m\<lparr>m68k_pc := x\<rparr>, g, pc) = Inr (m'\<lparr>m68k_pc := x\<rparr>, g', pc')"
  "sw_and op (m, g, pc) = Inr (m', g', pc') \<Longrightarrow> sw_and op (m\<lparr>m68k_pc := x\<rparr>, g, pc) = Inr (m'\<lparr>m68k_pc := x\<rparr>, g', pc')"
  "sw_add op (m, g, pc) = Inr (m', g', pc') \<Longrightarrow> sw_add op (m\<lparr>m68k_pc := x\<rparr>, g, pc) = Inr (m'\<lparr>m68k_pc := x\<rparr>, g', pc')"
  "sw_shift op (m, g, pc) = Inr (m', g', pc') \<Longrightarrow> sw_shift op (m\<lparr>m68k_pc := x\<rparr>, g, pc) = Inr (m'\<lparr>m68k_pc := x\<rparr>, g', pc')"
  unfolding sw_cmpi_def sw_misc_def sw_dbcc_def sw_bcc_def sw_moveq_def sw_or_def sw_sub_def
    sw_cmp_eor_def sw_and_def sw_add_def sw_shift_def Let_def prod.case
  by ((elim frame_if)?; auto simp: bindE_Inr_iff m68k_illegal_def split: prod.splits if_splits)+

lemma sw_addq_frame:
  "sw_addq op (m, g, pc) = Inr (m', g', pc') \<Longrightarrow> sw_addq op (m\<lparr>m68k_pc := x\<rparr>, g, pc) = Inr (m'\<lparr>m68k_pc := x\<rparr>, g', pc')"
  unfolding sw_addq_def Let_def prod.case
  by ((elim frame_if)?; auto simp: m68k_illegal_def intro: sw_frame(3))

lemma sw_move_frame:
  "sw_move op (m, g, pc) = Inr (m', g', pc') \<Longrightarrow> sw_move op (m\<lparr>m68k_pc := x\<rparr>, g, pc) = Inr (m'\<lparr>m68k_pc := x\<rparr>, g', pc')"
proof -
  define sz :: u32 where "sz = (if drop_bit 12 op = 2 then 4 else if drop_bit 12 op = 3 then 2 else 1)"
  note def = sw_move_def Let_def sz_def [symmetric]
  assume "sw_move op (m, g, pc) = Inr (m', g', pc')"
  then obtain v m1 g1 pc1 fl m2 g2 pc2 where src: "move_src op sz (m, g, pc) = Inr (v, m1, g1, pc1)"
    and dst: "move_dst op sz v (m1, g1, pc1) = Inr (fl, m2, g2, pc2)"
    and fl: "(if fl then cc_nz_sized m2 sz v else m2) = m'" "g2 = g'" "pc2 = pc'"
    unfolding def by (auto simp: bindE_Inr_iff)
  show "sw_move op (m\<lparr>m68k_pc := x\<rparr>, g, pc) = Inr (m'\<lparr>m68k_pc := x\<rparr>, g', pc')"
    unfolding def
    using move_frame(1) [OF src, of x] move_frame(2) [OF dst, of x] fl by auto
qed

lemma m68k_step_frame:
  assumes "m68k_step (m, g, pc) = Inr (m', g', pc')"
  shows "m68k_step (m\<lparr>m68k_pc := x\<rparr>, g, pc) = Inr (m'\<lparr>m68k_pc := x\<rparr>, g', pc')"
proof -
  obtain w where w: "f16 g pc = Inr w" "m68k_dispatch (ucast w) (m, g, pc + 2) = Inr (m', g', pc')"
    using assms by (auto simp: m68k_step_def bindE_Inr_iff)
  from w(2) have "m68k_dispatch (ucast w) (m\<lparr>m68k_pc := x\<rparr>, g, pc + 2) = Inr (m'\<lparr>m68k_pc := x\<rparr>, g', pc')"
    unfolding m68k_dispatch_def Let_def m68k_illegal_def
    apply (elim frame_if)
 apply (simp_all add: sw_move_frame sw_frame sw_addq_frame)
 done
  with w(1) show ?thesis by (simp add: m68k_step_def)
qed

interpretation pc_m68k: stored_pc m68k_step m68k_pc "\<lambda>x m. m\<lparr>m68k_pc := x\<rparr>"
  by unfold_locales (auto dest: m68k_step_frame)

lemma m68k_run_switch_add:
  assumes "unat n + unat k < 2 ^ 32"
  shows "m68k_run_switch m g (n + k) = Inr (m', g') \<longleftrightarrow>
    (\<exists>m1 g1. m68k_run_switch m g n = Inr (m1, g1) \<and> m68k_run_switch m1 g1 k = Inr (m', g'))"
proof -
  have "unat (n + k) = unat n + unat k" using assms by (simp add: unat_word_ariths)
  then show ?thesis
    using pc_m68k.run_add [of "unat n" "unat k" m g g' m']
    by (auto simp: m68k_run_switch_def bindE_Inr_iff)
qed
end
