(* ===== verification/Byte_Swap.thy ===== *)
theory Byte_Swap
  imports Guest_Memory Sprint
begin

text \<open>
  \<open>src/micro/be_micro.c\<close>: three ways to load a big-endian word from the same 64 KB
  buffer. The clock and the figures printed are not modelled, the checksums are. The two
  swapping variants load the same value, and all three variants walk the same addresses.
\<close>

section \<open>The three loads\<close>

text \<open>Of the word \<open>x\<close> at the pointer.\<close>

definition ld_le :: "u32 \<Rightarrow> u32" where
  "ld_le x = x"

definition ld_bswap :: "u32 \<Rightarrow> u32" where
  "ld_bswap x = bswap32 x"

definition ld_rot :: "u32 \<Rightarrow> u32" where
  "ld_rot x =
    (let t = push_bit 16 x OR drop_bit 16 x
     in (push_bit 8 t AND 0xFF00FF00) OR (drop_bit 8 t AND 0x00FF00FF))"

section \<open>One pass\<close>

definition BUF_WORDS :: nat where "BUF_WORDS = 16384"

text \<open>The checksum, the generator and the load-dependent index.\<close>

type_synonym pass = "u64 \<times> u32 \<times> u32"

definition be_index :: "bool \<Rightarrow> u32 \<Rightarrow> u32 \<Rightarrow> nat" where
  "be_index dep idx lin = unat ((if dep then idx else drop_bit 8 lin) AND (of_nat BUF_WORDS - 1))"

text \<open>\<open>*(const uint8_t *)p\<close> is the low byte of the word, the host being little-endian.\<close>

definition be_step :: "nat \<Rightarrow> bool \<Rightarrow> u32 list \<Rightarrow> pass \<Rightarrow> pass outcome" where
  "be_step kind dep buf = (\<lambda>(sum, lin, idx).
    let lin = lin * 1664525 + 1013904223
    in bindE (array_get buf (be_index dep idx lin)) (\<lambda>w.
       let v = (if kind = 0 then ld_le w else if kind = 1 then ld_bswap w else ld_rot w)
       in Inr (sum + ucast v, lin, idx * 5 + ucast (ucast w :: u8) + 1)))"

definition be_run :: "nat \<Rightarrow> bool \<Rightarrow> u32 \<Rightarrow> u32 list \<Rightarrow> u64 outcome" where
  "be_run kind dep iters buf =
    bindE (sprint (be_step kind dep buf) (unat iters) (0, 0x9E3779B9, 0)) (\<lambda>(sum, lin, idx). Inr sum)"

section \<open>The main program\<close>

primrec be_fill :: "nat \<Rightarrow> u32 \<Rightarrow> u32 list" where
  "be_fill 0 s = []"
| "be_fill (Suc n) s = (let s = s * 1664525 + 1013904223 in s # be_fill n s)"

text \<open>The checksum printed for one kind: that of the last of the repetitions.\<close>

primrec be_reps :: "nat \<Rightarrow> nat \<Rightarrow> bool \<Rightarrow> u32 \<Rightarrow> u32 list \<Rightarrow> u64 \<Rightarrow> u64 outcome" where
  "be_reps 0 kind dep iters buf acc = Inr acc"
| "be_reps (Suc r) kind dep iters buf acc =
    bindE (be_run kind dep iters buf) (be_reps r kind dep iters buf)"

definition be_kinds :: "bool \<Rightarrow> u32 \<Rightarrow> u32 list \<Rightarrow> u64 list outcome" where
  "be_kinds dep iters buf =
    bindE (be_reps 5 0 dep iters buf 0) (\<lambda>le. bindE (be_reps 5 1 dep iters buf 0) (\<lambda>bs.
    bindE (be_reps 5 2 dep iters buf 0) (\<lambda>rot. Inr [le, bs, rot])))"

definition be_main :: "u32 \<Rightarrow> u64 list outcome" where
  "be_main iters =
    (let buf = be_fill BUF_WORDS 12345
     in bindE (be_kinds False iters buf) (\<lambda>c1. bindE (be_kinds True iters buf) (\<lambda>c2. Inr (c1 @ c2))))"

section \<open>What the passes compute\<close>

lemma bit_FF00FF00: "bit (0xFF00FF00 :: u32) n \<longleftrightarrow> n < 32 \<and> (8 \<le> n \<and> n < 16 \<or> 24 \<le> n)"
proof -
  have "(0xFF00FF00 :: u32) = push_bit 8 (mask 8) OR push_bit 24 (mask 8)"
    by (simp add: mask_eq_exp_minus_1 push_bit_eq_mult)
  then show ?thesis by (simp only: bit_simps) auto
qed

lemma bit_00FF00FF: "bit (0x00FF00FF :: u32) n \<longleftrightarrow> n < 8 \<or> 16 \<le> n \<and> n < 24"
proof -
  have "(0x00FF00FF :: u32) = mask 8 OR push_bit 16 (mask 8)"
    by (simp add: mask_eq_exp_minus_1 push_bit_eq_mult)
  then show ?thesis by (simp only: bit_simps) auto
qed

theorem ld_rot_bswap: "ld_rot x = ld_bswap x"
proof (rule bit_word_eqI)
  fix n assume "n < LENGTH(32)"
  then obtain k where "k < 8" "n = k \<or> n = k + 8 \<or> n = k + 16 \<or> n = k + 24"
    using byte_of_position by auto
  then show "bit (ld_rot x) n = bit (ld_bswap x) n"
    unfolding ld_rot_def ld_bswap_def bswap32_def Let_def bit_or_iff bit_and_iff
      bit_FF00FF00 bit_00FF00FF
    using bit_imp_le_length [of x "40 + k"] bit_imp_le_length [of x "32 + k"]
    by (elim disjE) (auto simp: bit_simps)
qed

lemma be_step_swaps: "be_step (Suc (Suc 0)) dep buf = be_step (Suc 0) dep buf"
  by (rule ext) (simp add: be_step_def ld_rot_bswap)

lemma length_be_fill [simp]: "length (be_fill n s) = n"
  by (induction n arbitrary: s) (simp_all add: Let_def)

lemma be_index_bound: "be_index dep idx lin < BUF_WORDS"
  using and_le_unat [of "if dep then idx else drop_bit 8 lin" "of_nat BUF_WORDS - 1"]
  by (simp add: be_index_def BUF_WORDS_def)

text \<open>No access is out of bounds, so every pass returns.\<close>

interpretation be_progress: sprint_progress "be_step kind dep buf"
    "\<lambda>n s. length buf = BUF_WORDS" "\<lambda>s. True" for kind dep buf
  by unfold_locales (auto simp: be_step_def Let_def be_index_bound)

lemma be_run_total: "length buf = BUF_WORDS \<Longrightarrow> \<exists>sum. be_run kind dep iters buf = Inr sum"
  using be_progress.sprint_total [of buf kind dep "unat iters" "(0, 0x9E3779B9, 0)"]
  by (auto simp: be_run_def)

lemma be_reps_total:
  "length buf = BUF_WORDS \<Longrightarrow> \<exists>sum. be_reps r kind dep iters buf s = Inr sum"
proof (induction r arbitrary: s)
  case (Suc r)
  then obtain sum where "be_run kind dep iters buf = Inr sum"
    using be_run_total by blast
  with Suc show ?case by simp
qed simp

text \<open>Two variants walk the same addresses.\<close>

interpretation be_kinds: sprint_sim "be_step kind dep buf" "be_step kind' dep buf"
    "\<lambda>s. True" "(=)" "\<lambda>(sum, lin, idx) (sum', lin', idx'). lin' = lin \<and> idx' = idx" for kind kind' dep buf
  by unfold_locales (auto simp: be_step_def Let_def array_get_def split: prod.splits)

lemma be_reps_swaps: "be_reps r 2 dep iters buf s = be_reps r 1 dep iters buf s"
  by (induction r arbitrary: s)
    (auto simp: be_run_def be_step_swaps numeral_2_eq_2 intro: bindE_cong)

end
