(* ===== verification/Spec2Isabelle.thy ===== *)
theory Spec2Isabelle
  imports PPC_Selfcheck PPC_Meaning M68K_Selfcheck M68K_Invariants M68K_Meaning Run_Composition Byte_Swap
begin

text \<open>
  A verification development for emu-core-bench: interpreter cores of two guest machines, a
  PowerPC subset (\<open>src/ppc\<close>, six backends) and a 68000 subset (\<open>src/m68k\<close>, three backends),
  over one guest-memory fast path (\<open>src/common\<close>), with two benchmark programs that first
  check the backends against each other and then time them, and a micro benchmark of
  byte-swapped loads (\<open>src/micro\<close>).

  \<^bold>\<open>The model.\<close> C integers keep their width: \<open>u8\<close>, \<open>u16\<close>, \<open>u32\<close> and \<open>u64\<close> are
  machine words. A function that can end the program returns \<open>'a outcome\<close>, \<open>Inl\<close> the trap (the
  call of \<open>exit\<close> or of \<open>trap\<close>) or \<open>Inr\<close> the result. State is passed explicitly: the environment
  of guest memory \<open>mem_env\<close> (the global tables of \<open>mem_env.c\<close> and the bytes of the host), the
  CPU records \<open>ppc\<close> and \<open>m68k\<close>, and the static tables of the predecoding backends, which survive
  from one run to the next as they do in the program.

  \<^item> \<open>Prelude\<close>: words, outcomes, \<open>bindE\<close> and the collections of rules.
  \<^item> \<open>Guest_Memory\<close>: \<open>common/mem_fastpath.h\<close>, \<open>common/mem_env.c\<close>. Page tables of adjusted
    host addresses, fast and slow paths, big-endian access; \<open>malloc\<close> is an argument of
    \<open>mem_env_init\<close>. Reads and writes against the flat memory \<open>ram_at\<close>.
  \<^item> \<open>Sprint\<close>: the loop \<open>while (n > 0)\<close> all backends share, as \<open>sprint\<close>, with locales for what
    holds along a run (\<open>sprint_invariant\<close>), for loops in lock step (\<open>sprint_sim\<close>) and for
    loops that never trap (\<open>sprint_progress\<close>); every backend interprets them.
  \<^item> \<open>PPC_Ops\<close> (\<open>ppc_bench.h\<close>, \<open>ppc_ops.h\<close>, \<open>ppc_switch.c\<close>), \<open>PPC_Threaded\<close>
    (\<open>ppc_tail.c\<close>, \<open>ppc_call.c\<close>), \<open>PPC_Predecode\<close> (\<open>ppc_predecode.c\<close>), \<open>PPC_Pdx\<close>
    (\<open>ppc_pdx_impl.h\<close>, both builds: \<open>wide\<close> is \<open>PDX_WIDE\<close>): the backends, each shown to run
    in lock step with the switch. \<open>PPC_Runs\<close> lifts this to the functions the program calls.
  \<^item> \<open>PPC_Meaning\<close>, \<open>PPC_Invariants\<close>: what the bodies compute in integers and bit numbers; the
    type invariant of the CPU state and the bounds of decoded register offsets.
  \<^item> \<open>Bench_Harness\<close>, \<open>PPC_Asm\<close>, \<open>PPC_Harness\<close>, \<open>PPC_Kernels\<close>, \<open>PPC_Selfcheck\<close>:
    \<open>ppc/bench_main.c\<close>. Encoders and their inverses, the three kernels, the state hash,
    \<open>main\<close>; each kernel has an invariant under which no step traps or writes the code.
  \<^item> \<open>M68K_Ops\<close> (\<open>m68k_bench.h\<close>, \<open>m68k_ops.h\<close>), \<open>M68K_Switch\<close> (\<open>m68k_switch.c\<close>),
    \<open>M68K_Predecode\<close> (\<open>m68k_pd_impl.h\<close>, both builds: \<open>elide\<close> is \<open>M68K_ELIDE\<close>):
    the 68k backends. \<open>M68K_Tables\<close>: the length of each decoded entry, and what the linear
    sweep and the elision pass leave in the table. \<open>M68K_Agree\<close>, \<open>M68K_Elide\<close>: B is in lock step with A; C is so up to the flags N, Z, V
    and C, which agree wherever an instruction reads them. \<open>M68K_Invariants\<close>: the type invariant.
  \<^item> \<open>M68K_Harness\<close>, \<open>M68K_Kernels\<close>, \<open>M68K_Selfcheck\<close>: \<open>m68k/bench_main.c\<close>.
    Assembler, the three kernels, both hashes, \<open>main\<close>; each kernel has an invariant under
    which no step traps.
  \<^item> \<open>M68K_Stress\<close>: the third kernel, 8192 instructions drawn from the generator \<open>lcg\<close>. What
    one round of the loop assembles is one of a few forms, each of which goes on to the next
    instruction (\<open>M68K_Opcodes\<close>). Where the instructions lie is computed, in \<open>M68K_Walk\<close>, by
    rewriting with the generator on bit lists (\<open>Bit_Lists\<close>): 11286 words in all, and no
    32-bit immediate straddles a page, on which the predecoding backends would stop.
  \<^item> \<open>M68K_Meaning\<close>: what shifts and \<open>dbra\<close> compute; each of the 34 assembler macros decodes to
    the entry it stands for; the branches only the switch accepts.
  \<^item> \<open>Run_Composition\<close>: runs compose (locale \<open>stored_pc\<close>), for both lanes' switches.
  \<^item> \<open>Byte_Swap\<close>: \<open>micro/be_micro.c\<close>.

  \<^bold>\<open>Correspondence.\<close> Definitions carry the names of the C functions and macros; a prefix
  (\<open>m68k_\<close>, \<open>asm_\<close>) or a suffix keeps two files apart. An X-macro list is a list
  (\<open>PPC_PRIMARY\<close>, \<open>M68K_ELIDABLE\<close>), its stamps are one function over it. Pointers into a
  table (\<open>cur\<close>) are indices, and the pc of a predecoding backend is the index
  scaled back, as on its exit path. A write behind \<open>gpr[]\<close> reaches \<open>zero_base\<close>, in \<open>set_gpr\<close>
  as in \<open>GPRO\<close>.

  \<^bold>\<open>Bounds and fuel.\<close> No definition uses fuel: the run loops recurse on the budget, the table
  loops on what is left of the table, \<open>mem_env_init\<close> on the number of pages. The equivalence
  theorems hold for every program, budget and table under explicit conditions, which \<open>stays\<close>
  states for the instructions the run really reaches: the code is in the decoded 256 KB, it is
  not overwritten, and the instruction is one both decoders know.

  \<^bold>\<open>The properties\<close> below: the two self checks succeed; the backends agree in general, with
  the cases in which they do not; guest memory is the flat big-endian array it stands for; what
  instructions mean; decoders stay in bounds and terminate; encoders and decoders are inverse.

  \<^bold>\<open>Not modelled.\<close> Output (\<open>printf\<close>), the clock and the MIPS figures, the parsing of \<open>argv\<close>
  (budget and repetitions are arguments), the compile-time alias of the tail backend in a
  build without tail calls, host accesses outside the blocks \<open>malloc\<close> returned, the
  JavaScript runner \<open>tools/run_browsers.mjs\<close> and the Makefile. Signed overflow of
  \<open>mulli\<close>, undefined in C, wraps in the model.
\<close>

unbundle bit_operations_syntax

section \<open>A sample program\<close>

text \<open>
  \<open>addi r3,0,5; b .-4\<close> at guest address 0 of a 256 KB RAM: the state at which the
  theorems below are applied.
\<close>

definition demo_env :: mem_env where
  "demo_env = \<lparr>address_mask = 0x3FFFF, active_read = replicate 64 0x10000,
     active_write = replicate 64 0x10000, value_trap_active = 0, value_trap_value = 0,
     value_trap_size = 0, g_ram = 0x10000,
     host = (\<lambda>p. 0)(0x10000 := 0x38, 0x10001 := 0x60, 0x10003 := 5,
                    0x10004 := 0x4B, 0x10005 := 0xFF, 0x10006 := 0xFF, 0x10007 := 0xFC)\<rparr>"
definition demo_ppc :: ppc where
  "demo_ppc = \<lparr>gpr = replicate 32 0, zero_base = 0, ppc_pc = 0, lr = 0, ctr = 0, cr = 0, xer_ca = 0\<rparr>"
lemma demo_mapped: "region_mapped demo_env"
  by (auto simp: region_mapped_def wf_env_def demo_env_def)
lemma demo_fetch: "memory_read_uint32 demo_env 0 = Inr 0x38600005"
   "memory_read_uint32 demo_env 4 = Inr 0x4BFFFFFC"
  using region_fetch [OF demo_mapped, of 0] region_fetch [OF demo_mapped, of 4]
  by (simp_all add: aligned4_def pd_region) (simp_all add: be32_def ram_at_def demo_env_def)
lemma demo_steps: 
  "switch_step (demo_ppc, demo_env, 0) = Inr (demo_ppc\<lparr>gpr := (replicate 32 0)[3 := 5]\<rparr>, demo_env, 4)"
  "switch_step (demo_ppc\<lparr>gpr := (replicate 32 0)[3 := 5]\<rparr>, demo_env, 4)
    = Inr (demo_ppc\<lparr>gpr := (replicate 32 0)[3 := 5]\<rparr>, demo_env, 0)"
   apply (simp_all add: switch_step_def demo_fetch switch_dispatch_def PPC_PRIMARY_def
    gen_addi_def gen_b_def P_RD_def P_RA_def P_SIMM_def sext16_def set_gpr_def base_or_zero_def Let_def)
   apply (simp_all add: demo_ppc_def)
  done
lemma demo_pc: "ppc_pc demo_ppc = 0" by (simp add: demo_ppc_def)
lemma demo_stays: "stays (pdx_run_ok demo_env) switch_step 2 (demo_ppc, demo_env, ppc_pc demo_ppc)"
  by (simp add: demo_steps demo_pc pdx_run_ok_def fetch_ok_def pd_region demo_fetch
    pdx_exact_def)

definition demo_tables :: ppc_tables where
  "demo_tables = \<lparr>g_pd = replicate PD_ENTRIES (pd_entry 0 0),
     pdx8_tab = replicate PD_ENTRIES (pdx_blank 0), pdx16_tab = replicate PD_ENTRIES (pdx_blank 0)\<rparr>"

lemma demo_tables_ok: "tables_ok demo_tables"
  by (simp add: demo_tables_def tables_ok_def)

lemma demo_wf: "wf_env demo_env"
  using demo_mapped by (simp add: region_mapped_def)

definition bench_demo :: mem_env where
  "bench_demo = demo_env\<lparr>address_mask := 0x7FFFFF, active_read := replicate 2048 0x10000,
     active_write := replicate 2048 0x10000\<rparr>"

lemma bench_demo: "bench_env bench_demo"
  by (auto simp: bench_env_def wf_env_def bench_demo_def demo_env_def layout)

text \<open>A kernel of the 68k benchmark, set up in that environment.\<close>

definition demo_m68k :: "m68k \<times> mem_env" where
  "demo_m68k = m68k_setup_kernel 0 bench_demo"

definition demo_mpd :: mpd_tables where
  "demo_mpd = (replicate MPD_ENTRIES (m68k_blank 0), replicate MPD_ENTRIES 0)"

lemma demo_mpd_ok: "mpd_tables_ok demo_mpd"
  by (simp add: demo_mpd_def mpd_tables_ok_def)

lemma demo_m68k_state: "m68k_kernel_state 0 (snd demo_m68k) n (fst demo_m68k, snd demo_m68k, m68k_pc (fst demo_m68k))"
  using m68k_setup_ok(1) [OF bench_demo, of 0 "fst demo_m68k" "snd demo_m68k"] by (simp add: demo_m68k_def)

lemma demo_m68k_fits: "mpd_fits (snd demo_m68k) 0"
  using demo_m68k_state by (rule m68k_state_fits)

lemma demo_m68k_stays: "stays (mpd_run_ok (snd demo_m68k)) m68k_step n
    (fst demo_m68k, snd demo_m68k, m68k_pc (fst demo_m68k))"
  using demo_m68k_state by (rule m68k_kernel_run(2))

lemma demo_m68k_cpu: "fst demo_m68k = m68k_reset\<lparr>m68k_pc := CODE_BASE\<rparr>"
  by (simp add: demo_m68k_def m68k_setup_kernel_def Let_def split: prod.split)

text \<open>An \<open>xoris r4,r3,1\<close> at address 0.\<close>

definition demo_xoris :: mem_env where
  "demo_xoris = demo_env\<lparr>host := (\<lambda>p. 0)(0x10000 := 0x6C, 0x10001 := 0x64, 0x10003 := 0x01)\<rparr>"

text \<open>A \<open>move.l #imm,d0\<close> whose immediate straddles the end of the first page.\<close>

definition demo_straddle :: mem_env where
  "demo_straddle = demo_env\<lparr>host := (\<lambda>p. 0)(0x10FFC := 0x20, 0x10FFD := 0x3C)\<rparr>"

section \<open>The benchmarks succeed\<close>

text \<open>
  C1. The PowerPC benchmark program exits with status 0: when its three allocations succeed
  and the budget is at most 2^31 - 1 instructions, no run of any of the six backends on any
  of the three kernels traps, and the self check finds no divergence, whatever the globals
  held before.
\<close>

theorem ppc_bench_main_succeeds:
  assumes "unat bench_budget \<le> 0x7FFFFFFF" and "tables_ok t"
    and "ram \<noteq> 0" "rd \<noteq> 0" "wr \<noteq> 0"
  shows "bench_main bench_budget reps (ram, rd, wr) (m, t) = Inr 0"
  using assms by (rule bench_main_ok)

theorem ppc_bench_main_succeeds_witness:
  "bench_main 100000000 5 (0x10000, 0x20, 0x30) (demo_env, demo_tables) = Inr 0"
  by (rule ppc_bench_main_succeeds) (simp_all add: demo_tables_ok)

text \<open>
  C2. The 68k benchmark program exits with status 0: when its three allocations succeed, no
  run of the three backends on the alu, the mem or the generated dispatch-stress kernel
  traps, and the self check finds no divergence, for every budget and whatever the globals
  held before.
\<close>

theorem m68k_bench_main_succeeds:
  assumes "m68k_tables_ok t" and "ram \<noteq> 0" "rd \<noteq> 0" "wr \<noteq> 0"
  shows "m68k_bench_main bench_budget reps (ram, rd, wr) (g, t) = Inr 0"
  using assms by (rule m68k_bench_main_ok)

theorem m68k_bench_main_succeeds_witness:
  "m68k_bench_main 100000000 5 (0x10000, 0x20, 0x30)
     (demo_env, \<lparr>tab_pd = demo_mpd, tab_elide = demo_mpd\<rparr>) = Inr 0"
  by (rule m68k_bench_main_succeeds) (simp_all add: m68k_tables_ok_def demo_mpd_ok)

text \<open>
  C3. The 68k kernels can be benchmarked in any order and any number of times: a kernel's
  runs leave globals from which every other succeeds, with no divergence in the self check
  (all flags for A and B, the hash without condition codes for C), whatever RAM and the
  static tables held before.
\<close>

theorem m68k_bench_kernels_succeed:
  assumes "bench_env g" and "m68k_tables_ok t"
  shows "m68k_bench_kernels ks bench_budget reps (g, t) = Inr 0"
  using assms by (rule m68k_bench_kernels_ok)

theorem m68k_bench_kernels_succeed_witness:
  "m68k_bench_kernels [2, 0, 2, 1] 100000000 5 (bench_demo, \<lparr>tab_pd = demo_mpd, tab_elide = demo_mpd\<rparr>) = Inr 0"
  by (rule m68k_bench_kernels_succeed) (simp_all add: bench_demo m68k_tables_ok_def demo_mpd_ok)

text \<open>
  C4. Started on any of the kernels as the harness sets it up, each of the six backends
  executes the whole budget without a trap, and all leave the same CPU state and the same
  memory.
\<close>

theorem ppc_backends_agree_on_kernels:
  assumes "bench_env m" and "setup_kernel k m = (c, m1)"
    and "unat budget \<le> 0x7FFFFFFF" and "tables_ok t"
  shows "\<exists>c' m'. \<forall>f\<in>set g_backends. \<exists>t'. f c (m1, t) budget = Inr (c', m', t')"
  using backends_on_kernel [OF assms(1-3)] assms(4) by blast

theorem ppc_backends_agree_on_kernels_witness:
  "\<exists>c' m'. \<forall>f\<in>set g_backends. \<exists>t'. f (fst (setup_kernel 2 bench_demo))
     (snd (setup_kernel 2 bench_demo), demo_tables) 1000 = Inr (c', m', t')"
  by (rule ppc_backends_agree_on_kernels) (simp_all add: bench_demo demo_tables_ok)

text \<open>
  C5. On each of the three kernels every backend returns for every budget: the switch and
  the predecoded loop with the same state and memory, the flag-eliding loop with a state
  that differs at most in N, Z, V and C.
\<close>

theorem m68k_backends_agree_on_kernels:
  assumes "bench_env g" and "m68k_setup_kernel k g = (m, g1)"
    and "mpd_tables_ok t1" and "mpd_tables_ok t2"
  shows "\<exists>m' g' me t1' t2'. m68k_run_switch m g1 budget = Inr (m', g')
    \<and> m68k_run_pd t1 m g1 budget = Inr (m', g', t1')
    \<and> m68k_run_pd_elide t2 m g1 budget = Inr (me, g', t2') \<and> same_but_nzvc m' me"
  using m68k_backends_on_kernel [OF assms(1,2)] assms(3,4) by metis

theorem m68k_backends_agree_on_kernels_witness:
  "\<exists>m' g' me t1' t2'. m68k_run_switch (fst demo_m68k) (snd demo_m68k) 1000 = Inr (m', g')
    \<and> m68k_run_pd demo_mpd (fst demo_m68k) (snd demo_m68k) 1000 = Inr (m', g', t1')
    \<and> m68k_run_pd_elide demo_mpd (fst demo_m68k) (snd demo_m68k) 1000 = Inr (me, g', t2')
    \<and> same_but_nzvc m' me"
  using m68k_backends_agree_on_kernels [OF bench_demo, of 0 "fst demo_m68k" "snd demo_m68k" demo_mpd demo_mpd 1000]
  by (simp add: demo_mpd_ok demo_m68k_def)

section \<open>The PowerPC backends agree\<close>

text \<open>
  C6. The pre-extracting backends E (narrow) and F (wide) compute what the big switch
  computes, on runs that fetch unmodified aligned words of the decoded region and execute
  neither xoris nor an update form with rA = 0; when the run stops on an illegal instruction
  both name the same word (the pc they print may differ).
\<close>

theorem ppc_run_pdx_switch:
  assumes "length tab0 = PD_ENTRIES" and "region_mapped m"
    and "zero_base c = 0" and "aligned4 (ppc_pc c)"
    and "stays (pdx_run_ok m) switch_step (unat budget) (c, m, ppc_pc c)"
  shows "rel_sum same_trap same_result (ppc_run_switch c m budget) (ppc_run_pdx wide tab0 c m budget)"
  using assms by (rule run_pdx_sim)

theorem ppc_run_pdx_switch_witness:
  "rel_sum same_trap same_result (ppc_run_switch demo_ppc demo_env 2)
    (ppc_run_pdx True (replicate PD_ENTRIES (pdx_blank 0)) demo_ppc demo_env 2)"
proof (rule ppc_run_pdx_switch)
  show "zero_base demo_ppc = 0"
    by (simp add: demo_ppc_def)
  show "stays (pdx_run_ok demo_env) switch_step (unat (2 :: u32)) (demo_ppc, demo_env, ppc_pc demo_ppc)"
    using demo_stays by (simp del: stays_numeral)
qed (simp_all add: demo_mapped demo_pc aligned4_def)

text \<open>
  C7. Raw predecode (backend D) computes exactly what the big switch computes, whatever its
  static table held before, provided the run fetches aligned words of the decoded region
  that were not modified since they were decoded.
\<close>

theorem ppc_run_pd_switch:
  assumes "length tab0 = PD_ENTRIES" and "region_mapped m"
    and "stays (fetch_ok m) switch_step (unat budget) (c, m, ppc_pc c)"
  shows "\<exists>tab. length tab = PD_ENTRIES \<and>
    ppc_run_pd tab0 c m budget = bindE (ppc_run_switch c m budget) (\<lambda>(c, m). Inr (c, m, tab))"
  using assms by (rule run_pd_eq)

theorem ppc_run_pd_switch_witness:
  "\<exists>tab. length tab = PD_ENTRIES \<and> ppc_run_pd (replicate PD_ENTRIES (pd_entry 0 0)) demo_ppc demo_env 2
    = bindE (ppc_run_switch demo_ppc demo_env 2) (\<lambda>(c, m). Inr (c, m, tab))"
proof (rule ppc_run_pd_switch)
  have "stays (fetch_ok demo_env) switch_step 2 (demo_ppc, demo_env, ppc_pc demo_ppc)"
    by (rule stays_mono [OF _ demo_stays]) (simp add: pdx_run_ok_def)
  then show "stays (fetch_ok demo_env) switch_step (unat (2 :: u32)) (demo_ppc, demo_env, ppc_pc demo_ppc)"
    by (simp del: stays_numeral)
qed (simp_all add: demo_mapped)

text \<open>
  C8. Tail-call threading (backend B) computes exactly what the big switch (backend A)
  computes: same final CPU state and memory, same trap, for every state and budget.
\<close>

theorem ppc_run_tail_switch: "ppc_run_tail c m budget = ppc_run_switch c m budget"
  by (rule run_tail_eq)

text \<open>
  C9. Call threading (backend C) computes exactly what the big switch computes, for every
  state and budget.
\<close>

theorem ppc_run_call_switch: "ppc_run_call c m budget = ppc_run_switch c m budget"
  by (rule run_call_eq)

text \<open>
  C10. A run whose instructions are fetched, aligned, from the decoded region and whose
  stores avoid that region finds, at every instruction, the word that was in memory when the
  run started: the condition under which the predecoding backends are exact.
\<close>

theorem ppc_code_unmodified:
  assumes "region_mapped m" and "stays step_in_region switch_step n (c, m, pc)"
  shows "stays (fetch_ok m) switch_step n (c, m, pc)"
  using assms by (rule stays_fetch_ok)

theorem ppc_code_unmodified_witness:
  "stays (fetch_ok demo_env) switch_step 2 (demo_ppc, demo_env, 0)"
proof (rule ppc_code_unmodified)
  show "stays step_in_region switch_step 2 (demo_ppc, demo_env, 0)"
    by (simp add: demo_steps step_in_region_def step_store_def demo_fetch PPC_PRIMARY_def
      aligned4_def pd_region)
qed (rule demo_mapped)

text \<open>
  C11. The decoded table depends only on the memory that is decoded, not on what the static
  table held before: entry i is the decoding of the word at address 4 i.
\<close>

theorem predecode_forgets:
  assumes "predecode entry m 0 tab0 = Inr tab" and "length tab0 = PD_ENTRIES"
  shows "length tab = PD_ENTRIES \<and> (\<forall>i < PD_ENTRIES. \<exists>insn.
    memory_read_uint32 m (of_nat (4 * i)) = Inr insn \<and> tab ! i = entry (of_nat (4 * i)) insn)"
  using predecode_lookup [of entry m 0 tab0 tab] assms by simp

theorem predecode_forgets_witness:
  "\<exists>tab. predecode pd_entry demo_env 0 (replicate PD_ENTRIES (pd_entry 0 0)) = Inr tab
    \<and> tab ! 1 = pd_entry 4 0x4BFFFFFC"
proof -
  obtain tab where tab: "predecode pd_entry demo_env 0 (replicate PD_ENTRIES (pd_entry 0 0)) = Inr tab"
    using region_predecode [OF demo_mapped, of "replicate PD_ENTRIES (pd_entry 0 0)"] by auto
  have "1 < PD_ENTRIES" by (simp add: pd_region)
  with predecode_forgets [OF tab] demo_fetch(2) have "tab ! 1 = pd_entry 4 0x4BFFFFFC"
    by fastforce
  with tab show ?thesis by blast
qed

section \<open>The 68k backends agree\<close>

text \<open>
  C12. The predecoded 68k loop (backend B) computes what the switch (backend A) computes,
  flags included, whatever its static table held before, on runs that execute instructions
  the sweep met and decoded, unmodified since; of the final pc it forgets bit 0.
\<close>

theorem m68k_run_pd_switch:
  assumes "mpd_fits g 0" and "mpd_tables_ok t"
    and "stays (mpd_run_ok g) m68k_step (unat budget) (m, g, m68k_pc m)"
  shows "\<exists>t'. mpd_tables_ok t' \<and> m68k_run_pd t m g budget =
    bindE (m68k_run_switch m g budget) (\<lambda>(m, g).
      Inr (m\<lparr>m68k_pc := push_bit 1 (drop_bit 1 (m68k_pc m))\<rparr>, g, t'))"
proof -
  obtain tab lens where "mpd_sweep False g 0 t = Inr (tab, lens)" "mpd_tables_ok (tab, lens)"
    using mpd_sweep_ok [OF assms(1,2), of False] by fastforce
  with m68k_run_pd_eq [OF _ assms(3)] show ?thesis by blast
qed

theorem m68k_run_pd_switch_witness:
  "\<exists>t'. mpd_tables_ok t' \<and> m68k_run_pd demo_mpd (fst demo_m68k) (snd demo_m68k) 1000 =
    bindE (m68k_run_switch (fst demo_m68k) (snd demo_m68k) 1000) (\<lambda>(m, g).
      Inr (m\<lparr>m68k_pc := push_bit 1 (drop_bit 1 (m68k_pc m))\<rparr>, g, t'))"
  by (rule m68k_run_pd_switch) (rule demo_m68k_fits demo_mpd_ok demo_m68k_stays)+

text \<open>
  C13. Dead-flag elision (backend C) refines the switch on the runs of the predecoded loop's
  conditions: the same traps, the same memory, and the switch's final state but for two
  things. Of the final pc bit 0 is forgotten, as by the predecoded loop:
  \<open>elide_result\<close> compares with the switch's state after clearing it (a branch
  to an odd address as the last instruction shows it). N, Z, V and C may differ, and only if
  the run ended just before an instruction that overwrites all four.
\<close>

theorem m68k_run_elide_refines:
  assumes "mpd_fits g 0" and "mpd_tables_ok t"
    and "stays (mpd_run_ok g) m68k_step (unat budget) (m, g, m68k_pc m)"
  shows "rel_sum (=) (elide_result g) (m68k_run_switch m g budget) (m68k_run_pd_elide t m g budget)"
proof -
  obtain tab lens where "mpd_sweep True g 0 t = Inr (tab, lens)"
    using mpd_sweep_ok [OF assms(1,2), of True] by fastforce
  from m68k_run_pd_elide_rel [OF this assms(3)] show ?thesis .
qed

theorem m68k_run_elide_refines_witness:
  "rel_sum (=) (elide_result (snd demo_m68k)) (m68k_run_switch (fst demo_m68k) (snd demo_m68k) 1000)
    (m68k_run_pd_elide demo_mpd (fst demo_m68k) (snd demo_m68k) 1000)"
  by (rule m68k_run_elide_refines) (rule demo_m68k_fits demo_mpd_ok demo_m68k_stays)+

text \<open>
  C14. When every instruction the linear sweep meets decodes and ends inside the 256 KB
  region, the sweep and the pass that marks dead flags return, write only inside their
  tables, and keep the tables' lengths.
\<close>

theorem m68k_predecode_returns:
  assumes "mpd_fits g 0" and "mpd_tables_ok t"
  shows "\<exists>tab lens tab'. mpd_sweep True g 0 t = Inr (tab, lens) \<and> mpd_tables_ok (tab, lens)
    \<and> mpd_elide_pass lens 0 tab = Inr tab' \<and> length tab' = MPD_ENTRIES"
proof -
  obtain tab lens where sweep: "mpd_sweep True g 0 t = Inr (tab, lens)" "mpd_tables_ok (tab, lens)"
    using mpd_sweep_ok [OF assms, of True] by fastforce
  with mpd_elide_pass_Inr [of g 0 tab lens] mpd_sweep_table_of [OF sweep(1)] show ?thesis
    by (auto simp: mpd_tables_ok_def)
qed

theorem m68k_predecode_returns_witness:
  "\<exists>tab lens tab'. mpd_sweep True (snd demo_m68k) 0 demo_mpd = Inr (tab, lens) \<and> mpd_tables_ok (tab, lens)
    \<and> mpd_elide_pass lens 0 tab = Inr tab' \<and> length tab' = MPD_ENTRIES"
  by (rule m68k_predecode_returns) (rule demo_m68k_fits demo_mpd_ok)+

section \<open>Runs compose\<close>

text \<open>
  C15. Runs of the switch interpreters compose: a run of n + k instructions returns a state
  exactly when a run of n instructions followed, from the state it leaves, by one of k
  instructions does. The pc kept in a local variable meanwhile is what the second run picks
  up, and no instruction reads the stale one in the CPU state.
\<close>

theorem runs_compose:
  assumes "unat n + unat k < 2 ^ 32"
  shows "(ppc_run_switch c m (n + k) = Inr (c', m') \<longleftrightarrow>
      (\<exists>c1 m1. ppc_run_switch c m n = Inr (c1, m1) \<and> ppc_run_switch c1 m1 k = Inr (c', m'))) \<and>
    (m68k_run_switch cpu g (n + k) = Inr (cpu', g') \<longleftrightarrow>
      (\<exists>cpu1 g1. m68k_run_switch cpu g n = Inr (cpu1, g1) \<and> m68k_run_switch cpu1 g1 k = Inr (cpu', g')))"
  by (intro conjI ppc_run_switch_add m68k_run_switch_add assms)

theorem runs_compose_witness:
  "ppc_run_switch demo_ppc demo_env 2 = Inr (demo_ppc\<lparr>gpr := (replicate 32 0)[3 := 5]\<rparr>, demo_env) \<and>
   (\<exists>c1 m1. ppc_run_switch demo_ppc demo_env 1 = Inr (c1, m1) \<and>
     ppc_run_switch c1 m1 1 = Inr (demo_ppc\<lparr>gpr := (replicate 32 0)[3 := 5]\<rparr>, demo_env))"
proof -
  have run: "ppc_run_switch demo_ppc demo_env (1 + 1) = Inr (demo_ppc\<lparr>gpr := (replicate 32 0)[3 := 5]\<rparr>, demo_env)"
    by (simp add: ppc_run_switch_def demo_pc demo_steps)
  with runs_compose [of 1 1 demo_ppc demo_env, THEN conjunct1] show ?thesis by simp
qed

section \<open>Guest memory\<close>

text \<open>
  C16. The fast path refines a flat big-endian memory: a read returns the bytes at the
  masked address, most significant first, unless it would cross a page boundary, which stops
  the run.
\<close>

theorem memory_reads_flat:
  assumes "wf_env m"
  shows "memory_read_uint8 m a = Inr (ram_at m (masked m a))
    \<and> memory_read_uint16 m a = (if in_page 2 (masked m a) then Inr (be16 (ram_at m) (masked m a))
        else Inl (SlowPath Read16 (masked m a)))
    \<and> memory_read_uint32 m a = (if in_page 4 (masked m a) then Inr (be32 (ram_at m) (masked m a))
        else Inl (SlowPath Read32 (masked m a)))"
  using assms by (simp add: memory_read_uint8_flat memory_read_uint16_flat memory_read_uint32_flat)

theorem memory_reads_flat_witness:
  "memory_read_uint8 demo_env 0x40004 = Inr 0x4B
    \<and> memory_read_uint16 demo_env 4 = Inr 0x4BFF \<and> memory_read_uint32 demo_env 4 = Inr 0x4BFFFFFC"
  using memory_reads_flat [OF demo_wf, of "0x40004"] memory_reads_flat [OF demo_wf, of 4]
  by (simp add: masked_def in_page_def page_geometry demo_env_def ram_at_def be16_def be32_def)

text \<open>
  C17. A write replaces exactly the bytes of its operand in the flat memory, big-endian, and
  keeps the environment well-formed; one that would cross a page boundary writes nothing and
  stops the run.
\<close>

theorem memory_writes_flat:
  assumes "wf_env m"
  shows "(\<exists>m'. memory_write_uint8 m a b = Inr m' \<and> wf_env m' \<and> ram_at m' = (ram_at m)(masked m a := b))
    \<and> (if in_page 2 (masked m a)
       then \<exists>m'. memory_write_uint16 m a h = Inr m' \<and> wf_env m' \<and> ram_at m' = put16 (ram_at m) (masked m a) h
       else memory_write_uint16 m a h = Inl (SlowPath Write16 (masked m a)))
    \<and> (if in_page 4 (masked m a)
       then \<exists>m'. memory_write_uint32 m a w = Inr m' \<and> wf_env m' \<and> ram_at m' = put32 (ram_at m) (masked m a) w
       else memory_write_uint32 m a w = Inl (SlowPath Write32 (masked m a)))"
  using assms by (simp add: memory_write_uint8_store memory_write_uint16_store
    memory_write_uint32_store ram_at_store8 ram_at_store16 ram_at_store32)

theorem memory_writes_flat_witness:
  "\<exists>m'. memory_write_uint32 demo_env 8 0x11223344 = Inr m' \<and> ram_at m' 9 = 0x22"
  using memory_writes_flat [OF demo_wf, of 8 0 0 "0x11223344"]
  by (auto simp: masked_def in_page_def page_geometry demo_env_def put32_def)

text \<open>
  C18. Reading back what was written, at each width: the value written is the value read.
\<close>

theorem memory_read_after_write:
  assumes "wf_env m"
  shows "(memory_write_uint8 m a b = Inr m' \<longrightarrow> memory_read_uint8 m' a = Inr b)
    \<and> (memory_write_uint16 m a h = Inr m' \<longrightarrow> memory_read_uint16 m' a = Inr h)
    \<and> (memory_write_uint32 m a w = Inr m' \<longrightarrow> memory_read_uint32 m' a = Inr w)"
  using assms by (auto simp: memory_write_uint8_store memory_write_uint16_store
    memory_write_uint32_store memory_read_uint8_flat memory_read_uint16_flat
    memory_read_uint32_flat ram_at_store8 ram_at_store16 ram_at_store32 split: if_splits)

theorem memory_read_after_write_witness:
  "\<exists>m'. memory_write_uint32 demo_env 8 0x11223344 = Inr m'
    \<and> memory_read_uint32 m' 8 = Inr 0x11223344"
proof -
  have "in_page 4 (masked demo_env 8)"
    by (simp add: masked_def in_page_def page_geometry demo_env_def)
  then obtain m' where "memory_write_uint32 demo_env 8 0x11223344 = Inr m'"
    by (auto simp: memory_write_uint32_store [OF demo_wf])
  with memory_read_after_write [OF demo_wf, of 8 0 m' 0 "0x11223344"] show ?thesis by blast
qed

text \<open>
  C19. Initialisation with a RAM of 2^k bytes (12 <= k <= 31) and successful allocations
  gives a well-formed environment in which an address is reduced modulo 2^k; a failed
  allocation stops the program.
\<close>

theorem mem_env_init_contract:
  assumes "12 \<le> k" "k \<le> 31"
  shows "(ram = 0 \<or> rd = 0 \<or> wr = 0 \<longrightarrow> mem_env_init (2 ^ k) (ram, rd, wr) m = Inl AllocFailed)
    \<and> (ram \<noteq> 0 \<and> rd \<noteq> 0 \<and> wr \<noteq> 0 \<longrightarrow> (\<exists>m'. mem_env_init (2 ^ k) (ram, rd, wr) m = Inr m'
         \<and> wf_env m' \<and> mem_env_ram m' = ram \<and> (\<forall>a. unat (masked m' a) = unat a mod 2 ^ k)))"
  using mem_env_init_power [OF assms, of ram rd wr m] by (auto simp: mem_env_init_def)

theorem mem_env_init_contract_witness:
  "\<exists>m'. mem_env_init (2 ^ 23) (0x10000, 0x20, 0x30) demo_env = Inr m' \<and> wf_env m'
    \<and> unat (masked m' 0x800010) = 0x10"
  using mem_env_init_contract [of 23 "0x10000" "0x20" "0x30" demo_env] by auto

section \<open>The 68k instructions\<close>

text \<open>
  C20. Every entry the 68k decoder writes is 1, 2 or 3 words long, and the length is the one
  fixed for its id: a handler that returns has advanced the entry pointer by exactly that
  length, or it is a branch, a conditional branch or DBRA and has gone to its target. A
  branch keeps its length in the field \<open>a\<close>, and is two words long exactly when
  the low byte of its first word is 0. Register operands are byte offsets of one of the
  sixteen registers: multiples of 4, at most 60.
\<close>

theorem m68k_decode_bounds:
  assumes "mpd_decode g pc = Inr (e, len)"
  shows "len \<in> {1, 2, 3} \<and> len_ok (mi_id e) len
    \<and> (\<forall>m h cur m' h' cur'. mpd_handler (mi_id e) e (m, h, cur) = Inr (m', h', cur') \<longrightarrow>
         cur' = cur + len \<or> mi_id e \<in> {MI_BRA, MI_DBRA} \<union> range MI_Bcc \<and> cur' = unat (mi_c e))
    \<and> (\<exists>op. memory_read_uint16 g pc = Inr op \<and> (mi_id e \<in> {MI_BRA} \<union> range MI_Bcc \<longrightarrow>
         unat (mi_a e) = len \<and> len = (if (ucast op :: u8) = 0 then 2 else 1)))
    \<and> (offset_a (mi_id e) \<longrightarrow> 4 dvd unat (mi_a e) \<and> unat (mi_a e) \<le> 60)
    \<and> (offset_b (mi_id e) \<longrightarrow> 4 dvd unat (mi_b e) \<and> unat (mi_b e) \<le> 60)"
proof -
  have ok: "ent_ok (e, len)" using assms by (rule mpd_decode_ent_ok)
  obtain op where op: "memory_read_uint16 g pc = Inr op"
      "offset_a (mi_id e) \<or> len = (if (ucast op :: u8) = 0 then 2 else 1)"
    using mpd_decode_branch_len [OF assms] by auto
  have "mi_id e \<in> {MI_BRA} \<union> range MI_Bcc \<Longrightarrow> \<not> offset_a (mi_id e)" by auto
  with op ok show ?thesis
    using mpd_decode_len [OF assms] mpd_handler_next [OF ok]
    by (intro conjI allI impI exI [of _ op]) (auto simp: ent_ok_def reg_offset_def branch_id_def)
qed

theorem m68k_decode_bounds_witness:
  "\<exists>e len. mpd_decode (snd demo_m68k) 0x1000 = Inr (e, len) \<and> len \<in> {1, 2, 3}"
proof -
  from demo_m68k_stays [of 1]
  have "case mpd_decode (snd demo_m68k) (m68k_pc (fst demo_m68k)) of Inl e \<Rightarrow> False | Inr el \<Rightarrow> True"
    by (auto simp: mpd_run_ok_def split: sum.splits)
  moreover have "m68k_pc (fst demo_m68k) = 0x1000"
    by (simp add: demo_m68k_cpu layout)
  ultimately obtain e len where "mpd_decode (snd demo_m68k) 0x1000 = Inr (e, len)"
    by (auto split: sum.splits)
  with m68k_decode_bounds [OF this] show ?thesis by blast
qed

text \<open>
  C21. The only way the 68k decoder stops the program is a 32-bit immediate that straddles a
  page: the trap then names a 32-bit read at the masked address two bytes further on. Any
  other word decodes.
\<close>

theorem m68k_decode_traps:
  assumes "wf_env g" and "aligned2 a" and "mpd_decode g a = Inl e"
  shows "e = SlowPath Read32 (masked g (a + 2)) \<and> \<not> in_page 4 (masked g (a + 2))"
  using assms by (rule mpd_decode_trap)

theorem m68k_decode_traps_witness:
  "\<exists>e. mpd_decode demo_straddle 0xFFC = Inl e \<and> e = SlowPath Read32 0xFFE"
proof -
  have wf: "wf_env demo_straddle"
    by (auto simp: wf_env_def demo_straddle_def demo_env_def)
  have al: "aligned2 0xFFC" by (simp add: aligned2_def)
  have "memory_read_uint16 demo_straddle 0xFFC = Inr 0x203C"
    unfolding aligned2_fetch [OF wf al]
    by (simp add: be16_def ram_at_def masked_def demo_straddle_def demo_env_def)
  moreover have "memory_read_uint32 demo_straddle 0xFFE = Inl (SlowPath Read32 0xFFE)"
    unfolding memory_read_uint32_flat [OF wf]
    by (simp add: masked_def in_page_def page_geometry demo_straddle_def demo_env_def)
  ultimately have trap: "mpd_decode demo_straddle 0xFFC = Inl (SlowPath Read32 0xFFE)"
    by (simp add: mpd_decode_def mpd_move_def Let_def)
  from m68k_decode_traps [OF wf al trap] show ?thesis using trap by simp
qed

text \<open>
  C22. After CMP.L s,d the conditions mean what their names say of the operands: EQ and NE
  compare them, CS and CC compare them unsigned, LT, GE, LE and GT compare them signed.
\<close>

theorem m68k_cmp_branch:
  "m68k_cond (cc_cmp_l m s d (d - s)) 7 = (d = s) \<and> m68k_cond (cc_cmp_l m s d (d - s)) 6 = (d \<noteq> s)
    \<and> m68k_cond (cc_cmp_l m s d (d - s)) 5 = (unat d < unat s)
    \<and> m68k_cond (cc_cmp_l m s d (d - s)) 4 = (unat s \<le> unat d)
    \<and> m68k_cond (cc_cmp_l m s d (d - s)) 13 = (sint d < sint s)
    \<and> m68k_cond (cc_cmp_l m s d (d - s)) 12 = (sint s \<le> sint d)
    \<and> m68k_cond (cc_cmp_l m s d (d - s)) 15 = (sint d \<le> sint s)
    \<and> m68k_cond (cc_cmp_l m s d (d - s)) 14 = (sint s < sint d)"
  by (simp add: m68k_cond_def M68K_CONDS_def cond_after_cmp del: cond_expr.simps)

text \<open>
  C23. ADD.L and SUB.L set the flags from the exact result: V says the signed sum or
  difference does not fit, C and X that the unsigned one does not, N and Z describe the
  32-bit result.
\<close>

theorem m68k_add_flags:
  "cc_add_l m s d (d + s) =
      m\<lparr>m68k_n := c_bool (sint (d + s) < 0), m68k_z := c_bool (d + s = 0),
        m68k_v := c_bool (sint (d + s) \<noteq> sint d + sint s), m68k_cf := c_bool (2 ^ 32 \<le> unat d + unat s),
        m68k_x := c_bool (2 ^ 32 \<le> unat d + unat s)\<rparr>
    \<and> cc_sub_l m s d (d - s) =
      m\<lparr>m68k_n := c_bool (sint (d - s) < 0), m68k_z := c_bool (d = s),
        m68k_v := c_bool (sint (d - s) \<noteq> sint d - sint s), m68k_cf := c_bool (unat d < unat s),
        m68k_x := c_bool (unat d < unat s)\<rparr>"
  unfolding cc_sub_l_meaning cc_cmp_l_meaning by (simp add: cc_add_l_meaning)

text \<open>
  C24. The 68k assembler and the predecoder are inverse: at an even address of RAM below the
  data window, each of the 34 macros assembles words that decode to its own handler id and
  length, with the operands as register offsets (or the quick value 1 to 8), the 8-bit
  constant or the displacement sign-extended, the 16-bit immediate as it is or the 32-bit
  immediate, if it does not straddle a page, put together, and the branch target, if in
  range, as its entry index.
\<close>

theorem m68k_assemble_decode:
  assumes "bench_env g" "aligned2 a" "unat a + 6 \<le> 0x100000" "unat d < 8" "unat s < 8"
    and "1 \<le> unat q" "unat q \<le> 8" and "in_page 4 (a + 2)"
    and "bcc_id cc = Some i" "unat cc < 16" "cc \<noteq> 1" and "t \<noteq> a + 2" "sext8 (t - (a + 2)) = t - (a + 2)"
    and "sext16 (t' - (a + 2)) = t' - (a + 2)"
  shows
   "(assembled (asm_ADD_L_DD d s) g a (MI_EL ADD_L_DD) (DR_OFF d) (DR_OFF s) (\<lambda>_. True) 1 \<and>
     assembled (asm_SUB_L_DD d s) g a (MI_EL SUB_L_DD) (DR_OFF d) (DR_OFF s) (\<lambda>_. True) 1 \<and>
     assembled (asm_AND_L_DD d s) g a (MI_EL AND_L_DD) (DR_OFF d) (DR_OFF s) (\<lambda>_. True) 1 \<and>
     assembled (asm_OR_L_DD d s) g a (MI_EL OR_L_DD) (DR_OFF d) (DR_OFF s) (\<lambda>_. True) 1 \<and>
     assembled (asm_EOR_L_DD d s) g a (MI_EL EOR_L_DD) (DR_OFF d) (DR_OFF s) (\<lambda>_. True) 1 \<and>
     assembled (asm_CMP_L_DD d s) g a (MI_PF CMP_L_DD) (DR_OFF d) (DR_OFF s) (\<lambda>_. True) 1 \<and>
     assembled (asm_MOVE_L_DD d s) g a (MI_EL MV_L_DD) (DR_OFF d) (DR_OFF s) (\<lambda>_. True) 1 \<and>
     assembled (asm_MOVE_L_ANP_DN d s) g a (MI_EL MV_L_ANP_DN) (DR_OFF d) (AR_OFF s) (\<lambda>_. True) 1 \<and>
     assembled (asm_MOVE_L_DN_ANP d s) g a (MI_EL MV_L_DN_ANP) (DR_OFF s) (AR_OFF d) (\<lambda>_. True) 1) \<and>
    (assembled (asm_ADDQ_L_DN q s) g a (MI_EL ADDQ_L_DN) (DR_OFF s) (ucast q) (\<lambda>_. True) 1 \<and>
     assembled (asm_SUBQ_L_DN q s) g a (MI_EL SUBQ_L_DN) (DR_OFF s) (ucast q) (\<lambda>_. True) 1 \<and>
     assembled (asm_ADDQ_L_AN q s) g a MI_ADDQ_L_AN (AR_OFF s) (ucast q) (\<lambda>_. True) 1 \<and>
     assembled (asm_LSL_L q s) g a (MI_EL LSL_L_IMM) (DR_OFF s) (ucast q) (\<lambda>_. True) 1 \<and>
     assembled (asm_LSR_L q s) g a (MI_EL LSR_L_IMM) (DR_OFF s) (ucast q) (\<lambda>_. True) 1) \<and>
    (assembled (asm_MOVE_L_D16_DN d s off) g a (MI_EL MV_L_D16_DN) (DR_OFF d) (AR_OFF s) (\<lambda>c. c = sext16 off) 2 \<and>
     assembled (asm_MOVE_W_D16_DN d s off) g a (MI_EL MV_W_D16_DN) (DR_OFF d) (AR_OFF s) (\<lambda>c. c = sext16 off) 2 \<and>
     assembled (asm_MOVE_B_D16_DN d s off) g a (MI_EL MV_B_D16_DN) (DR_OFF d) (AR_OFF s) (\<lambda>c. c = sext16 off) 2 \<and>
     assembled (asm_MOVE_L_DN_D16 d off s) g a (MI_EL MV_L_DN_D16) (DR_OFF s) (AR_OFF d) (\<lambda>c. c = sext16 off) 2 \<and>
     assembled (asm_MOVE_W_DN_D16 d off s) g a (MI_EL MV_W_DN_D16) (DR_OFF s) (AR_OFF d) (\<lambda>c. c = sext16 off) 2 \<and>
     assembled (asm_MOVE_B_DN_D16 d off s) g a (MI_EL MV_B_DN_D16) (DR_OFF s) (AR_OFF d) (\<lambda>c. c = sext16 off) 2 \<and>
     assembled (asm_LEA_D16 d s off) g a MI_LEA_D16 (AR_OFF d) (AR_OFF s) (\<lambda>c. c = sext16 off) 2) \<and>
    (assembled (asm_MOVE_L_IMM_DN d v v) g a (MI_EL MV_L_IMM_DN) (DR_OFF d) 0 (\<lambda>c. c = v) 3 \<and>
     assembled (asm_MOVEA_L_IMM d v v) g a MI_MOVEA_L_IMM (AR_OFF d) 0 (\<lambda>c. c = v) 3 \<and>
     assembled (asm_CMPI_L_DN v v d) g a (MI_PF CMPI_L_DN) (DR_OFF d) 0 (\<lambda>c. c = v) 3) \<and>
    (assembled (asm_BCC_B cc t) g a i 1 0 (\<lambda>c. c = drop_bit 1 t) 1 \<and>
     assembled (asm_BRA_W t') g a MI_BRA 2 0 (\<lambda>c. c = drop_bit 1 t') 2 \<and>
     assembled (asm_DBRA d t') g a MI_DBRA 0 (DR_OFF d) (\<lambda>c. c = drop_bit 1 t') 2 \<and>
     assembled (asm_BRA_B t) g a MI_BRA 1 0 (\<lambda>c. c = drop_bit 1 t) 1) \<and>
    (assembled (asm_MOVEQ d v) g a (MI_EL MOVEQ) (DR_OFF d) 0 (\<lambda>c. c = sext8 v) 1 \<and>
     assembled (asm_MOVE_W_IMM_DN d v) g a (MI_EL MV_W_IMM_DN) (DR_OFF d) 0 (\<lambda>c. c = ucast (ucast v :: u16)) 2 \<and>
     assembled (asm_TST_L_DN d) g a (MI_PF TST_L_DN) (DR_OFF d) 0 (\<lambda>_. True) 1 \<and>
     assembled (asm_TST_W_DN d) g a (MI_PF TST_W_DN) (DR_OFF d) 0 (\<lambda>_. True) 1 \<and>
     assembled (asm_TST_B_DN d) g a (MI_PF TST_B_DN) (DR_OFF d) 0 (\<lambda>_. True) 1 \<and>
     assembled asm_NOP g a MI_NOP 0 0 (\<lambda>_. True) 1)"
  using asm_register_forms [OF assms(1-5)] asm_quick_forms [OF assms(1-3,6,7,5)]
    asm_displacement_forms [OF assms(1-5)] asm_immediate_forms [OF assms(1-3,8,4)]
    asm_branch_forms [OF assms(1-4,9-11)] asm_short_branch [OF assms(1-3)]
    asm_constant_forms [OF assms(1-4)] assms(12-14) by simp

theorem m68k_assemble_decode_witness:
  "assembled (asm_ADD_L_DD 1 2) bench_demo 0x2000 (MI_EL ADD_L_DD) (DR_OFF 1) (DR_OFF 2) (\<lambda>_. True) 1 \<and>
   assembled (asm_LSL_L 8 2) bench_demo 0x2000 (MI_EL LSL_L_IMM) (DR_OFF 2) 8 (\<lambda>_. True) 1 \<and>
   assembled (asm_BCC_B CC_GT 0x1FF0) bench_demo 0x2000 (MI_Bcc GT) 1 0 (\<lambda>c. c = 0xFF8) 1"
proof -
  have "aligned2 (0x2000 :: u32)" "in_page 4 (0x2000 + 2 :: u32)" "bcc_id CC_GT = Some (MI_Bcc GT)"
    "sext8 (0x1FF0 - (0x2000 + 2)) = 0x1FF0 - (0x2000 + 2)" "sext16 (0x1FF0 - (0x2000 + 2)) = 0x1FF0 - (0x2000 + 2)"
    by (simp_all add: aligned2_def in_page_def page_geometry bcc_id_def CC_GT_def sext8_def sext16_def)
  from m68k_assemble_decode [OF bench_demo this(1) _ _ _ _ _ this(2,3) _ _ _ this(4,5), of 1 2 8]
  show ?thesis by (simp add: CC_GT_def)
qed

text \<open>
  C25. LSL.L and LSR.L by 1 to 8 multiply by a power of two modulo 2^32 and divide by it, in
  one register; C and X are the last bit shifted out, N and Z tell the sign and whether the
  result is 0, and V is cleared.
\<close>

theorem m68k_shift_values:
  assumes "1 \<le> unat q" "unat q \<le> 8" "unat s < 8" "length (regs m) = 16"
  shows "\<exists>m'. m68k_dispatch (shift_op left q s) (m, g, pc) = Inr (m', g, pc) \<and>
    (\<forall>r. r \<noteq> s \<longrightarrow> get_reg m' r = get_reg m r) \<and>
    unat (get_reg m' s) = (if left then unat (get_reg m s) * 2 ^ unat q mod 2 ^ 32 else unat (get_reg m s) div 2 ^ unat q) \<and>
    m68k_cf m' = c_bool (odd (unat (get_reg m s) div 2 ^ (if left then 32 - unat q else unat q - 1))) \<and>
    m68k_x m' = m68k_cf m' \<and> m68k_v m' = 0 \<and>
    m68k_n m' = c_bool (sint (get_reg m' s) < 0) \<and> m68k_z m' = c_bool (get_reg m' s = 0)"
  using assms by (rule shift_meaning)

theorem m68k_shift_values_witness:
  "\<exists>m'. m68k_dispatch (shift_op True 8 3) (m68k_reset\<lparr>regs := (replicate 16 0)[3 := 0x01000001]\<rparr>, demo_env, 0) = Inr (m', demo_env, 0) \<and>
    unat (get_reg m' 3) = 256 \<and> m68k_cf m' = 1"
  using m68k_shift_values [of 8 3 "m68k_reset\<lparr>regs := (replicate 16 0)[3 := 0x01000001]\<rparr>" True demo_env 0]
  by (auto simp: get_reg_def m68k_reset_def c_bool_def)

text \<open>
  C26. DBRA subtracts 1 from the low word of its register, modulo 2^16 and without touching
  the high word or a flag, and falls through exactly when that word was 0; otherwise it
  branches relative to its displacement word.
\<close>

theorem m68k_dbra_counts:
  assumes "unat s < 8" "length (regs m) = 16" "memory_read_uint16 g pc = Inr d"
  shows "\<exists>m'. m68k_dispatch (0x51C8 OR s) (m, g, pc) =
      Inr (m', g, if unat (get_reg m s) mod 65536 = 0 then pc + 2 else pc + scast d) \<and>
    (\<forall>r. r \<noteq> s \<longrightarrow> get_reg m' r = get_reg m r) \<and>
    unat (get_reg m' s) = unat (get_reg m s) div 65536 * 65536 + (unat (get_reg m s) + 65535) mod 65536 \<and>
    m'\<lparr>regs := regs m\<rparr> = m"
  using assms by (rule dbra_meaning)

theorem m68k_dbra_counts_witness:
  "\<exists>m'. m68k_dispatch (0x51C8 OR 3) (m68k_reset\<lparr>regs := (replicate 16 0)[3 := 0x50000]\<rparr>, demo_env, 0) = Inr (m', demo_env, 2) \<and>
    unat (get_reg m' 3) = 0x5FFFF"
proof -
  have "memory_read_uint16 demo_env 0 = Inr 0x3860"
    using memory_read_uint16_flat [OF demo_wf, of 0]
    by (simp add: in_page_def page_geometry masked_def demo_env_def be16_def ram_at_def)
  from m68k_dbra_counts [OF _ _ this, of 3 "m68k_reset\<lparr>regs := (replicate 16 0)[3 := 0x50000]\<rparr>"]
  show ?thesis by (auto simp: get_reg_def m68k_reset_def)
qed

text \<open>
  C27. The backends disagree on the conditions M68K_CONDS leaves out: at a short branch on
  HI, LS, VC or VS the switch goes on with the next word, whatever the flags, and the
  predecoder leaves an illegal entry, whose handler stops the program.
\<close>

theorem m68k_unsupported_branches:
  assumes "cond \<in> {2, 3, 8, 9}" "0 < unat d8" "unat d8 < 256"
    and "memory_read_uint16 g (m68k_pc m) = Inr (ucast (bcc_op cond d8))"
  shows "m68k_run_switch m g 1 = Inr (m\<lparr>m68k_pc := m68k_pc m + 2\<rparr>, g) \<and>
    (\<exists>e. mpd_decode g (m68k_pc m) = Inr (e, 1) \<and>
      mpd_handler (mi_id e) e (m, g, cur) = m68k_illegal (m\<lparr>m68k_pc := push_bit 1 (of_nat cur)\<rparr>) (bcc_op cond d8))"
  using unsupported_branch [OF assms] by (simp add: m68k_run_switch_def m68k_ent_of_def)

theorem m68k_unsupported_branches_witness:
  "m68k_run_switch m68k_reset (demo_env\<lparr>host := (\<lambda>p. 0)(0x10000 := 0x62, 0x10001 := 0x04)\<rparr>) 1
     = Inr (m68k_reset\<lparr>m68k_pc := 2\<rparr>, demo_env\<lparr>host := (\<lambda>p. 0)(0x10000 := 0x62, 0x10001 := 0x04)\<rparr>)"
proof -
  let ?g = "demo_env\<lparr>host := (\<lambda>p. 0)(0x10000 := 0x62, 0x10001 := 0x04)\<rparr>"
  have "wf_env ?g" using demo_wf by simp
  from memory_read_uint16_flat [OF this, of 0] have "memory_read_uint16 ?g 0 = Inr (ucast (bcc_op 2 4))"
    by (simp add: in_page_def page_geometry masked_def demo_env_def be16_def ram_at_def bcc_op_def)
  from m68k_unsupported_branches [of 2 4 ?g m68k_reset] this show ?thesis by (simp add: m68k_reset_def)
qed

text \<open>
  C28. Every run of the 68k switch keeps the state well-formed: sixteen registers, and N, Z,
  V, C and X are 0 or 1 (the flags are stored as words and combined bitwise, so this is what
  makes the conditions meaningful).
\<close>

theorem m68k_state_wf:
  assumes "m68k_wf m" and "m68k_run_switch m g budget = Inr (m', g')"
  shows "m68k_wf m'"
  using assms by (rule m68k_run_wf)

theorem m68k_state_wf_witness:
  "\<exists>m' g'. m68k_run_switch (fst demo_m68k) (snd demo_m68k) 1000 = Inr (m', g') \<and> m68k_wf m'"
proof -
  obtain m' g' where run: "m68k_run_switch (fst demo_m68k) (snd demo_m68k) 1000 = Inr (m', g')"
    using m68k_backends_on_kernel [OF bench_demo, of 0 "fst demo_m68k" "snd demo_m68k" 1000]
    by (auto simp: demo_m68k_def)
  have "m68k_wf (fst demo_m68k)"
    by (simp add: demo_m68k_cpu m68k_reset_def m68k_wf_def)
  from m68k_state_wf [OF this run] run show ?thesis by blast
qed

section \<open>The PowerPC instructions\<close>

text \<open>
  C29. Every run of the three backends that dispatch on the raw word keeps the state
  well-formed: 32 registers, zero_base still 0 and a carry of 0 or 1. \<open>set_gpr\<close>
  with an index past the register file would overwrite zero_base, the word behind it, so
  zero_base stays 0 only because the destination field of every instruction, update forms
  included, selects one of the 32 registers.
\<close>

theorem ppc_state_wf:
  assumes "ppc_wf c" and "ppc_run_switch c m budget = Inr (c', m') \<or> ppc_run_tail c m budget = Inr (c', m')
    \<or> ppc_run_call c m budget = Inr (c', m')"
  shows "ppc_wf c'"
  using assms run_switch_wf by (auto simp: run_tail_eq run_call_eq)

theorem ppc_state_wf_witness:
  "\<exists>c' m'. ppc_run_switch demo_ppc demo_env 2 = Inr (c', m') \<and> ppc_wf c'"
proof -
  have "ppc_wf demo_ppc" by (simp add: demo_ppc_def ppc_wf_def)
  moreover have "\<exists>c' m'. ppc_run_switch demo_ppc demo_env 2 = Inr (c', m')"
    by (simp add: ppc_run_switch_def demo_steps demo_pc)
  ultimately show ?thesis using ppc_state_wf by blast
qed

text \<open>
  C30. Every register offset in a pre-extracted entry lies in the register file:
  destinations and plain sources, the \<open>b\<close> of add, addi or mulli included, are
  multiples of 4 below 128. Only the base of a load or store (not of an update form) may be
  128, the offset of zero_base, and it is so exactly when the instruction's rA is 0;
  otherwise it is the offset of rA.
\<close>

theorem pdx_offsets_in_bounds:
  "(reads_a (pdx_id (pdx_decode wide a insn)) \<or> writes_a (pdx_id (pdx_decode wide a insn))
      \<longrightarrow> gpr_off (ucast (pdx_a (pdx_decode wide a insn))))
    \<and> (reads_b (pdx_id (pdx_decode wide a insn)) \<or> writes_b (pdx_id (pdx_decode wide a insn))
      \<longrightarrow> gpr_off (ucast (pdx_b (pdx_decode wide a insn))))
    \<and> (uses_base (pdx_id (pdx_decode wide a insn)) \<longrightarrow>
         unat (pdx_b (pdx_decode wide a insn)) = (if P_RA insn = 0 then 128 else 4 * unat (P_RA insn)))
    \<and> (reads_c (pdx_id (pdx_decode wide a insn)) \<longrightarrow> gpr_off (pdx_c (pdx_decode wide a insn)))"
  using pdx_decode_offsets [of insn wide a]
  by (simp add: offsets_ok_def unat_RO fields ZERO_OFF_def)

theorem pdx_offsets_in_bounds_witness:
  "unat (pdx_b (pdx_decode False 0 0x80600008)) = 128 \<and> unat (pdx_b (pdx_decode False 0 0x80650008)) = 20
    \<and> gpr_off (ucast (pdx_b (pdx_decode False 0 0x7C602214)))"
  using pdx_offsets_in_bounds [of False 0 "0x80600008"] pdx_offsets_in_bounds [of False 0 "0x80650008"]
    pdx_offsets_in_bounds [of False 0 "0x7C602214"]
  by (simp add: pdx_decode_def pdx_decode_31_def P_RA_def P_RD_def Let_def pdx_ent_abc_def pdx_uses)

text \<open>
  C31. No decoded instruction of backends E and F writes zero_base, the word behind the
  register file that stands for the constant 0 of the rA = 0 forms.
\<close>

theorem pdx_keeps_zero_base:
  assumes "pdx_handler (pdx_id (pdx_decode wide a insn)) wide (pdx_decode wide a insn) (c, m, cur)
    = Inr (c', m', cur')"
  shows "zero_base c' = zero_base c"
  using pdx_decode_offsets assms by (rule pdx_handler_zero_base)

theorem pdx_keeps_zero_base_witness:
  "\<exists>c' m' cur'. pdx_handler (pdx_id (pdx_decode True 0 0x38600005)) True (pdx_decode True 0 0x38600005)
    (demo_ppc, demo_env, 0) = Inr (c', m', cur') \<and> zero_base c' = zero_base demo_ppc"
proof -
  have "\<exists>c'. pdx_handler (pdx_id (pdx_decode True 0 0x38600005)) True (pdx_decode True 0 0x38600005)
      (demo_ppc, demo_env, 0) = Inr (c', demo_env, 1)"
    by (simp add: pdx_decode_def P_RA_def Let_def pdx_ent_abc_def)
  with pdx_keeps_zero_base show ?thesis by blast
qed

text \<open>
  C32. rlwinm in the architecture's bit numbering (bit 0 leftmost): bit i of the result is
  bit (i + sh) mod 32 of the source if i lies in the mask, which runs from mb to me and
  wraps around when me < mb, and 0 otherwise.
\<close>

theorem ppc_rlwinm_bits:
  assumes "ppc_wf c" and "i < 32"
    and "mb = unat (drop_bit 6 insn AND 31)" and "me = unat (drop_bit 1 insn AND 31)"
  shows "bit (get_gpr (gen_rlwinm c insn) (P_RA insn)) (31 - i) \<longleftrightarrow>
    (if mb \<le> me then mb \<le> i \<and> i \<le> me else mb \<le> i \<or> i \<le> me)
    \<and> bit (get_gpr c (P_RD insn)) (31 - (i + unat (P_RB insn)) mod 32)"
  using assms by (simp add: rlwinm_bit)

theorem ppc_rlwinm_bits_witness:
  "bit (get_gpr (gen_rlwinm (set_gpr demo_ppc 3 1) 0x5464083C) 4) 1"
proof -
  have wf: "ppc_wf (set_gpr demo_ppc 3 1)"
    by (simp add: demo_ppc_def ppc_wf_def)
  have rd: "get_gpr (set_gpr demo_ppc 3 1) 3 = 1"
    by (simp add: demo_ppc_def get_gpr_def set_gpr_def)
  from ppc_rlwinm_bits [OF wf, of 30 _ "0x5464083C"] rd show ?thesis
    by (simp add: P_RD_def P_RA_def P_RB_def)
qed

text \<open>
  C33. srawi divides the signed source by 2^sh, rounding towards minus infinity, and sets CA
  exactly when the source is negative and the division is not exact.
\<close>

theorem ppc_srawi_divides:
  assumes "ppc_wf c"
  shows "sint (get_gpr (gen_srawi c insn rc) (P_RA insn))
      = sint (get_gpr c (P_RD insn)) div 2 ^ unat (P_RB insn)
    \<and> xer_ca (gen_srawi c insn rc) = c_bool (sint (get_gpr c (P_RD insn)) < 0
        \<and> \<not> 2 ^ unat (P_RB insn) dvd sint (get_gpr c (P_RD insn)))"
  using srawi_meaning [OF assms] by blast

theorem ppc_srawi_divides_witness:
  "xer_ca (gen_srawi (set_gpr demo_ppc 3 (- 5)) 0x7C640E70 False) = 1"
proof -
  have wf: "ppc_wf (set_gpr demo_ppc 3 (- 5))"
    by (simp add: demo_ppc_def ppc_wf_def)
  have rd: "get_gpr (set_gpr demo_ppc 3 (- 5)) 3 = - 5"
    by (simp add: demo_ppc_def get_gpr_def set_gpr_def)
  from ppc_srawi_divides [OF wf, of "0x7C640E70" False] rd show ?thesis
    by (simp add: P_RD_def P_RB_def c_bool_def)
qed

text \<open>
  C34. A conditional branch on a bit of the field a comparison has just written is taken
  exactly when the operands compare so: bit 0 less, 1 greater, 2 equal, signed or unsigned,
  in any of the eight fields; it leaves the state as the comparison made it.
\<close>

theorem ppc_compare_and_branch:
  assumes "P_RD br = (if on then 12 else 4)" and "br AND 3 = 0"
    and "unat (P_RA br) = 4 * unat (drop_bit 23 insn AND 7) + j" and "j < 4"
    and "b = (if imm then (if u then P_UIMM insn else P_SIMM insn) else get_gpr c (P_RB insn))"
  shows "gen_bc (gen_cmp c insn imm u) br pc = (gen_cmp c insn imm u,
    if cmp_result u (get_gpr c (P_RA insn)) b j = on then (pc - 4) + sext16 (br AND 0xFFFC) else pc)"
  unfolding assms(5) using assms(1-4) by (rule cmp_then_branch)

theorem ppc_compare_and_branch_witness:
  "snd (gen_bc (gen_cmp demo_ppc 0x2C030005 True False) 0x41800010 0x104) = 0x110"
proof -
  have "gen_bc (gen_cmp demo_ppc 0x2C030005 True False) 0x41800010 0x104 =
    (gen_cmp demo_ppc 0x2C030005 True False,
     if cmp_result False (get_gpr demo_ppc (P_RA 0x2C030005)) (P_SIMM 0x2C030005) 0 = True
     then (0x104 - 4) + sext16 (0x41800010 AND 0xFFFC) else 0x104)"
    by (rule ppc_compare_and_branch) (simp_all add: P_RD_def P_RA_def)
  then show ?thesis
    by (simp add: cmp_result_def get_gpr_def demo_ppc_def P_RA_def P_SIMM_def sext16_def)
qed

text \<open>
  C35. The instruction list of the first four backends lacks xoris (primary opcode 27),
  while backends E and F decode and execute it. With such a word at the pc, in the decoded
  region, a run of A, B, C or D stops on it as illegal, whatever its budget and table; from
  the same state one step of E or F completes the instruction: rA becomes rS with the
  immediate exclusive-ored into its high half, and the pc moves on by 4.
\<close>

theorem xoris_diverges:
  assumes "drop_bit 26 insn = 27" and "memory_read_uint32 m (ppc_pc c) = Inr insn" and "budget \<noteq> 0"
    and "region_mapped m" "aligned4 (ppc_pc c)" "unat (ppc_pc c) < PD_REGION_BYTES"
    and "length tab = PD_ENTRIES" "length xtab = PD_ENTRIES"
  shows "ppc_run_switch c m budget = Inl (Illegal insn (ppc_pc c))
    \<and> ppc_run_tail c m budget = Inl (Illegal insn (ppc_pc c))
    \<and> ppc_run_call c m budget = Inl (Illegal insn (ppc_pc c))
    \<and> ppc_run_pd tab c m budget = Inl (Illegal insn (ppc_pc c))
    \<and> (\<exists>xtab'. ppc_run_pdx8 xtab c m 1 =
         Inr ((set_gpr c (P_RA insn) (get_gpr c (P_RD insn) XOR push_bit 16 (insn AND 0xFFFF)))
           \<lparr>ppc_pc := ppc_pc c + 4\<rparr>, m, xtab'))
    \<and> (\<exists>xtab'. ppc_run_pdx16 xtab c m 1 =
         Inr ((set_gpr c (P_RA insn) (get_gpr c (P_RD insn) XOR push_bit 16 (insn AND 0xFFFF)))
           \<lparr>ppc_pc := ppc_pc c + 4\<rparr>, m, xtab'))
    \<and> switch_dispatch insn (c, m, pc) = Inl (Illegal insn (ppc_pc c))
    \<and> pdx_handler (pdx_id (pdx_decode wide a insn)) wide (pdx_decode wide a insn) (c, m, cur) =
      Inr (set_gpr c (P_RA insn) (get_gpr c (P_RD insn) XOR push_bit 16 (insn AND 0xFFFF)), m, cur + 1)"
  using xoris_switch_run [OF assms(1-3)] xoris_pd_run [OF assms(1-7)]
    xoris_pdx_run [OF assms(1,2,4-6,8)] xoris_differs [OF assms(1)]
  by (simp add: run_tail_eq run_call_eq ppc_run_pdx8_def ppc_run_pdx16_def)

theorem xoris_diverges_witness:
  "ppc_run_switch demo_ppc demo_xoris 100 = Inl (Illegal 0x6C640001 0)
    \<and> ppc_run_pd (replicate PD_ENTRIES (pd_entry 0 0)) demo_ppc demo_xoris 100 = Inl (Illegal 0x6C640001 0)
    \<and> (\<exists>xtab. ppc_run_pdx8 (replicate PD_ENTRIES (pdx_blank 0)) demo_ppc demo_xoris 1 =
         Inr ((set_gpr demo_ppc 4 0x10000)\<lparr>ppc_pc := 4\<rparr>, demo_xoris, xtab))"
proof -
  have mapped: "region_mapped demo_xoris"
    by (auto simp: region_mapped_def wf_env_def demo_xoris_def demo_env_def)
  have "memory_read_uint32 demo_xoris (ppc_pc demo_ppc) = Inr 0x6C640001"
    using region_fetch [OF mapped, of 0] unfolding demo_pc
    by (simp add: aligned4_def pd_region) (simp add: be32_def ram_at_def demo_xoris_def demo_env_def)
  from xoris_diverges [OF _ this _ mapped, of 100 "replicate PD_ENTRIES (pd_entry 0 0)"
    "replicate PD_ENTRIES (pdx_blank 0)" 4 False 0 0]
  show ?thesis
    by (simp add: demo_pc aligned4_def pd_region P_RA_def P_RD_def)
      (simp add: demo_ppc_def get_gpr_def)
qed

text \<open>
  C36. lwzu with rA = 0, an invalid form the decoders accept: the generic body loads from
  the displacement and writes it to r0, backends E and F add the content of r0.
\<close>

theorem lwzu_r0_diverges:
  assumes "drop_bit 26 insn = 33" and "P_RA insn = 0"
  shows "switch_dispatch insn (c, m, pc) = bindE (memory_read_uint32 m (P_SIMM insn))
      (\<lambda>v. Inr (set_gpr (set_gpr c (P_RD insn) v) 0 (P_SIMM insn), m, pc))
    \<and> pdx_handler (pdx_id (pdx_decode wide a insn)) wide (pdx_decode wide a insn) (c, m, cur) =
      bindE (memory_read_uint32 m (get_gpr c 0 + P_SIMM insn))
      (\<lambda>v. Inr (set_gpr (set_gpr c (P_RD insn) v) 0 (get_gpr c 0 + P_SIMM insn), m, cur + 1))"
  using lwzu_r0_differs [OF assms] by blast

theorem lwzu_r0_diverges_witness:
  "switch_dispatch 0x84600004 (set_gpr demo_ppc 0 8, demo_env, 4) =
      bindE (memory_read_uint32 demo_env 4) (\<lambda>v. Inr (set_gpr (set_gpr (set_gpr demo_ppc 0 8) 3 v) 0 4, demo_env, 4))
    \<and> pdx_handler (pdx_id (pdx_decode False 0 0x84600004)) False (pdx_decode False 0 0x84600004) (set_gpr demo_ppc 0 8, demo_env, 0) =
      bindE (memory_read_uint32 demo_env 12) (\<lambda>v. Inr (set_gpr (set_gpr (set_gpr demo_ppc 0 8) 3 v) 0 12, demo_env, 1))"
  using lwzu_r0_diverges [of "0x84600004" "set_gpr demo_ppc 0 8" demo_env 4 False 0 0]
  by (simp add: P_RA_def P_RD_def P_SIMM_def sext16_def demo_ppc_def get_gpr_def set_gpr_def)

text \<open>
  C37. The decode loops of backends D, E and F return on every well-formed memory that maps
  the region, whatever words it holds: no word and no table content makes them stop.
\<close>

theorem ppc_predecode_returns:
  assumes "region_mapped m" and "length pd = PD_ENTRIES" and "length pdx = PD_ENTRIES"
  shows "(\<exists>pd'. predecode pd_entry m 0 pd = Inr pd' \<and> length pd' = PD_ENTRIES)
    \<and> (\<exists>pdx'. predecode (pdx_decode wide) m 0 pdx = Inr pdx' \<and> length pdx' = PD_ENTRIES)"
  using region_predecode [OF assms(1,2)] region_predecode [OF assms(1,3)] by blast

theorem ppc_predecode_returns_witness:
  "\<exists>pd'. predecode pd_entry demo_env 0 (replicate PD_ENTRIES (pd_entry 0 0)) = Inr pd' \<and> length pd' = PD_ENTRIES"
  using ppc_predecode_returns [OF demo_mapped, of "replicate PD_ENTRIES (pd_entry 0 0)"
    "replicate PD_ENTRIES (pdx_blank 0)" False] by simp

section \<open>The PowerPC assembler\<close>

text \<open>
  C38. The interpreter's field extractors recover what the harness's encoders put into an
  instruction word: opcode, registers, immediates, extended opcode and record bit, rotate
  fields and branch displacement.
\<close>

theorem ppc_encode_decode:
  assumes "unat op < 64" "reg d" "reg a" "reg b" "reg mb" "reg me" "unat xo < 1024" "unat rc < 2"
  shows "drop_bit 26 (E_D op d a imm) = op \<and> P_RD (E_D op d a imm) = d \<and> P_RA (E_D op d a imm) = a
      \<and> P_UIMM (E_D op d a imm) = imm AND 0xFFFF \<and> P_SIMM (E_D op d a imm) = sext16 imm
    \<and> drop_bit 26 (E_X d a b xo rc) = 31 \<and> P_RD (E_X d a b xo rc) = d \<and> P_RA (E_X d a b xo rc) = a
      \<and> P_RB (E_X d a b xo rc) = b \<and> E_X d a b xo rc AND 0x7FF = push_bit 1 xo OR rc
    \<and> drop_bit 26 (E_RLWINM a d b mb me) = 21 \<and> P_RD (E_RLWINM a d b mb me) = d
      \<and> P_RA (E_RLWINM a d b mb me) = a \<and> P_RB (E_RLWINM a d b mb me) = b
      \<and> drop_bit 6 (E_RLWINM a d b mb me) AND 31 = mb \<and> drop_bit 1 (E_RLWINM a d b mb me) AND 31 = me
    \<and> drop_bit 26 (E_BC d a off) = 16 \<and> P_RD (E_BC d a off) = d \<and> P_RA (E_BC d a off) = a
      \<and> E_BC d a off AND 0xFFFC = off AND 0xFFFC \<and> E_BC d a off AND 3 = 0"
  by (intro conjI) (fact E_D_fields [OF assms(1-3)] E_X_fields [OF assms(2,3,4,7,8)]
    E_RLWINM_fields [OF assms(3,2,4,5,6)] E_BC_fields [OF assms(2,3)])+

theorem ppc_encode_decode_witness: "P_RA (E_D 14 3 5 0xFFFF) = 5 \<and> P_SIMM (E_D 14 3 5 0xFFFF) = - 1"
  using ppc_encode_decode [of 14 3 5 0 0 0 0 0 "0xFFFF"] by (simp add: sext16_def)

section \<open>The state hash\<close>

text \<open>
  C39. The FNV-1a state hash distinguishes any two CPU states that differ in exactly one
  general register: a divergence confined to one register cannot be missed by the self
  check.
\<close>

theorem state_hash_detects:
  assumes "i < length (gpr c)" and "gpr c ! i \<noteq> v"
  shows "state_hash (c\<lparr>gpr := (gpr c)[i := v]\<rparr>) m \<noteq> state_hash c m"
proof -
  have "state_hash c m = fnv_hash (map ucast (take i (gpr c)) @ ucast (gpr c ! i) #
      (map ucast (drop (Suc i) (gpr c)) @ [ucast (ppc_pc c), ucast (lr c), ucast (ctr c), ucast (cr c),
        ucast (xer_ca c)] @ ram_words m))"
    unfolding state_hash_def by (subst id_take_nth_drop [OF assms(1)]) simp
  moreover have "state_hash (c\<lparr>gpr := (gpr c)[i := v]\<rparr>) m = fnv_hash (map ucast (take i (gpr c)) @ ucast v #
      (map ucast (drop (Suc i) (gpr c)) @ [ucast (ppc_pc c), ucast (lr c), ucast (ctr c), ucast (cr c),
        ucast (xer_ca c)] @ ram_words m))"
    using assms(1) by (simp add: state_hash_def upd_conv_take_nth_drop)
  ultimately show ?thesis
    using fnv_hash_differs assms(2) by (simp add: ucast_u64_inj)
qed

theorem state_hash_detects_witness:
  "state_hash (demo_ppc\<lparr>gpr := (gpr demo_ppc)[3 := 7]\<rparr>) demo_env \<noteq> state_hash demo_ppc demo_env"
  by (rule state_hash_detects) (simp_all add: demo_ppc_def)

section \<open>The byte-swap micro benchmark\<close>

text \<open>
  C40. The byte-swap benchmark returns for every iteration count, never leaves its buffer,
  and prints six checksums of which, in each addressing mode, those of the bswap and the
  rotate variant are equal.
\<close>

theorem be_main_checksums:
  "\<exists>le swap le' swap'. be_main iters = Inr [le, swap, swap, le', swap', swap']"
proof -
  have "\<exists>le swap. be_kinds dep iters buf = Inr [le, swap, swap]" if "length buf = BUF_WORDS" for dep buf
  proof -
    note len = that
    obtain le swap where "be_reps 5 0 dep iters buf 0 = Inr le" "be_reps 5 1 dep iters buf 0 = Inr swap"
      using be_reps_total [OF len] by metis
    then show ?thesis
      unfolding be_kinds_def be_reps_swaps by simp
  qed
  from this [of "be_fill BUF_WORDS 12345" False] this [of "be_fill BUF_WORDS 12345" True] show ?thesis
    by (auto simp: be_main_def Let_def)
qed

end
